(* ===== verification/SF_Prelude.thy ===== *)
theory SF_Prelude
  imports Main "HOL-Library.AList" "HOL-Library.Char_ord" "HOL-Library.List_Lexorder"
begin

text \<open>
  The shared vocabulary of the development: the Go string functions the sources call
  (package \<open>strings\<close> and \<open>strconv\<close>), Go maps as association lists, fixed-width signed
  integers, and the outcome of a call that may panic.

  A Go string is a byte string, here a \<open>char list\<close>. White space and letter case follow the
  ASCII part of the Go tables; bytes above 127 are neither white space nor letters.
\<close>

named_theorems gostr \<open>rewrite rules for the Go string functions\<close>
named_theorems gomap \<open>rewrite rules for Go maps kept as association lists\<close>

section \<open>Strings\<close>

definition is_space :: "char \<Rightarrow> bool" where
  "is_space c \<longleftrightarrow> c = CHR 0x20 \<or> (CHR 0x09 \<le> c \<and> c \<le> CHR 0x0D)"

definition trimLeft :: "string \<Rightarrow> string" where
  "trimLeft s = dropWhile is_space s"

definition trimSpace :: "string \<Rightarrow> string" where
  "trimSpace s = rev (dropWhile is_space (rev (trimLeft s)))"

definition is_upper :: "char \<Rightarrow> bool" where
  "is_upper c \<longleftrightarrow> CHR ''A'' \<le> c \<and> c \<le> CHR ''Z''"

definition is_lower :: "char \<Rightarrow> bool" where
  "is_lower c \<longleftrightarrow> CHR ''a'' \<le> c \<and> c \<le> CHR ''z''"

definition lower_char :: "char \<Rightarrow> char" where
  "lower_char c = (if is_upper c then char_of (of_char c + (32::nat)) else c)"

definition upper_char :: "char \<Rightarrow> char" where
  "upper_char c = (if is_lower c then char_of (of_char c - (32::nat)) else c)"

definition toLower :: "string \<Rightarrow> string" where
  "toLower s = map lower_char s"

definition toUpper :: "string \<Rightarrow> string" where
  "toUpper s = map upper_char s"

text \<open>\<open>strings.EqualFold\<close> on ASCII text.\<close>

definition equalFold :: "string \<Rightarrow> string \<Rightarrow> bool" where
  "equalFold a b \<longleftrightarrow> toLower a = toLower b"

fun hasPrefix :: "string \<Rightarrow> string \<Rightarrow> bool" where
  "hasPrefix s [] = True"
| "hasPrefix [] (p # ps) = False"
| "hasPrefix (c # s) (p # ps) = (c = p \<and> hasPrefix s ps)"

definition trimPrefix :: "string \<Rightarrow> string \<Rightarrow> string" where
  "trimPrefix s p = (if hasPrefix s p then drop (length p) s else s)"

definition hasSuffix :: "string \<Rightarrow> string \<Rightarrow> bool" where
  "hasSuffix s p = hasPrefix (rev s) (rev p)"

definition trimSuffix :: "string \<Rightarrow> string \<Rightarrow> string" where
  "trimSuffix s p = (if hasSuffix s p then take (length s - length p) s else s)"

fun contains_str :: "string \<Rightarrow> string \<Rightarrow> bool" where
  "contains_str [] p = (p = [])"
| "contains_str (c # s) p = (hasPrefix (c # s) p \<or> contains_str s p)"

text \<open>\<open>strings.Split\<close> with a one-byte separator: the empty string gives one empty part.\<close>

fun split_on :: "char \<Rightarrow> string \<Rightarrow> string list" where
  "split_on sep [] = [[]]"
| "split_on sep (c # s) =
     (if c = sep then [] # split_on sep s
      else (case split_on sep s of [] \<Rightarrow> [[c]] | p # ps \<Rightarrow> (c # p) # ps))"

fun join :: "string \<Rightarrow> string list \<Rightarrow> string" where
  "join sep [] = []"
| "join sep [p] = p"
| "join sep (p # q # ps) = p @ sep @ join sep (q # ps)"

definition digit_char :: "nat \<Rightarrow> char" where
  "digit_char d = char_of (48 + d)"

fun nat_digits :: "nat \<Rightarrow> string" where
  "nat_digits n =
     (if n < 10 then [digit_char n] else nat_digits (n div 10) @ [digit_char (n mod 10)])"

declare nat_digits.simps [simp del]

text \<open>\<open>strconv.FormatInt(i, 10)\<close>, \<open>strconv.Itoa\<close> and the verb \<open>%d\<close>.\<close>

definition itoa :: "int \<Rightarrow> string" where
  "itoa i = (if i < 0 then CHR ''-'' # nat_digits (nat (- i)) else nat_digits (nat i))"

subsection \<open>Trimming\<close>

lemma is_space_lower_char [simp]: "is_space (lower_char c) = is_space c"
proof (cases "is_upper c")
  case True
  then have "of_char c \<ge> (65::nat)" "of_char c \<le> (90::nat)"
    by (simp_all add: is_upper_def less_eq_char_def)
  then have "of_char (lower_char c) \<ge> (97::nat)"
    using True by (simp add: lower_char_def of_char_of)
  with \<open>of_char c \<ge> (65::nat)\<close> show ?thesis
    by (auto simp: is_space_def less_eq_char_def)
next
  case False
  then show ?thesis by (simp add: lower_char_def)
qed

lemma dropWhile_idem [simp]: "dropWhile P (dropWhile P xs) = dropWhile P xs"
  by (induction xs) auto

lemma trimLeft_Nil [simp]: "trimLeft [] = []"
  by (simp add: trimLeft_def)

lemma trimSpace_Nil [simp]: "trimSpace [] = []"
  by (simp add: trimSpace_def)

lemma trimSpace_Nil_iff: "trimSpace s = [] \<longleftrightarrow> (\<forall>c \<in> set s. is_space c)"
proof -
  have "set s \<subseteq> Collect is_space" if "\<forall>c\<in>set (dropWhile is_space s). is_space c"
  proof -
    have "dropWhile is_space s = []"
      using that by (metis hd_dropWhile hd_in_set)
    then show ?thesis by (auto simp: dropWhile_eq_Nil_conv)
  qed
  moreover have "\<forall>c\<in>set (dropWhile is_space s). is_space c" if "\<forall>c \<in> set s. is_space c"
    using that by (auto dest: set_dropWhileD)
  ultimately show ?thesis
    by (auto simp: trimSpace_def trimLeft_def dropWhile_eq_Nil_conv)
qed

lemma trimSpace_hd: "trimSpace s \<noteq> [] \<Longrightarrow> \<not> is_space (hd (trimSpace s))"
proof -
  assume ne: "trimSpace s \<noteq> []"
  let ?t = "dropWhile is_space s"
  obtain sp where sp: "?t = trimSpace s @ sp"
    by (metis rev_append rev_rev_ident takeWhile_dropWhile_id trimLeft_def trimSpace_def)
  with ne have "?t \<noteq> []" and "hd (trimSpace s) = hd ?t" by simp_all
  then show ?thesis by (simp add: hd_dropWhile)
qed

lemma trimSpace_last: "trimSpace s \<noteq> [] \<Longrightarrow> \<not> is_space (last (trimSpace s))"
  by (metis hd_dropWhile last_rev rev_is_Nil_conv rev_rev_ident trimSpace_def)

lemma trimSpace_id:
  assumes "s \<noteq> [] \<Longrightarrow> \<not> is_space (hd s)" and "s \<noteq> [] \<Longrightarrow> \<not> is_space (last s)"
  shows "trimSpace s = s"
proof (cases s rule: rev_cases)
  case Nil
  then show ?thesis by simp
next
  case (snoc ys y)
  then have "\<not> is_space (hd s)" using assms(1) by simp
  then have "trimLeft s = s"
    using snoc by (simp add: trimLeft_def dropWhile_eq_self_iff)
  with assms(2) snoc show ?thesis by (simp add: trimSpace_def)
qed

lemma trimSpace_idem [simp]: "trimSpace (trimSpace s) = trimSpace s"
  by (rule trimSpace_id) (auto dest: trimSpace_hd trimSpace_last)

lemma toLower_Nil [simp]: "toLower [] = []"
  by (simp add: toLower_def)

lemma toLower_eq_Nil [simp]: "toLower s = [] \<longleftrightarrow> s = []"
  by (simp add: toLower_def)

lemma toLower_append [simp]: "toLower (s @ t) = toLower s @ toLower t"
  by (simp add: toLower_def)

lemma dropWhile_space_map_lower:
  "dropWhile is_space (map lower_char s) = map lower_char (dropWhile is_space s)"
  by (induction s) auto

lemma trimSpace_toLower [gostr]: "trimSpace (toLower s) = toLower (trimSpace s)"
  by (simp add: trimSpace_def trimLeft_def toLower_def dropWhile_space_map_lower rev_map)

lemma lower_char_idem [simp]: "lower_char (lower_char c) = lower_char c"
proof (cases "is_upper c")
  case True
  then have b: "of_char c \<ge> (65::nat)" "of_char c \<le> (90::nat)"
    by (simp_all add: is_upper_def less_eq_char_def)
  then have "\<not> is_upper (lower_char c)"
    using True by (simp add: is_upper_def lower_char_def less_eq_char_def of_char_of)
  then show ?thesis by (simp add: lower_char_def)
next
  case False
  then show ?thesis by (simp add: lower_char_def)
qed

lemma toLower_idem [simp]: "toLower (toLower s) = toLower s"
  by (simp add: toLower_def)

text \<open>The normal form \<open>strings.ToLower(strings.TrimSpace(name))\<close> of every registry key.\<close>

definition normName :: "string \<Rightarrow> string" where
  "normName s = toLower (trimSpace s)"

lemma normName_idem [simp]: "normName (normName s) = normName s"
  by (simp add: normName_def gostr)

lemma normName_Nil_iff: "normName s = [] \<longleftrightarrow> trimSpace s = []"
  by (simp add: normName_def)

subsection \<open>Prefixes and splitting\<close>

lemma hasPrefix_append [simp]: "hasPrefix (p @ s) p"
  by (induction p) auto

lemma hasPrefix_iff: "hasPrefix s p \<longleftrightarrow> (\<exists>t. s = p @ t)"
  by (induction s p rule: hasPrefix.induct) auto

lemma trimPrefix_append [simp]: "trimPrefix (p @ s) p = s"
  by (simp add: trimPrefix_def)

lemma hasSuffix_append [simp]: "hasSuffix (s @ p) p"
  by (simp add: hasSuffix_def)

lemma trimSuffix_append [simp]: "trimSuffix (s @ p) p = s"
  by (simp add: trimSuffix_def)

lemma split_on_ne [simp]: "split_on sep s \<noteq> []"
  by (induction s) (auto split: list.splits)

lemma split_on_no_sep: "p \<in> set (split_on sep s) \<Longrightarrow> sep \<notin> set p"
proof (induction s arbitrary: p)
  case Nil
  then show ?case by simp
next
  case (Cons c s)
  obtain q qs where "split_on sep s = q # qs" by (cases "split_on sep s") auto
  with Cons show ?case by (auto split: if_splits)
qed

lemma join_split_on: "join [sep] (split_on sep s) = s"
proof (induction s)
  case Nil
  then show ?case by simp
next
  case (Cons c s)
  obtain q qs where "split_on sep s = q # qs" by (cases "split_on sep s") auto
  with Cons show ?case by (cases qs) auto
qed

lemma split_on_id: "sep \<notin> set s \<Longrightarrow> split_on sep s = [s]"
  by (induction s) auto

lemma split_on_append_sep:
  "sep \<notin> set a \<Longrightarrow> split_on sep (a @ sep # b) = a # split_on sep b"
  by (induction a) auto

subsection \<open>Decimal numerals\<close>

lemma digit_char_inj: "a < 10 \<Longrightarrow> b < 10 \<Longrightarrow> digit_char a = digit_char b \<Longrightarrow> a = b"
  by (auto simp: digit_char_def dest!: arg_cong [where f = "of_char :: char \<Rightarrow> nat"])

lemma nat_digits_ne [simp]: "nat_digits n \<noteq> []" "[] \<noteq> nat_digits n"
  by (subst nat_digits.simps, simp)+

lemma nat_digits_not_minus: "CHR ''-'' \<notin> set (nat_digits n)"
proof (induction n rule: nat_digits.induct)
  case (1 n)
  have d: "digit_char k \<noteq> CHR ''-''" if "k < 10" for k
    using that by (auto simp: digit_char_def dest!: arg_cong [where f = "of_char :: char \<Rightarrow> nat"])
  show ?case
    using 1 d [of n] d [of "n mod 10"] by (subst nat_digits.simps) (auto simp: eq_commute)
qed

lemma nat_digits_inj: "nat_digits a = nat_digits b \<Longrightarrow> a = b"
proof (induction a arbitrary: b rule: nat_digits.induct)
  case (1 a)
  show ?case
  proof (cases "a < 10")
    case a: True
    show ?thesis
    proof (cases "b < 10")
      case True
      with a 1(2) show ?thesis
        by (simp add: nat_digits.simps [of a] nat_digits.simps [of b] digit_char_inj)
    next
      case False
      with a 1(2) show ?thesis
        by (simp add: nat_digits.simps [of a] nat_digits.simps [of b])
    qed
  next
    case a: False
    show ?thesis
    proof (cases "b < 10")
      case True
      with a 1(2) show ?thesis
        by (simp add: nat_digits.simps [of a] nat_digits.simps [of b])
    next
      case False
      with a 1(2) have "nat_digits (a div 10) = nat_digits (b div 10)"
        and m: "a mod 10 = b mod 10"
        by (simp_all add: nat_digits.simps [of a] nat_digits.simps [of b] digit_char_inj)
      with 1(1) a have "a div 10 = b div 10" by blast
      with m show ?thesis by (metis div_mult_mod_eq)
    qed
  qed
qed

lemma itoa_inj: "itoa a = itoa b \<Longrightarrow> a = b"
proof -
  assume eq: "itoa a = itoa b"
  have minus: "nat_digits n \<noteq> CHR ''-'' # s" for n s
    using nat_digits_not_minus [of n] by auto
  show ?thesis
    using eq minus [symmetric] minus nat_digits_inj
    by (fastforce simp: itoa_def split: if_splits dest: nat_digits_inj)
qed

section \<open>Signed machine integers\<close>

text \<open>Two's complement reduction of an integer to \<open>n\<close> bits: Go's \<open>int32\<close> and \<open>int64\<close> arithmetic.\<close>

definition wrap :: "nat \<Rightarrow> int \<Rightarrow> int" where
  "wrap n x = (x + 2 ^ (n - 1)) mod 2 ^ n - 2 ^ (n - 1)"

definition wrap32 :: "int \<Rightarrow> int" where
  "wrap32 x = wrap 32 x"

definition wrap64 :: "int \<Rightarrow> int" where
  "wrap64 x = wrap 64 x"

lemma wrap_id:
  assumes "0 < n" and "- (2 ^ (n - 1)) \<le> x" and "x < 2 ^ (n - 1)"
  shows "wrap n x = x"
proof -
  have "(2::int) ^ n = 2 ^ (n - 1) + 2 ^ (n - 1)"
    using assms(1) by (cases n) simp_all
  with assms(2,3) have "(x + 2 ^ (n - 1)) mod 2 ^ n = x + 2 ^ (n - 1)" by simp
  then show ?thesis by (simp add: wrap_def)
qed

lemma wrap_range:
  assumes "0 < n"
  shows "- (2 ^ (n - 1)) \<le> wrap n x \<and> wrap n x < 2 ^ (n - 1)"
proof -
  have "(2::int) ^ n = 2 ^ (n - 1) + 2 ^ (n - 1)"
    using assms by (cases n) simp_all
  moreover have "(x + 2 ^ (n - 1)) mod 2 ^ n < 2 ^ n" and "0 \<le> (x + 2 ^ (n - 1)) mod 2 ^ n"
    by simp_all
  ultimately show ?thesis by (simp add: wrap_def)
qed

lemma wrap32_id: "- 2147483648 \<le> x \<Longrightarrow> x < 2147483648 \<Longrightarrow> wrap32 x = x"
  unfolding wrap32_def by (rule wrap_id) simp_all

lemma wrap32_range: "- 2147483648 \<le> wrap32 x \<and> wrap32 x < 2147483648"
  using wrap_range [of 32 x] by (simp add: wrap32_def)

lemma wrap64_id:
  "- 9223372036854775808 \<le> x \<Longrightarrow> x < 9223372036854775808 \<Longrightarrow> wrap64 x = x"
  unfolding wrap64_def by (rule wrap_id) simp_all

section \<open>Calls that may panic\<close>

datatype 'a outcome = Ret 'a | Panic string

section \<open>Go maps\<close>

text \<open>
  The contract of a Go map: what a lookup returns after a store or a delete, and the keys a
  range loop visits. Client lemmas (bulk stores and bulk deletes) are proved once here.
\<close>

locale go_map =
  fixes get :: "'m \<Rightarrow> 'k \<Rightarrow> 'v option"
    and put :: "'k \<Rightarrow> 'v \<Rightarrow> 'm \<Rightarrow> 'm"
    and del :: "'k \<Rightarrow> 'm \<Rightarrow> 'm"
    and keys :: "'m \<Rightarrow> 'k list"
    and wf :: "'m \<Rightarrow> bool"
  assumes get_put: "wf m \<Longrightarrow> get (put k v m) = (get m)(k \<mapsto> v)"
    and get_del: "wf m \<Longrightarrow> get (del k m) = (get m)(k := None)"
    and wf_put: "wf m \<Longrightarrow> wf (put k v m)"
    and wf_del: "wf m \<Longrightarrow> wf (del k m)"
    and set_keys: "wf m \<Longrightarrow> set (keys m) = dom (get m)"
    and distinct_keys: "wf m \<Longrightarrow> distinct (keys m)"
begin

lemma wf_fold_del: "wf m \<Longrightarrow> wf (fold del ks m)"
  by (induction ks arbitrary: m) (auto simp: wf_del)

lemma get_fold_del: "wf m \<Longrightarrow> get (fold del ks m) k = (if k \<in> set ks then None else get m k)"
  by (induction ks arbitrary: m) (auto simp: wf_del get_del)

lemma wf_fold_put: "wf m \<Longrightarrow> wf (fold (\<lambda>(k, v). put k v) kvs m)"
  by (induction kvs arbitrary: m) (auto simp: wf_put split: prod.splits)

lemma get_fold_put: "wf m \<Longrightarrow> get (fold (\<lambda>(k, v). put k v) kvs m) = get m ++ map_of (rev kvs)"
  by (induction kvs arbitrary: m) (auto simp: wf_put get_put map_add_def fun_eq_iff split: option.splits)

lemma put_keys: "wf m \<Longrightarrow> set (keys (put k v m)) = insert k (set (keys m))"
  by (auto simp: set_keys wf_put get_put)

end

type_synonym ('k, 'v) gomap = "('k \<times> 'v) list"

definition gm_wf :: "('k, 'v) gomap \<Rightarrow> bool" where
  "gm_wf m \<longleftrightarrow> distinct (map fst m)"

definition gm_keys :: "('k, 'v) gomap \<Rightarrow> 'k list" where
  "gm_keys m = map fst m"

interpretation gm: go_map "map_of :: ('k, 'v) gomap \<Rightarrow> 'k \<Rightarrow> 'v option"
  AList.update AList.delete gm_keys gm_wf
proof unfold_locales
  fix m :: "('k, 'v) gomap" and k v
  show "map_of (AList.update k v m) = (map_of m)(k \<mapsto> v)" by (rule update_conv')
  show "map_of (AList.delete k m) = (map_of m)(k := None)" by (rule delete_conv')
  assume wf: "gm_wf m"
  show "gm_wf (AList.update k v m)" using wf by (simp add: gm_wf_def distinct_update)
  show "gm_wf (AList.delete k m)" using wf by (simp add: gm_wf_def distinct_delete)
  show "set (gm_keys m) = dom (map_of m)" by (simp add: gm_keys_def dom_map_of_conv_image_fst)
  show "distinct (gm_keys m)" using wf by (simp add: gm_wf_def gm_keys_def)
qed

lemma gm_wf_Nil [simp]: "gm_wf []"
  by (simp add: gm_wf_def)

lemma gm_wf_update [simp, intro]: "gm_wf m \<Longrightarrow> gm_wf (AList.update k v m)"
  by (rule gm.wf_put)

lemma gm_wf_delete [simp, intro]: "gm_wf m \<Longrightarrow> gm_wf (AList.delete k m)"
  by (rule gm.wf_del)

lemma gm_get_update [gomap]: "map_of (AList.update k v m) q = (if q = k then Some v else map_of m q)"
  by (simp add: update_conv')

lemma gm_get_delete [gomap]: "map_of (AList.delete k m) q = (if q = k then None else map_of m q)"
  by (simp add: delete_conv')

lemma set_update_subset: "set (AList.update k v m) \<subseteq> insert (k, v) (set m)"
  by (induction m) auto

lemma set_delete_subset: "set (AList.delete k m) \<subseteq> set m"
  by (auto simp: AList.delete_eq)

text \<open>A registry keyed by a normal form: any spelling with the same normal form finds the entry.\<close>

locale name_registry = go_map get put del keys wf
  for get :: "'m \<Rightarrow> 'k \<Rightarrow> 'v option" and put del keys wf +
  fixes norm :: "'n \<Rightarrow> 'k"
begin

lemma lookup_same: "wf m \<Longrightarrow> norm a = norm b \<Longrightarrow> get (put (norm a) v m) (norm b) = Some v"
  by (simp add: get_put)

lemma lookup_other: "wf m \<Longrightarrow> norm a \<noteq> norm b \<Longrightarrow> get (put (norm a) v m) (norm b) = get m (norm b)"
  by (simp add: get_put)

lemma bulk_lookup:
  assumes "wf m" and "distinct (map (norm \<circ> fst) nvs)" and "(a, v) \<in> set nvs" and "norm a = norm b"
  shows "get (fold (\<lambda>(n, v). put (norm n) v) nvs m) (norm b) = Some v"
proof -
  let ?kvs = "map (\<lambda>(n, v). (norm n, v)) nvs"
  have f: "fold (\<lambda>(n, v). put (norm n) v) nvs m = fold (\<lambda>(k, v). put k v) ?kvs m"
    by (simp add: fold_map comp_def case_prod_beta')
  have d: "distinct (map fst ?kvs)"
    using assms(2) by (simp add: comp_def case_prod_beta')
  have "(norm b, v) \<in> set ?kvs" using assms(3,4) by force
  with d have "map_of (rev ?kvs) (norm b) = Some v"
    by (simp add: map_of_eq_Some_iff rev_map [symmetric])
  then show ?thesis using assms(1) by (simp add: f get_fold_put del: fold_map)
qed

end

section \<open>Transition systems\<close>

text \<open>
  A component whose operations interleave is a step relation with an inductive invariant; the
  invariant then holds in every state a run from an initial state can reach.
\<close>

locale machine =
  fixes init :: "'s \<Rightarrow> bool"
    and step :: "'s \<Rightarrow> 's \<Rightarrow> bool"
    and inv :: "'s \<Rightarrow> bool"
  assumes inv_init: "init s \<Longrightarrow> inv s"
    and inv_step: "inv s \<Longrightarrow> step s t \<Longrightarrow> inv t"
begin

lemma inv_run: "inv s \<Longrightarrow> step\<^sup>*\<^sup>* s t \<Longrightarrow> inv t"
  by (rotate_tac, induction rule: rtranclp_induct) (auto intro: inv_step)

lemma inv_reachable: "init s \<Longrightarrow> step\<^sup>*\<^sup>* s t \<Longrightarrow> inv t"
  by (blast intro: inv_init inv_run)

end

end
