(* ===== verification/SF_Float.thy ===== *)
theory SF_Float
  imports SF_Prelude Complex_Main "HOL-Library.Log_Nat"
begin

text \<open>
  Go's \<open>float64\<close> as far as the sources use it: the values read from configuration and from
  JSON, comparison, the conversion of an integer and the quotient of two converted integers.
  A finite value is kept as the rational number it denotes; conversion and division round to
  53 significant bits, ties to even. The quotients the circuit breaker forms are 0 or lie
  between \<open>2\<^sup>-\<^sup>6\<^sup>3\<close> and \<open>2\<^sup>6\<^sup>3\<close>, where a \<open>float64\<close> is never subnormal and never overflows.
\<close>

datatype float64 = Fin rat | PosInf | NegInf | NaN

fun fle :: "float64 \<Rightarrow> float64 \<Rightarrow> bool" where
  "fle (Fin a) (Fin b) = (a \<le> b)"
| "fle NaN b = False"
| "fle a NaN = False"
| "fle NegInf b = True"
| "fle a PosInf = True"
| "fle PosInf b = False"
| "fle a NegInf = False"

lemma fle_trans: "fle a b \<Longrightarrow> fle b c \<Longrightarrow> fle a c"
  by (cases a; cases b; cases c) auto

section \<open>Rounding\<close>

text \<open>Round to the nearest integer, ties to even.\<close>

definition rne :: "rat \<Rightarrow> int" where
  "rne x =
     (let n = \<lfloor>x\<rfloor>; r = x - of_int n
      in if r < 1 / 2 then n
         else if 1 / 2 < r then n + 1
         else if even n then n else n + 1)"

text \<open>The binary exponent of a positive rational: \<open>2 powi binade q \<le> q < 2 powi (binade q + 1)\<close>.\<close>

definition binade :: "rat \<Rightarrow> int" where
  "binade q =
     (let (n, d) = quotient_of q; e = bitlen n - bitlen d
      in if 2 powi e \<le> q then e else e - 1)"

definition fl_pos :: "rat \<Rightarrow> rat" where
  "fl_pos q = (let u = 2 powi (binade q - 52) in of_int (rne (q / u)) * u)"

definition fl53 :: "rat \<Rightarrow> rat" where
  "fl53 q = (if q = 0 then 0 else if q < 0 then - fl_pos (- q) else fl_pos q)"

text \<open>\<open>float64(a) / float64(b)\<close> for Go integers \<open>a\<close> and \<open>b\<close>.\<close>

definition float_ratio :: "int \<Rightarrow> int \<Rightarrow> float64" where
  "float_ratio a b =
     (let x = fl53 (of_int a); y = fl53 (of_int b)
      in if y = 0 then (if x = 0 then NaN else if 0 < x then PosInf else NegInf)
         else Fin (fl53 (x / y)))"

lemma rne_cases: "rne x = \<lfloor>x\<rfloor> \<or> rne x = \<lfloor>x\<rfloor> + 1"
  by (simp add: rne_def Let_def)

lemma rne_of_int [simp]: "rne (of_int n) = n"
  by (simp add: rne_def)

lemma rne_mono: "x \<le> y \<Longrightarrow> rne x \<le> rne y"
proof -
  assume le: "x \<le> y"
  then have f: "\<lfloor>x\<rfloor> \<le> \<lfloor>y\<rfloor>" by (rule floor_mono)
  show ?thesis
  proof (cases "\<lfloor>x\<rfloor> = \<lfloor>y\<rfloor>")
    case True
    with le show ?thesis by (auto simp: rne_def Let_def)
  next
    case False
    with f rne_cases [of x] rne_cases [of y] show ?thesis by linarith
  qed
qed

lemma bitlen_int_bounds:
  assumes "0 < n"
  shows "2 powi (bitlen n - 1) \<le> (of_int n :: rat)" and "(of_int n :: rat) < 2 powi bitlen n"
proof -
  have b: "2 ^ nat (bitlen n - 1) \<le> n \<and> n < 2 ^ nat (bitlen n)"
    using assms by (rule bitlen_bounds)
  have pos: "0 < bitlen n" using assms bitlen_eq_zero_iff [of n] bitlen_nonneg [of n] by linarith
  have "(of_int (2 ^ nat (bitlen n - 1)) :: rat) \<le> of_int n"
    and "(of_int n :: rat) < of_int (2 ^ nat (bitlen n))"
    using b by (auto simp only: of_int_le_iff of_int_less_iff)
  then show "2 powi (bitlen n - 1) \<le> (of_int n :: rat)" and "(of_int n :: rat) < 2 powi bitlen n"
    using pos by (simp_all add: power_int_def)
qed

lemma binade_bounds:
  assumes "0 < q"
  shows "2 powi binade q \<le> q" and "q < 2 powi (binade q + 1)"
proof -
  obtain n d where nd: "quotient_of q = (n, d)" by (cases "quotient_of q")
  have d: "0 < d" using nd by (rule quotient_of_denom_pos)
  have q: "q = of_int n / of_int d" using nd by (rule quotient_of_div)
  have n: "0 < n" using assms d q by (simp add: zero_less_divide_iff)
  let ?a = "bitlen n" and ?b = "bitlen d"
  have lo: "2 powi (?a - ?b - 1) \<le> q"
  proof -
    have "2 powi (?a - ?b - 1) * of_int d \<le> 2 powi (?a - ?b - 1) * (2 powi ?b :: rat)"
      using bitlen_int_bounds(2) [OF d] by (intro mult_left_mono) auto
    also have "\<dots> = 2 powi (?a - 1)" by (simp add: power_int_add [symmetric])
    also have "\<dots> \<le> of_int n" using bitlen_int_bounds(1) [OF n] .
    finally show ?thesis using d by (simp add: q le_divide_eq)
  qed
  have hi: "q < 2 powi (?a - ?b + 1)"
  proof -
    have "of_int n < (2 powi ?a :: rat)" using bitlen_int_bounds(2) [OF n] .
    also have "\<dots> = 2 powi (?a - ?b + 1) * 2 powi (?b - 1)"
      by (simp add: power_int_add [symmetric])
    also have "\<dots> \<le> 2 powi (?a - ?b + 1) * of_int d"
      using bitlen_int_bounds(1) [OF d] by (intro mult_left_mono) auto
    finally show ?thesis using d by (simp add: q divide_less_eq)
  qed
  show "2 powi binade q \<le> q" and "q < 2 powi (binade q + 1)"
    using lo hi by (auto simp: binade_def nd Let_def)
qed

lemma binade_mono:
  assumes "0 < p" and "p \<le> q"
  shows "binade p \<le> binade q"
proof (rule ccontr)
  assume "\<not> binade p \<le> binade q"
  then have "2 powi (binade q + 1) \<le> (2 powi binade p :: rat)"
    by (intro power_int_increasing) auto
  also have "\<dots> \<le> p" using assms(1) by (rule binade_bounds)
  finally show False using binade_bounds(2) [of q] assms by simp
qed

lemma fl_pos_bounds:
  assumes "0 < q"
  shows "2 powi binade q \<le> fl_pos q" and "fl_pos q \<le> 2 powi (binade q + 1)"
proof -
  let ?u = "2 powi (binade q - 52) :: rat"
  have u: "0 < ?u" by simp
  have "of_int (2 ^ 52) * ?u = 2 powi binade q" and "of_int (2 ^ 53) * ?u = 2 powi (binade q + 1)"
    by (simp_all add: power_int_diff power_int_add)
  with binade_bounds [OF assms] have "of_int (2 ^ 52) \<le> q / ?u" and "q / ?u \<le> of_int (2 ^ 53)"
    by (simp_all add: le_divide_eq divide_le_eq)
  then have "2 ^ 52 \<le> rne (q / ?u)" and "rne (q / ?u) \<le> 2 ^ 53"
    using rne_mono [of "of_int (2 ^ 52)" "q / ?u"] rne_mono [of "q / ?u" "of_int (2 ^ 53)"]
    by (simp_all only: rne_of_int)
  then have "of_int (2 ^ 52) * ?u \<le> of_int (rne (q / ?u)) * ?u"
    and "of_int (rne (q / ?u)) * ?u \<le> of_int (2 ^ 53) * ?u"
    using u by (intro mult_right_mono; simp only: of_int_le_iff; simp)+
  with \<open>of_int (2 ^ 52) * ?u = _\<close> \<open>of_int (2 ^ 53) * ?u = _\<close>
  show "2 powi binade q \<le> fl_pos q" and "fl_pos q \<le> 2 powi (binade q + 1)"
    by (simp_all add: fl_pos_def Let_def)
qed

lemma fl_pos_mono:
  assumes "0 < p" and "p \<le> q"
  shows "fl_pos p \<le> fl_pos q"
proof (cases "binade p = binade q")
  case True
  let ?u = "2 powi (binade q - 52) :: rat"
  have "p / ?u \<le> q / ?u" using assms by (simp add: divide_right_mono)
  then have "rne (p / ?u) \<le> rne (q / ?u)" by (rule rne_mono)
  then show ?thesis using True by (simp add: fl_pos_def Let_def)
next
  case False
  with binade_mono [OF assms] have lt: "binade p + 1 \<le> binade q" by simp
  have "fl_pos p \<le> 2 powi (binade p + 1)" using assms(1) by (rule fl_pos_bounds)
  also have "\<dots> \<le> 2 powi binade q" using lt by (intro power_int_increasing) auto
  also have "\<dots> \<le> fl_pos q" using assms by (intro fl_pos_bounds) simp
  finally show ?thesis .
qed

lemma fl_pos_gt0: "0 < q \<Longrightarrow> 0 < fl_pos q"
  using fl_pos_bounds(1) [of q] by (meson less_le_trans zero_less_numeral zero_less_power_int)

lemma fl53_zero [simp]: "fl53 0 = 0"
  by (simp add: fl53_def)

lemma fl53_gt0: "0 < q \<Longrightarrow> 0 < fl53 q"
  by (simp add: fl53_def fl_pos_gt0)

lemma fl53_mono: "0 \<le> p \<Longrightarrow> p \<le> q \<Longrightarrow> fl53 p \<le> fl53 q"
  using fl_pos_mono [of p q] fl_pos_gt0 [of q] by (auto simp: fl53_def)

lemma fl53_one [simp]: "fl53 1 = 1"
proof -
  have "binade 1 = 0" by (simp add: binade_def bitlen_def floorlog_def)
  moreover have "rne (4503599627370496 :: rat) = 4503599627370496"
    using rne_of_int [of 4503599627370496] by simp
  ultimately show ?thesis
    by (simp add: fl53_def fl_pos_def Let_def power_int_def power_one_over)
qed

text \<open>Integers of at most 53 bits are converted exactly.\<close>

lemma fl53_int:
  assumes "0 \<le> n" and "n < 2 ^ 53"
  shows "fl53 (of_int n) = of_int n"
proof (cases "n = 0")
  case False
  let ?e = "binade (of_int n)"
  have pos: "(0 :: rat) < of_int n" using False assms(1) by simp
  have "(2 :: rat) powi ?e \<le> of_int n" using binade_bounds [OF pos] by simp
  also have "(of_int n :: rat) < 2 powi 53" using assms(2) by (simp add: power_int_def)
  finally have "(2 :: rat) powi ?e < 2 powi 53" .
  then have "?e < 53"
    using power_int_increasing [of 53 ?e "2 :: rat"] by (meson leD leI one_le_numeral)
  then obtain k where k: "52 - ?e = int k" using zero_le_imp_eq_int [of "52 - ?e"] by auto
  have "of_int n / (2 powi (?e - 52)) = (of_int n :: rat) * 2 powi (52 - ?e)"
    by (metis divide_inverse minus_diff_eq power_int_minus)
  also have "\<dots> = of_int (n * 2 ^ k)" by (simp add: k power_int_def)
  finally have q: "of_int n / (2 powi (?e - 52)) = (of_int (n * 2 ^ k) :: rat)" .
  then have "fl_pos (of_int n) = of_int (n * 2 ^ k) * 2 powi (?e - 52)"
    by (simp only: fl_pos_def Let_def rne_of_int)
  also have "\<dots> = (of_int n / (2 powi (?e - 52))) * 2 powi (?e - 52)" by (simp only: q)
  also have "\<dots> = of_int n" by simp
  finally show ?thesis using pos by (simp add: fl53_def)
qed simp

text \<open>A threshold that is itself a \<open>float64\<close> and lies below the exact quotient is not above the rounded one.\<close>

lemma float_ratio_exceeds:
  assumes "0 \<le> t" and "fl53 t = t" and "0 \<le> f" and "f < 2 ^ 53" and "0 < r" and "r < 2 ^ 53"
    and "t < of_int f / of_int r"
  shows "fle (Fin t) (float_ratio f r)"
proof -
  have "t \<le> fl53 (of_int f / of_int r)"
    using fl53_mono [of t "of_int f / of_int r"] assms(1,2,7) by simp
  then show ?thesis
    using assms(3-6) by (simp add: float_ratio_def Let_def fl53_int)
qed

section \<open>What the breaker relies on\<close>

text \<open>
  The laws of the failure ratio: no failures give 0, all failures give 1, and for a fixed
  number of requests more failures never give a smaller ratio.
\<close>

locale failure_fraction =
  fixes ratio :: "int \<Rightarrow> int \<Rightarrow> float64"
  assumes ratio_none: "0 < r \<Longrightarrow> ratio 0 r = Fin 0"
    and ratio_all: "0 < r \<Longrightarrow> ratio r r = Fin 1"
    and ratio_mono: "0 < r \<Longrightarrow> 0 \<le> f \<Longrightarrow> f \<le> g \<Longrightarrow> fle (ratio f r) (ratio g r)"
begin

lemma threshold_mono:
  "0 < r \<Longrightarrow> 0 \<le> f \<Longrightarrow> f \<le> g \<Longrightarrow> fle t (ratio f r) \<Longrightarrow> fle t (ratio g r)"
  using ratio_mono fle_trans by blast

lemma threshold_all: "0 < r \<Longrightarrow> fle t (ratio r r) \<longleftrightarrow> fle t (Fin 1)"
  by (simp add: ratio_all)

lemma threshold_none: "0 < r \<Longrightarrow> \<not> fle t (Fin 0) \<Longrightarrow> \<not> fle t (ratio 0 r)"
  by (simp add: ratio_none)

lemma ratio_le_one: "0 < r \<Longrightarrow> 0 \<le> f \<Longrightarrow> f \<le> r \<Longrightarrow> fle (ratio f r) (Fin 1)"
  using ratio_mono [of r f r] by (simp add: ratio_all)

end

interpretation fr: failure_fraction float_ratio
proof unfold_locales
  fix r :: int
  assume r: "0 < r"
  then have y: "0 < fl53 (of_int r)" by (simp add: fl53_gt0)
  show "float_ratio 0 r = Fin 0" using y by (simp add: float_ratio_def Let_def)
  show "float_ratio r r = Fin 1" using y by (simp add: float_ratio_def Let_def)
  fix f g :: int
  assume "0 \<le> f" "f \<le> g"
  then have "0 \<le> fl53 (of_int f)" and le: "fl53 (of_int f) \<le> fl53 (of_int g)"
    using fl53_mono [of 0 "of_int f"] by (auto intro: fl53_mono)
  with y have "fl53 (fl53 (of_int f) / fl53 (of_int r)) \<le> fl53 (fl53 (of_int g) / fl53 (of_int r))"
    by (intro fl53_mono [OF divide_nonneg_pos] divide_right_mono) simp_all
  with y show "fle (float_ratio f r) (float_ratio g r)" by (simp add: float_ratio_def Let_def)
qed

end
