(* ===== verification/SF_Errors.thy ===== *)
theory SF_Errors
  imports SF_Float
begin

text \<open>
  Package \<open>core/errors\<close>: framework codes, \<open>AppError\<close>, the code tables, the translation to and
  from gRPC status errors, and the response envelope. Dynamic values (Go's \<open>any\<close>) and error
  values are declared here because every other component uses them.

  The package \<open>google.golang.org/grpc/status\<close> is not part of the sources: its functions
  \<open>Error\<close> and \<open>FromError\<close> are the fields \<open>status_Error\<close> and \<open>status_FromError\<close> of the record
  \<open>errors_pkg\<close>, and \<open>status_doc\<close> states what their documentation promises.
\<close>

section \<open>Dynamic values and errors\<close>

text \<open>
  A value of type \<open>any\<close> by its dynamic type. \<open>AMapClaims\<close> is \<open>jwt.MapClaims\<close>, \<open>ANumber\<close> is
  \<open>json.Number\<close>, \<open>ADuration\<close> is \<open>time.Duration\<close>, \<open>AAnyMap\<close> is \<open>map[any]any\<close>; any other type is \<open>AOther\<close> with its name.
  The list of a map is the order in which a range loop happens to visit it.
\<close>

datatype any =
    ANil
  | AString string
  | ABool bool
  | AInt int
  | AInt64 int
  | ADuration int
  | AFloat64 float64
  | ANumber string
  | AStrings "string list"
  | AList "any list"
  | AMap "(string \<times> any) list"
  | AMapClaims "(string \<times> any) list"
  | AAnyMap "(any \<times> any) list"
  | AOther string

text \<open>The canonical gRPC codes (\<open>google.golang.org/grpc/codes\<close>).\<close>

datatype grpc_code =
    GOK | GCanceled | GUnknown | GInvalidArgument | GDeadlineExceeded | GNotFound
  | GAlreadyExists | GPermissionDenied | GResourceExhausted | GFailedPrecondition | GAborted
  | GOutOfRange | GUnimplemented | GInternal | GUnavailable | GDataLoss | GUnauthenticated

type_synonym code = string

text \<open>
  Error values by their dynamic type: \<open>*AppError\<close> with its fields, an error of the gRPC status
  package (code, message, text), an error made by \<open>errors.New\<close> or \<open>fmt.Errorf\<close>, a package-level
  sentinel compared by identity, \<open>fmt.Errorf\<close> with \<open>%w\<close>, and a WebSocket close error.
\<close>

datatype go_error =
    AppError (ae_Code: code) (ae_Message: string) (ae_Details: "(string \<times> any) list option")
      (ae_Cause: "go_error option") (ae_HTTPStatus: int) (ae_GRPCCode: grpc_code)
  | StatusError grpc_code string string
  | PlainError string
  | Sentinel string
  | WrapError string go_error
  | CloseError int string

type_synonym 'a result = "go_error + 'a"

section \<open>Codes and tables\<close>

definition CodeOK :: code where "CodeOK = ''OK''"
definition CodeInvalidArgument :: code where "CodeInvalidArgument = ''INVALID_ARGUMENT''"
definition CodeUnauthenticated :: code where "CodeUnauthenticated = ''UNAUTHENTICATED''"
definition CodePermissionDenied :: code where "CodePermissionDenied = ''PERMISSION_DENIED''"
definition CodeNotFound :: code where "CodeNotFound = ''NOT_FOUND''"
definition CodeConflict :: code where "CodeConflict = ''CONFLICT''"
definition CodeRateLimited :: code where "CodeRateLimited = ''RATE_LIMITED''"
definition CodeUnavailable :: code where "CodeUnavailable = ''UNAVAILABLE''"
definition CodeDeadlineExceeded :: code where "CodeDeadlineExceeded = ''DEADLINE_EXCEEDED''"
definition CodeFailedPrecondition :: code where "CodeFailedPrecondition = ''FAILED_PRECONDITION''"
definition CodeInternal :: code where "CodeInternal = ''INTERNAL''"

lemmas code_defs =
  CodeOK_def CodeInvalidArgument_def CodeUnauthenticated_def CodePermissionDenied_def
  CodeNotFound_def CodeConflict_def CodeRateLimited_def CodeUnavailable_def
  CodeDeadlineExceeded_def CodeFailedPrecondition_def CodeInternal_def

text \<open>The initial contents of the package variables \<open>httpMap\<close> and \<open>grpcMap\<close>.\<close>

definition httpMap0 :: "(code, int) gomap" where
  "httpMap0 =
     [(CodeOK, 200), (CodeInvalidArgument, 400), (CodeUnauthenticated, 401),
      (CodePermissionDenied, 403), (CodeNotFound, 404), (CodeConflict, 409),
      (CodeRateLimited, 429), (CodeUnavailable, 503), (CodeDeadlineExceeded, 504),
      (CodeFailedPrecondition, 412), (CodeInternal, 500)]"

definition grpcMap0 :: "(code, grpc_code) gomap" where
  "grpcMap0 =
     [(CodeOK, GOK), (CodeInvalidArgument, GInvalidArgument),
      (CodeUnauthenticated, GUnauthenticated), (CodePermissionDenied, GPermissionDenied),
      (CodeNotFound, GNotFound), (CodeConflict, GAlreadyExists),
      (CodeRateLimited, GResourceExhausted), (CodeUnavailable, GUnavailable),
      (CodeDeadlineExceeded, GDeadlineExceeded), (CodeFailedPrecondition, GFailedPrecondition),
      (CodeInternal, GInternal)]"

record errors_pkg =
  httpMap :: "(code, int) gomap"
  grpcMap :: "(code, grpc_code) gomap"
  status_Error :: "grpc_code \<Rightarrow> string \<Rightarrow> go_error option"
  status_FromError :: "go_error \<Rightarrow> (grpc_code \<times> string) option"

definition errors_init ::
  "(grpc_code \<Rightarrow> string \<Rightarrow> go_error option) \<Rightarrow> (go_error \<Rightarrow> (grpc_code \<times> string) option) \<Rightarrow> errors_pkg" where
  "errors_init se fe =
     \<lparr>httpMap = httpMap0, grpcMap = grpcMap0, status_Error = se, status_FromError = fe\<rparr>"

definition RegisterHTTPStatus :: "code \<Rightarrow> int \<Rightarrow> errors_pkg \<Rightarrow> errors_pkg" where
  "RegisterHTTPStatus c st E = E\<lparr>httpMap := AList.update c st (httpMap E)\<rparr>"

definition RegisterGRPCCode :: "code \<Rightarrow> grpc_code \<Rightarrow> errors_pkg \<Rightarrow> errors_pkg" where
  "RegisterGRPCCode c g E = E\<lparr>grpcMap := AList.update c g (grpcMap E)\<rparr>"

definition HTTPStatus :: "errors_pkg \<Rightarrow> code \<Rightarrow> int" where
  "HTTPStatus E c = (case map_of (httpMap E) c of Some st \<Rightarrow> st | None \<Rightarrow> 500)"

definition GRPCCode :: "errors_pkg \<Rightarrow> code \<Rightarrow> grpc_code" where
  "GRPCCode E c = (case map_of (grpcMap E) c of Some g \<Rightarrow> g | None \<Rightarrow> GInternal)"

section \<open>Construction\<close>

definition New :: "errors_pkg \<Rightarrow> code \<Rightarrow> string \<Rightarrow> go_error" where
  "New E c msg = AppError c msg None None (HTTPStatus E c) (GRPCCode E c)"

fun WithCause :: "go_error \<Rightarrow> go_error \<Rightarrow> go_error" where
  "WithCause (AppError c m d _ h g) err = AppError c m d (Some err) h g"
| "WithCause e err = e"

fun WithDetails :: "go_error \<Rightarrow> string \<Rightarrow> any \<Rightarrow> go_error" where
  "WithDetails (AppError c m d ca h g) k v =
     AppError c m (Some (AList.update k v (case d of None \<Rightarrow> [] | Some kvs \<Rightarrow> kvs))) ca h g"
| "WithDetails e k v = e"

definition Wrap :: "errors_pkg \<Rightarrow> go_error option \<Rightarrow> code \<Rightarrow> string \<Rightarrow> go_error option" where
  "Wrap E err c msg = (case err of None \<Rightarrow> None | Some e \<Rightarrow> Some (WithCause (New E c msg) e))"

text \<open>The method \<open>Error() string\<close> of each dynamic type.\<close>

fun Error :: "go_error \<Rightarrow> string" where
  "Error (AppError c m _ (Some cause) _ _) = c @ '': '' @ m @ '': '' @ Error cause"
| "Error (AppError c m _ None _ _) = c @ '': '' @ m"
| "Error (StatusError _ _ txt) = txt"
| "Error (PlainError txt) = txt"
| "Error (Sentinel txt) = txt"
| "Error (WrapError txt _) = txt"
| "Error (CloseError _ txt) = txt"

fun Unwrap :: "go_error \<Rightarrow> go_error option" where
  "Unwrap (AppError _ _ _ cause _ _) = cause"
| "Unwrap (WrapError _ e) = Some e"
| "Unwrap _ = None"

text \<open>\<open>errors.Is\<close> against a sentinel: follow \<open>Unwrap\<close> until the sentinel itself is met.\<close>

fun errors_Is :: "go_error \<Rightarrow> string \<Rightarrow> bool" where
  "errors_Is (Sentinel s) t = (s = t)"
| "errors_Is (WrapError _ e) t = errors_Is e t"
| "errors_Is (AppError _ _ _ (Some e) _ _) t = errors_Is e t"
| "errors_Is _ t = False"

section \<open>gRPC translation\<close>

definition ToGRPCError :: "errors_pkg \<Rightarrow> go_error option \<Rightarrow> go_error option" where
  "ToGRPCError E err =
     (case err of
        None \<Rightarrow> None
      | Some (AppError _ m _ _ _ g) \<Rightarrow> status_Error E g m
      | Some e \<Rightarrow> status_Error E GInternal (Error e))"

definition code_of_grpc :: "grpc_code \<Rightarrow> code" where
  "code_of_grpc g =
     (case g of
        GInvalidArgument \<Rightarrow> CodeInvalidArgument
      | GUnauthenticated \<Rightarrow> CodeUnauthenticated
      | GPermissionDenied \<Rightarrow> CodePermissionDenied
      | GNotFound \<Rightarrow> CodeNotFound
      | GAlreadyExists \<Rightarrow> CodeConflict
      | GResourceExhausted \<Rightarrow> CodeRateLimited
      | GUnavailable \<Rightarrow> CodeUnavailable
      | GDeadlineExceeded \<Rightarrow> CodeDeadlineExceeded
      | GFailedPrecondition \<Rightarrow> CodeFailedPrecondition
      | _ \<Rightarrow> CodeInternal)"

definition FromGRPCError :: "errors_pkg \<Rightarrow> go_error option \<Rightarrow> go_error option" where
  "FromGRPCError E err =
     (case err of
        None \<Rightarrow> None
      | Some e \<Rightarrow>
          (case status_FromError E e of
             None \<Rightarrow> Some (New E CodeInternal (Error e))
           | Some (g, m) \<Rightarrow> Some (New E (code_of_grpc g) m)))"

section \<open>Response envelope\<close>

record response =
  r_Code :: code
  r_Message :: string
  r_Data :: any
  r_Details :: "(string \<times> any) list option"
  r_Timestamp :: int

definition Success :: "int \<Rightarrow> any \<Rightarrow> response" where
  "Success now data =
     \<lparr>r_Code = CodeOK, r_Message = ''ok'', r_Data = data, r_Details = None, r_Timestamp = now\<rparr>"

definition Failure :: "errors_pkg \<Rightarrow> int \<Rightarrow> go_error \<Rightarrow> response" where
  "Failure E now err =
     (let ae = (case err of AppError _ _ _ _ _ _ \<Rightarrow> err | _ \<Rightarrow> New E CodeInternal (Error err))
      in \<lparr>r_Code = ae_Code ae, r_Message = ae_Message ae, r_Data = ANil,
          r_Details = ae_Details ae, r_Timestamp = now\<rparr>)"

section \<open>Lemmas\<close>

text \<open>
  What the documentation of the gRPC status package promises: \<open>Error\<close> returns nil for the code
  OK and otherwise an error from which \<open>FromError\<close> recovers the code and the message.
\<close>

definition status_doc :: "errors_pkg \<Rightarrow> bool" where
  "status_doc E \<longleftrightarrow>
     (\<forall>m. status_Error E GOK m = None) \<and>
     (\<forall>g m. g \<noteq> GOK \<longrightarrow>
        (\<exists>e. status_Error E g m = Some e \<and> status_FromError E e = Some (g, m)))"

text \<open>A status package that fits the documentation, used by the concrete instances.\<close>

definition plain_status_Error :: "grpc_code \<Rightarrow> string \<Rightarrow> go_error option" where
  "plain_status_Error g m = (if g = GOK then None else Some (StatusError g m m))"

fun plain_status_FromError :: "go_error \<Rightarrow> (grpc_code \<times> string) option" where
  "plain_status_FromError (StatusError g m _) = Some (g, m)"
| "plain_status_FromError _ = None"

abbreviation E0 :: errors_pkg where
  "E0 \<equiv> errors_init plain_status_Error plain_status_FromError"

lemma status_doc_E0: "status_doc E0"
  by (auto simp: status_doc_def errors_init_def plain_status_Error_def)

definition framework_codes :: "code list" where
  "framework_codes =
     [CodeOK, CodeInvalidArgument, CodeUnauthenticated, CodePermissionDenied, CodeNotFound,
      CodeConflict, CodeRateLimited, CodeUnavailable, CodeDeadlineExceeded,
      CodeFailedPrecondition, CodeInternal]"

lemma New_sel [simp]:
  "ae_Code (New E c m) = c" "ae_Message (New E c m) = m" "ae_Details (New E c m) = None"
  "ae_Cause (New E c m) = None" "ae_HTTPStatus (New E c m) = HTTPStatus E c"
  "ae_GRPCCode (New E c m) = GRPCCode E c"
  by (simp_all add: New_def)

lemma WithCause_sel [simp]:
  "ae_Code (WithCause (New E c m) e) = c" "ae_Message (WithCause (New E c m) e) = m"
  "ae_HTTPStatus (WithCause (New E c m) e) = HTTPStatus E c"
  by (simp_all add: New_def)

lemma grpc_table_inverse:
  "c \<in> set framework_codes \<Longrightarrow> c \<noteq> CodeOK \<Longrightarrow>
   code_of_grpc (GRPCCode (errors_init se fe) c) = c \<and> GRPCCode (errors_init se fe) c \<noteq> GOK"
  by (auto simp: framework_codes_def GRPCCode_def errors_init_def grpcMap0_def code_of_grpc_def
      code_defs)

lemma code_of_grpc_range: "code_of_grpc g \<in> set framework_codes - {CodeOK}"
  by (cases g) (simp_all add: code_of_grpc_def framework_codes_def code_defs)

lemma http_error_range:
  "c \<noteq> CodeOK \<Longrightarrow> 400 \<le> HTTPStatus (errors_init se fe) c \<and> HTTPStatus (errors_init se fe) c < 600"
  by (auto simp: HTTPStatus_def errors_init_def httpMap0_def)

lemma FromGRPCError_AppError:
  "\<exists>c m. FromGRPCError E (Some e) = Some (New E c m) \<and> c \<in> set framework_codes - {CodeOK}"
proof (cases "status_FromError E e")
  case None
  have "CodeInternal \<in> set framework_codes - {CodeOK}"
    by (simp add: framework_codes_def code_defs)
  with None show ?thesis by (auto simp: FromGRPCError_def)
next
  case (Some gm)
  with code_of_grpc_range [of "fst gm"] show ?thesis
    by (auto simp: FromGRPCError_def split: prod.splits)
qed

lemma grpc_carries_error:
  assumes "status_doc (errors_init se fe)" and "c \<in> set framework_codes" and "c \<noteq> CodeOK"
  shows "\<exists>e. ToGRPCError (errors_init se fe) (Some (New (errors_init se fe) c m)) = Some e \<and>
           status_Error (errors_init se fe) (GRPCCode (errors_init se fe) c) m = Some e \<and>
           FromGRPCError (errors_init se fe) (Some e) = Some (New (errors_init se fe) c m)"
proof -
  let ?E = "errors_init se fe"
  from grpc_table_inverse [OF assms(2,3)] have g: "code_of_grpc (GRPCCode ?E c) = c"
    and "GRPCCode ?E c \<noteq> GOK" by blast+
  with assms(1) obtain e where "status_Error ?E (GRPCCode ?E c) m = Some e"
    and "status_FromError ?E e = Some (GRPCCode ?E c, m)"
    unfolding status_doc_def by blast
  with g show ?thesis by (simp add: FromGRPCError_def ToGRPCError_def New_def)
qed

section \<open>Properties\<close>

text \<open>An application error carries its code and message across the gRPC boundary. For every
  framework code other than OK, translating a new error to a gRPC status error and back gives
  the same error: same code, message, HTTP status and gRPC code.\<close>

theorem grpc_roundtrip:
  assumes "status_doc (errors_init se fe)" and "c \<in> set framework_codes" and "c \<noteq> CodeOK"
  shows "FromGRPCError (errors_init se fe)
           (ToGRPCError (errors_init se fe) (Some (New (errors_init se fe) c m))) =
         Some (New (errors_init se fe) c m)"
  using grpc_carries_error [OF assms, of m] by auto

theorem grpc_roundtrip_witness:
  "FromGRPCError E0 (ToGRPCError E0 (Some (New E0 CodeNotFound ''todo not found''))) =
   Some (New E0 CodeNotFound ''todo not found'')"
  by (rule grpc_roundtrip [OF status_doc_E0]) (simp_all add: framework_codes_def code_defs)

end
