(* ===== verification/SF_Memory.thy ===== *)
theory SF_Memory
  imports SF_Errors "HOL-Library.Word"
begin

text \<open>
  Package \<open>adapters/memory\<close>: the in-process cache (with its lock and rate limiter), event bus and
  service registry, and the port interfaces they implement (\<open>ports/cache\<close>, \<open>ports/eventbus\<close>,
  \<open>ports/registry\<close>). Every method holds the component's mutex, so it is one function on the
  component's state; a clock reading \<open>time.Now()\<close> is an argument. A \<open>time.Time\<close> is the number of
  nanoseconds since the zero time.
\<close>

section \<open>Cache\<close>

type_synonym byte = "8 word"

definition ErrCacheMiss :: go_error where "ErrCacheMiss = Sentinel ''cache miss''"

record cacheItem =
  ci_value :: "byte list"
  ci_expiresAt :: int

record Cache =
  items :: "(string, cacheItem) gomap"
  locks :: "(string, int) gomap"

definition NewCache :: Cache where
  "NewCache = \<lparr>items = [], locks = []\<rparr>"

definition expired :: "int \<Rightarrow> int \<Rightarrow> bool" where
  "expired now t \<longleftrightarrow> t \<noteq> 0 \<and> t < now"

definition deadline :: "int \<Rightarrow> int \<Rightarrow> int" where
  "deadline now ttl = (if ttl \<le> 0 then 0 else now + ttl)"

definition Cache_Get :: "int \<Rightarrow> string \<Rightarrow> Cache \<Rightarrow> byte list result" where
  "Cache_Get now key c =
     (case map_of (items c) key of
        None \<Rightarrow> Inl ErrCacheMiss
      | Some item \<Rightarrow> if expired now (ci_expiresAt item) then Inl ErrCacheMiss else Inr (ci_value item))"

definition Cache_Set :: "int \<Rightarrow> string \<Rightarrow> byte list \<Rightarrow> int \<Rightarrow> Cache \<Rightarrow> Cache" where
  "Cache_Set now key value ttl c =
     c\<lparr>items := AList.update key \<lparr>ci_value = value, ci_expiresAt = deadline now ttl\<rparr> (items c)\<rparr>"

definition Cache_Delete :: "string list \<Rightarrow> Cache \<Rightarrow> Cache" where
  "Cache_Delete ks c = c\<lparr>items := fold AList.delete ks (items c)\<rparr>"

definition Cache_Exists :: "int \<Rightarrow> string \<Rightarrow> Cache \<Rightarrow> bool" where
  "Cache_Exists now key c =
     (case map_of (items c) key of None \<Rightarrow> False | Some item \<Rightarrow> \<not> expired now (ci_expiresAt item))"

text \<open>
  \<open>Lock\<close> reads the clock twice: \<open>now\<close> for the test of the old holder and \<open>now'\<close> for the new
  deadline. A lock handle is the key it holds; the zero handle is \<open>None\<close>.
\<close>

type_synonym lock = "string option"

definition Cache_Lock :: "int \<Rightarrow> int \<Rightarrow> string \<Rightarrow> int \<Rightarrow> Cache \<Rightarrow> Cache \<times> lock result" where
  "Cache_Lock now now' key ttl c =
     (case map_of (locks c) key of
        Some until \<Rightarrow>
          if now < until then (c, Inl (PlainError ''lock already held''))
          else (c\<lparr>locks := AList.update key (deadline now' ttl) (locks c)\<rparr>, Inr (Some key))
      | None \<Rightarrow> (c\<lparr>locks := AList.update key (deadline now' ttl) (locks c)\<rparr>, Inr (Some key)))"

definition Lock_Unlock :: "lock \<Rightarrow> Cache \<Rightarrow> Cache" where
  "Lock_Unlock l c = (case l of None \<Rightarrow> c | Some key \<Rightarrow> c\<lparr>locks := AList.delete key (locks c)\<rparr>)"

text \<open>
  \<open>Allow\<close>: \<open>now\<close> is read before the mutex is taken, \<open>now'\<close> inside \<open>expired\<close>. The counter is the
  first byte of the item, so reading it from an empty value panics and storing it truncates.
\<close>

definition Cache_Allow :: "int \<Rightarrow> int \<Rightarrow> string \<Rightarrow> int \<Rightarrow> int \<Rightarrow> Cache \<Rightarrow> (Cache \<times> bool) outcome" where
  "Cache_Allow now now' key limit window c =
     (if limit \<le> 0 then Ret (c, False)
      else
        (let count =
           (case map_of (items c) key of
              None \<Rightarrow> Ret 0
            | Some item \<Rightarrow>
                if expired now' (ci_expiresAt item) then Ret 0
                else (case ci_value item of
                        [] \<Rightarrow> Panic ''index out of range''
                      | x # _ \<Rightarrow> Ret (int (unat x))))
         in case count of
              Panic m \<Rightarrow> Panic m
            | Ret n \<Rightarrow>
                if n \<ge> limit then Ret (c, False)
                else Ret (c\<lparr>items := AList.update key
                              \<lparr>ci_value = [word_of_int (n + 1)], ci_expiresAt = now + window\<rparr> (items c)\<rparr>,
                          True)))"

section \<open>Event bus\<close>

record Message =
  msg_ID :: string
  msg_Topic :: string
  msg_Key :: string
  msg_Headers :: "(string, string) gomap"
  msg_ContentType :: string
  msg_Body :: "byte list"

text \<open>A handler acts on the rest of the system, a state of type \<open>'w\<close>.\<close>

type_synonym 'w msg_handler = "Message \<Rightarrow> 'w \<Rightarrow> 'w \<times> go_error option"

record 'w EventBus =
  eb_handlers :: "(string, 'w msg_handler list) gomap"

definition NewEventBus :: "'w EventBus" where
  "NewEventBus = \<lparr>eb_handlers = []\<rparr>"

definition topic_handlers :: "'w EventBus \<Rightarrow> string \<Rightarrow> 'w msg_handler list" where
  "topic_handlers b topic = (case map_of (eb_handlers b) topic of None \<Rightarrow> [] | Some hs \<Rightarrow> hs)"

fun run_handlers :: "'w msg_handler list \<Rightarrow> Message \<Rightarrow> 'w \<Rightarrow> 'w \<times> go_error option" where
  "run_handlers [] msg w = (w, None)"
| "run_handlers (h # hs) msg w =
     (case h msg w of (w', Some e) \<Rightarrow> (w', Some e) | (w', None) \<Rightarrow> run_handlers hs msg w')"

definition Publish :: "'w EventBus \<Rightarrow> string \<Rightarrow> Message \<Rightarrow> 'w \<Rightarrow> 'w \<times> go_error option" where
  "Publish b topic msg w = run_handlers (topic_handlers b topic) (msg\<lparr>msg_Topic := topic\<rparr>) w"

definition Subscribe :: "string \<Rightarrow> 'w msg_handler \<Rightarrow> 'w EventBus \<Rightarrow> 'w EventBus" where
  "Subscribe topic h b = b\<lparr>eb_handlers := AList.update topic (topic_handlers b topic @ [h]) (eb_handlers b)\<rparr>"

section \<open>Registry\<close>

record ServiceInstance =
  si_ID :: string
  si_Name :: string
  si_Version :: string
  si_Address :: string
  si_Port :: int
  si_Protocol :: string
  si_Tags :: "string list"
  si_Metadata :: "(string, string) gomap"

record Registry =
  services :: "(string, ServiceInstance) gomap"

definition NewRegistry :: Registry where
  "NewRegistry = \<lparr>services = []\<rparr>"

definition Register :: "ServiceInstance \<Rightarrow> Registry \<Rightarrow> Registry" where
  "Register s r = r\<lparr>services := AList.update (si_ID s) s (services r)\<rparr>"

definition Deregister :: "string \<Rightarrow> Registry \<Rightarrow> Registry" where
  "Deregister i r = r\<lparr>services := AList.delete i (services r)\<rparr>"

definition Resolve :: "string \<Rightarrow> Registry \<Rightarrow> ServiceInstance list" where
  "Resolve name r = filter (\<lambda>s. si_Name s = name) (map snd (services r))"

section \<open>The cache port\<close>

text \<open>
  What a client of \<open>ports/cache.Cache\<close> relies on: a stored value is readable until its time to
  live has passed (for ever when it is not positive), operations on one key leave the others
  alone, and \<open>Exists\<close> agrees with \<open>Get\<close>.
\<close>

locale cache_port =
  fixes get :: "int \<Rightarrow> 'k \<Rightarrow> 'c \<Rightarrow> 'v result"
    and set :: "int \<Rightarrow> 'k \<Rightarrow> 'v \<Rightarrow> int \<Rightarrow> 'c \<Rightarrow> 'c"
    and delete :: "'k list \<Rightarrow> 'c \<Rightarrow> 'c"
    and exists :: "int \<Rightarrow> 'k \<Rightarrow> 'c \<Rightarrow> bool"
  assumes get_set: "ttl \<le> 0 \<or> t \<le> now + ttl \<Longrightarrow> get t k (set now k v ttl c) = Inr v"
    and get_set_late: "0 < now \<Longrightarrow> 0 < ttl \<Longrightarrow> now + ttl < t \<Longrightarrow> isl (get t k (set now k v ttl c))"
    and get_set_other: "k \<noteq> q \<Longrightarrow> get t q (set now k v ttl c) = get t q c"
    and get_delete: "k \<in> List.set ks \<Longrightarrow> isl (get t k (delete ks c))"
    and get_delete_other: "k \<notin> List.set ks \<Longrightarrow> get t k (delete ks c) = get t k c"
    and exists_get: "exists t k c \<longleftrightarrow> \<not> isl (get t k c)"
begin

lemma overwrite: "ttl' \<le> 0 \<or> t \<le> now' + ttl' \<Longrightarrow> get t k (set now' k v' ttl' (set now k v ttl c)) = Inr v'"
  by (rule get_set)

lemma exists_after_delete: "exists t k (delete ks c) \<longleftrightarrow> k \<notin> List.set ks \<and> exists t k c"
  by (cases "k \<in> List.set ks") (simp_all add: exists_get get_delete get_delete_other)

end

interpretation mc: cache_port Cache_Get Cache_Set Cache_Delete Cache_Exists
proof unfold_locales
  fix now t ttl :: int and k q v ks c
  show "ttl \<le> 0 \<or> t \<le> now + ttl \<Longrightarrow> Cache_Get t k (Cache_Set now k v ttl c) = Inr v"
    by (auto simp: Cache_Get_def Cache_Set_def expired_def deadline_def gomap)
  show "0 < now \<Longrightarrow> 0 < ttl \<Longrightarrow> now + ttl < t \<Longrightarrow> isl (Cache_Get t k (Cache_Set now k v ttl c))"
    by (auto simp: Cache_Get_def Cache_Set_def expired_def deadline_def gomap)
  show "k \<noteq> q \<Longrightarrow> Cache_Get t q (Cache_Set now k v ttl c) = Cache_Get t q c"
    by (simp add: Cache_Get_def Cache_Set_def gomap)
  show "Cache_Exists t k c \<longleftrightarrow> \<not> isl (Cache_Get t k c)"
    by (simp add: Cache_Exists_def Cache_Get_def split: option.splits)
  have fd: "map_of (fold AList.delete ks m) k = (if k \<in> set ks then None else map_of m k)" for m :: "(string, cacheItem) gomap"
    by (induction ks arbitrary: m) (auto simp: gomap)
  show "k \<in> set ks \<Longrightarrow> isl (Cache_Get t k (Cache_Delete ks c))"
    and "k \<notin> set ks \<Longrightarrow> Cache_Get t k (Cache_Delete ks c) = Cache_Get t k c"
    by (simp_all add: Cache_Get_def Cache_Delete_def fd)
qed

text \<open>Time to live. A value stored with a positive \<open>ttl\<close> at time \<open>now\<close> is returned by every
  \<open>Get\<close> up to \<open>now + ttl\<close> and is a cache miss afterwards; with \<open>ttl \<le> 0\<close> it never expires; and
  neither the store nor a later \<open>Delete\<close> of other keys changes what \<open>Get\<close> returns for other keys.\<close>

theorem cache_ttl:
  assumes "0 < now" and "k \<notin> set ks"
  shows "Cache_Get t k (Cache_Delete ks (Cache_Set now k v ttl c)) =
           (if ttl \<le> 0 \<or> t \<le> now + ttl then Inr v else Inl ErrCacheMiss) \<and>
         (q \<noteq> k \<longrightarrow> Cache_Get t q (Cache_Set now k v ttl c) = Cache_Get t q c) \<and>
         (\<forall>c' q. Cache_Exists t q c' \<longleftrightarrow> \<not> isl (Cache_Get t q c'))"
proof -
  have "Cache_Get t k (Cache_Set now k v ttl c) = Inl ErrCacheMiss" if "\<not> (ttl \<le> 0 \<or> t \<le> now + ttl)"
    using that assms(1) by (simp add: Cache_Get_def Cache_Set_def expired_def deadline_def gomap)
  then show ?thesis
    using assms mc.get_set [of ttl t now k v c] mc.get_set_other [of k q t now v ttl c]
      mc.get_delete_other [OF assms(2)] mc.exists_get by auto
qed

theorem cache_ttl_witness:
  "Cache_Get 15 ''k'' (Cache_Delete [''x''] (Cache_Set 10 ''k'' [7] 5 NewCache)) = Inr [7] \<and>
   Cache_Get 16 ''k'' (Cache_Delete [''x''] (Cache_Set 10 ''k'' [7] 5 NewCache)) = Inl ErrCacheMiss"
  using cache_ttl [of 10 "''k''" "[''x'']" 15 "[7]" 5 NewCache "''y''"]
    cache_ttl [of 10 "''k''" "[''x'']" 16 "[7]" 5 NewCache "''y''"] by simp

section \<open>The rate limiter\<close>

text \<open>A run of \<open>Allow\<close> calls on one key, with the two clock readings of each call.\<close>

fun allow_run :: "(int \<times> int) list \<Rightarrow> string \<Rightarrow> int \<Rightarrow> int \<Rightarrow> Cache \<Rightarrow> (Cache \<times> bool list) outcome" where
  "allow_run [] key limit window c = Ret (c, [])"
| "allow_run ((now, now') # ts) key limit window c =
     (case Cache_Allow now now' key limit window c of
        Panic m \<Rightarrow> Panic m
      | Ret (c', b) \<Rightarrow>
          (case allow_run ts key limit window c' of
             Panic m \<Rightarrow> Panic m
           | Ret (c'', bs) \<Rightarrow> Ret (c'', b # bs)))"

text \<open>The counter of \<open>key\<close> holds \<open>n\<close> and is live for every reading up to \<open>t\<close>.\<close>

definition counting :: "string \<Rightarrow> int \<Rightarrow> int \<Rightarrow> Cache \<Rightarrow> bool" where
  "counting key n t c \<longleftrightarrow>
     (case map_of (items c) key of
        None \<Rightarrow> n = 0
      | Some item \<Rightarrow> ci_value item = [word_of_int n] \<and> t \<le> ci_expiresAt item) \<and> 0 \<le> n \<and> n \<le> 255"

lemma unat_byte: "0 \<le> n \<Longrightarrow> n \<le> 255 \<Longrightarrow> int (unat (word_of_int n :: byte)) = n"
  by (simp add: unat_eq_nat_uint word_of_int_inverse)

lemma unat_lt2p_byte: "int (unat (x :: byte)) < 256"
  using unsigned_less [of x, where 'a = int] by simp

lemma allow_counting:
  assumes "counting key n t c" and "now' \<le> t" and "0 < limit" and "limit \<le> 255" and "t \<le> now + window"
  shows "\<exists>c'. Cache_Allow now now' key limit window c = Ret (c', n < limit) \<and>
    counting key (if n < limit then n + 1 else n) t c'"
proof -
  let ?c = "c\<lparr>items := AList.update key
              \<lparr>ci_value = [word_of_int (n + 1)], ci_expiresAt = now + window\<rparr> (items c)\<rparr>"
  have n: "0 \<le> n" "n \<le> 255" and u: "int (unat (word_of_int n :: byte)) = n"
    using assms(1) unat_byte by (auto simp: counting_def)
  have "Cache_Allow now now' key limit window c = Ret (if n < limit then ?c else c, n < limit)"
    using assms(1-3) n u unfolding counting_def Cache_Allow_def expired_def Let_def
    by (cases "map_of (items c) key") (auto simp del: uint_nat)
  moreover have "counting key (n + 1) t ?c" if "n < limit"
    using that assms(4,5) n by (simp add: counting_def gomap)
  ultimately show ?thesis using assms(1) by auto
qed

lemma allow_run_counting:
  assumes "counting key n t c" and "\<forall>(a, b) \<in> set ts. b \<le> t \<and> t \<le> a + window"
    and "0 < limit" and "limit \<le> 255" and "n \<le> limit"
  shows "\<exists>c'. allow_run ts key limit window c =
    Ret (c', map (\<lambda>i. n + int i < limit) [0..<length ts])"
  using assms
proof (induction ts arbitrary: c n)
  case Nil
  then show ?case by simp
next
  case (Cons p ts)
  obtain now now' where p: "p = (now, now')" by force
  let ?n = "if n < limit then n + 1 else n"
  from Cons.prems p obtain c' where c': "Cache_Allow now now' key limit window c = Ret (c', n < limit)"
    and cn: "counting key ?n t c'"
    using allow_counting [of key n t c now' limit now window] by auto
  have "\<forall>(a, b) \<in> set ts. b \<le> t \<and> t \<le> a + window" and "?n \<le> limit"
    using Cons.prems(2,5) by simp_all
  with Cons.IH [OF cn] Cons.prems(3,4) obtain c'' where
    "allow_run ts key limit window c' = Ret (c'', map (\<lambda>i. ?n + int i < limit) [0..<length ts])"
    by blast
  moreover have "map (\<lambda>i. n + int i < limit) [0..<length (p # ts)] =
      (n < limit) # map (\<lambda>i. ?n + int i < limit) [0..<length ts]"
  proof -
    have "[0..<length (p # ts)] = 0 # map Suc [0..<length ts]"
      by (simp only: length_Cons upt_conv_Cons zero_less_Suc map_Suc_upt)
    moreover have "n + int (Suc i) < limit \<longleftrightarrow> ?n + int i < limit" for i
      using Cons.prems(5) by auto
    ultimately show ?thesis by (simp only: list.map map_map comp_def int_ops add_0_right)
  qed
  ultimately show ?case using c' by (simp add: p)
qed

text \<open>C29: the rate limiter within one window. On a key with no counter, any number of calls whose
  clock readings all fall within one window of each other is answered with exactly the first
  \<open>limit\<close> calls allowed and all later ones denied, for every limit from 1 to 255.\<close>

theorem rate_limit_exact:
  assumes "map_of (items c) key = None" and "0 < limit" and "limit \<le> 255"
    and "\<forall>(a, b) \<in> set ts. b \<le> t \<and> t \<le> a + window"
  shows "\<exists>c'. allow_run ts key limit window c = Ret (c', map (\<lambda>i. int i < limit) [0..<length ts])"
  using allow_run_counting [of key 0 t c ts window limit] assms by (simp add: counting_def)

theorem rate_limit_exact_witness:
  "\<exists>c'. allow_run [(10, 10), (11, 12), (13, 13)] ''ip'' 2 100 NewCache = Ret (c', [True, True, False])"
  using rate_limit_exact [of NewCache "''ip''" 2 "[(10, 10), (11, 12), (13, 13)]" 20 100]
  by (simp add: NewCache_def upt_rec)

text \<open>The counter of \<open>key\<close> is absent or holds at least one byte, so \<open>Allow\<close> does not panic.\<close>

definition has_counter :: "string \<Rightarrow> Cache \<Rightarrow> bool" where
  "has_counter key c \<longleftrightarrow> (\<forall>item. map_of (items c) key = Some item \<longrightarrow> ci_value item \<noteq> [])"

lemma allow_has_counter:
  assumes "has_counter key c" and "256 \<le> limit"
  shows "\<exists>c'. Cache_Allow now now' key limit window c = Ret (c', True) \<and> has_counter key c'"
proof -
  have byte: "\<not> limit \<le> int (unat x)" for x :: byte
    using unat_lt2p_byte [of x] assms(2) by simp
  have "\<exists>y. Cache_Allow now now' key limit window c =
      Ret (c\<lparr>items := AList.update key \<lparr>ci_value = [y], ci_expiresAt = now + window\<rparr> (items c)\<rparr>, True)"
    using assms byte
    by (auto simp: Cache_Allow_def has_counter_def Let_def neq_Nil_conv split: option.splits list.splits)
  then show ?thesis by (auto simp: has_counter_def gomap)
qed

text \<open>A limit above 255 is no limit. The counter is stored in one byte, so on a key that is not
  used for anything else \<open>Allow\<close> with a limit of 256 or more allows every call, however many calls
  are made and at whatever times.\<close>

theorem rate_limit_256_never_denies:
  assumes "256 \<le> limit" and "map_of (items c) key = None"
  shows "\<exists>c'. allow_run ts key limit window c = Ret (c', replicate (length ts) True)"
proof -
  have "\<exists>c'. allow_run ts key limit window c = Ret (c', replicate (length ts) True)" if "has_counter key c" for c
    using that
  proof (induction ts arbitrary: c)
    case Nil
    then show ?case by simp
  next
    case (Cons p ts)
    obtain now now' where p: "p = (now, now')" by force
    obtain c' where "Cache_Allow now now' key limit window c = Ret (c', True)" and "has_counter key c'"
      using allow_has_counter [OF Cons.prems assms(1)] by blast
    with Cons.IH [of c'] p show ?case by auto
  qed
  then show ?thesis using assms(2) by (simp add: has_counter_def)
qed

theorem rate_limit_256_never_denies_witness:
  "\<exists>c'. allow_run (replicate 1000 (10, 10)) ''ip'' 256 100 NewCache = Ret (c', replicate 1000 True)"
  using rate_limit_256_never_denies [of 256 NewCache "''ip''" "replicate 1000 (10, 10)" 100]
  by (simp add: NewCache_def)

section \<open>Locks\<close>

text \<open>Mutual exclusion of locks. After a successful \<open>Lock\<close> and with no \<open>Unlock\<close>, a second
  \<open>Lock\<close> of the same key fails and changes nothing exactly while the holder's time to live is
  positive and not over; with \<open>ttl \<le> 0\<close> the second caller always gets the lock too. Locks of
  other keys are not affected.\<close>

theorem lock_exclusion:
  assumes "Cache_Lock now now' k ttl c = (c1, Inr l)" and "0 \<le> m"
  shows "Cache_Lock m m' k ttl2 c1 =
           (if 0 < ttl \<and> m < now' + ttl then (c1, Inl (PlainError ''lock already held''))
            else (c1\<lparr>locks := AList.update k (deadline m' ttl2) (locks c1)\<rparr>, Inr (Some k))) \<and>
         (q \<noteq> k \<longrightarrow> snd (Cache_Lock m m' q ttl2 c1) = snd (Cache_Lock m m' q ttl2 c))"
  using assms by (auto simp: Cache_Lock_def deadline_def gomap split: option.splits if_splits)

theorem lock_exclusion_witness:
  "snd (Cache_Lock 12 12 ''k'' 5 (fst (Cache_Lock 10 10 ''k'' 5 NewCache))) = Inl (PlainError ''lock already held'') \<and>
   snd (Cache_Lock 12 12 ''k'' 5 (fst (Cache_Lock 10 10 ''k'' 0 NewCache))) = Inr (Some ''k'')"
proof -
  have l: "Cache_Lock 10 10 ''k'' ttl NewCache =
      (\<lparr>items = [], locks = [(''k'', deadline 10 ttl)]\<rparr>, Inr (Some ''k''))" for ttl
    by (simp add: Cache_Lock_def NewCache_def)
  from lock_exclusion [OF l, of 12 12 5 5 "''q''"] lock_exclusion [OF l, of 12 12 5 0 "''q''"]
  show ?thesis by (simp add: l)
qed

text \<open>A stale handle releases somebody else's lock. When the first holder's lock has run out
  and a second caller has taken it, an \<open>Unlock\<close> of the first handle makes a third \<open>Lock\<close>
  succeed while the second holder's time to live is still running.\<close>

theorem stale_unlock:
  assumes "Cache_Lock n1 n1' k ttl1 c = (c1, Inr l1)" and "Cache_Lock n2 n2' k ttl2 c1 = (c2, Inr l2)"
  shows "snd (Cache_Lock n3 n3' k ttl3 (Lock_Unlock l1 c2)) = Inr (Some k)"
  using assms by (auto simp: Cache_Lock_def Lock_Unlock_def gomap split: option.splits if_splits)

theorem stale_unlock_witness:
  "snd (Cache_Lock 17 17 ''k'' 100
      (Lock_Unlock (Some ''k'') \<lparr>items = [], locks = [(''k'', 116)]\<rparr>)) = Inr (Some ''k'')"
proof -
  have "Cache_Lock 10 10 ''k'' 5 NewCache = (\<lparr>items = [], locks = [(''k'', 15)]\<rparr>, Inr (Some ''k''))"
    and "Cache_Lock 16 16 ''k'' 100 \<lparr>items = [], locks = [(''k'', 15)]\<rparr> =
      (\<lparr>items = [], locks = [(''k'', 116)]\<rparr>, Inr (Some ''k''))"
    by (simp_all add: Cache_Lock_def NewCache_def deadline_def)
  from stale_unlock [OF this] show ?thesis .
qed

section \<open>Publishing\<close>

lemma topic_handlers_new [simp]: "topic_handlers NewEventBus topic = []"
  by (simp add: topic_handlers_def NewEventBus_def)

lemma topic_handlers_fold:
  "topic_handlers (fold (\<lambda>(t, h). Subscribe t h) subs b) topic =
   topic_handlers b topic @ map snd (filter (\<lambda>(t, h). t = topic) subs)"
  by (induction subs arbitrary: b) (auto simp: topic_handlers_def Subscribe_def gomap)

lemma run_handlers_prefix:
  "\<exists>k \<le> length hs.
     let wk = fold (\<lambda>h w. fst (h m w)) (take k hs) w in
       (\<forall>j < k. snd ((hs ! j) m (fold (\<lambda>h w. fst (h m w)) (take j hs) w)) = None) \<and>
       (if k = length hs then run_handlers hs m w = (wk, None)
        else snd ((hs ! k) m wk) \<noteq> None \<and> run_handlers hs m w = (hs ! k) m wk)"
proof (induction hs arbitrary: w)
  case Nil
  then show ?case by simp
next
  case (Cons h hs)
  show ?case
  proof (cases "snd (h m w)")
    case None
    from Cons [of "fst (h m w)"] obtain k where "k \<le> length hs" and
      k: "let wk = fold (\<lambda>h w. fst (h m w)) (take k hs) (fst (h m w)) in
       (\<forall>j < k. snd ((hs ! j) m (fold (\<lambda>h w. fst (h m w)) (take j hs) (fst (h m w)))) = None) \<and>
       (if k = length hs then run_handlers hs m (fst (h m w)) = (wk, None)
        else snd ((hs ! k) m wk) \<noteq> None \<and> run_handlers hs m (fst (h m w)) = (hs ! k) m wk)" by blast
    have "run_handlers (h # hs) m w = run_handlers hs m (fst (h m w))"
      using None by (cases "h m w") simp
    with k None \<open>k \<le> length hs\<close> show ?thesis
      by (intro exI [of _ "Suc k"]) (auto simp: Let_def less_Suc_eq_0_disj)
  next
    case (Some e)
    then show ?thesis by (intro exI [of _ 0]) (auto split: prod.splits)
  qed
qed

text \<open>Delivery order. After any sequence of subscriptions, \<open>Publish\<close> runs exactly the handlers
  of its topic, in subscription order, each on the message with its topic field set, and stops
  at the first error, which it returns; it returns no error only when every handler ran.\<close>

theorem publish_order:
  "let hs = map snd (filter (\<lambda>(t, h). t = topic) subs);
       m = msg\<lparr>msg_Topic := topic\<rparr>;
       after = (\<lambda>j. fold (\<lambda>h w. fst (h m w)) (take j hs) w);
       res = Publish (fold (\<lambda>(t, h). Subscribe t h) subs NewEventBus) topic msg w
   in \<exists>k \<le> length hs. (\<forall>j < k. snd ((hs ! j) m (after j)) = None) \<and>
        (if k = length hs then res = (after k, None)
         else snd ((hs ! k) m (after k)) \<noteq> None \<and> res = (hs ! k) m (after k))"
proof -
  have "Publish (fold (\<lambda>(t, h). Subscribe t h) subs NewEventBus) topic msg w =
      run_handlers (map snd (filter (\<lambda>(t, h). t = topic) subs)) (msg\<lparr>msg_Topic := topic\<rparr>) w"
    by (simp add: Publish_def topic_handlers_fold)
  then show ?thesis
    using run_handlers_prefix [of "map snd (filter (\<lambda>(t, h). t = topic) subs)" "msg\<lparr>msg_Topic := topic\<rparr>" w]
    unfolding Let_def by (simp only:)
qed

definition demo_msg :: Message where
  "demo_msg = \<lparr>msg_ID = ''m1'', msg_Topic = [], msg_Key = [], msg_Headers = [], msg_ContentType = [], msg_Body = []\<rparr>"

definition log_handler :: "nat \<Rightarrow> go_error option \<Rightarrow> nat list msg_handler" where
  "log_handler n err m w = (w @ [n], err)"

definition demo_subs :: "(string \<times> nat list msg_handler) list" where
  "demo_subs = [(''a'', log_handler 1 None), (''b'', log_handler 2 None), (''a'', log_handler 3 (Some ErrCacheMiss)),
     (''a'', log_handler 4 None)]"

theorem publish_order_witness:
  "let hs = map snd (filter (\<lambda>(t, h). t = ''a'') demo_subs);
       m = demo_msg\<lparr>msg_Topic := ''a''\<rparr>;
       after = (\<lambda>j. fold (\<lambda>h w. fst (h m w)) (take j hs) []);
       res = Publish (fold (\<lambda>(t, h). Subscribe t h) demo_subs NewEventBus) ''a'' demo_msg []
   in res = ([1, 3], Some ErrCacheMiss) \<and>
      (\<exists>k \<le> length hs. (\<forall>j < k. snd ((hs ! j) m (after j)) = None) \<and>
        (if k = length hs then res = (after k, None)
         else snd ((hs ! k) m (after k)) \<noteq> None \<and> res = (hs ! k) m (after k)))"
proof -
  have "Publish (fold (\<lambda>(t, h). Subscribe t h) demo_subs NewEventBus) ''a'' demo_msg [] = ([1, 3], Some ErrCacheMiss)"
    by (simp add: Publish_def topic_handlers_fold) (simp add: demo_subs_def log_handler_def)
  with publish_order [of "''a''" demo_subs demo_msg "[]"] show ?thesis
    unfolding Let_def by (simp only:)
qed

section \<open>The registry port\<close>

text \<open>
  What \<open>ports/registry\<close> promises: the instances visible through \<open>Resolve\<close> are the registered
  ones. The view of a registry is a finite map from instance ids.
\<close>

datatype registry_op = OpRegister ServiceInstance | OpDeregister string

fun registry_spec :: "registry_op \<Rightarrow> (string \<rightharpoonup> ServiceInstance) \<Rightarrow> (string \<rightharpoonup> ServiceInstance)" where
  "registry_spec (OpRegister s) m = m(si_ID s \<mapsto> s)"
| "registry_spec (OpDeregister i) m = m(i := None)"

locale registry_port =
  fixes register :: "ServiceInstance \<Rightarrow> 'r \<Rightarrow> 'r"
    and deregister :: "string \<Rightarrow> 'r \<Rightarrow> 'r"
    and resolve :: "string \<Rightarrow> 'r \<Rightarrow> ServiceInstance list"
    and view :: "'r \<Rightarrow> string \<rightharpoonup> ServiceInstance"
    and ok :: "'r \<Rightarrow> bool"
  assumes view_register: "ok r \<Longrightarrow> view (register s r) = (view r)(si_ID s \<mapsto> s)"
    and view_deregister: "ok r \<Longrightarrow> view (deregister i r) = (view r)(i := None)"
    and ok_register: "ok r \<Longrightarrow> ok (register s r)"
    and ok_deregister: "ok r \<Longrightarrow> ok (deregister i r)"
    and resolve_view: "ok r \<Longrightarrow> set (resolve n r) = {s. view r (si_ID s) = Some s \<and> si_Name s = n}"
    and resolve_distinct: "ok r \<Longrightarrow> distinct (resolve n r)"
begin

lemma run_refines:
  "ok r \<Longrightarrow>
   ok (fold (\<lambda>op. case op of OpRegister s \<Rightarrow> register s | OpDeregister i \<Rightarrow> deregister i) ops r) \<and>
   view (fold (\<lambda>op. case op of OpRegister s \<Rightarrow> register s | OpDeregister i \<Rightarrow> deregister i) ops r) =
   fold registry_spec ops (view r)"
  by (induction ops arbitrary: r)
    (auto simp: ok_register ok_deregister view_register view_deregister split: registry_op.splits)

end

text \<open>Every key of the map is the id of the instance stored under it.\<close>

definition registry_ok :: "Registry \<Rightarrow> bool" where
  "registry_ok r \<longleftrightarrow> gm_wf (services r) \<and> (\<forall>(i, s) \<in> set (services r). si_ID s = i)"

lemma registry_ok_lookup: "registry_ok r \<Longrightarrow> map_of (services r) i = Some s \<Longrightarrow> si_ID s = i"
  by (auto simp: registry_ok_def dest: map_of_SomeD)

interpretation mr: registry_port Register Deregister Resolve "\<lambda>r. map_of (services r)" registry_ok
proof unfold_locales
  fix r s i n assume ok: "registry_ok r"
  then have wf: "gm_wf (services r)" and ids: "\<forall>(i, s) \<in> set (services r). si_ID s = i"
    by (simp_all add: registry_ok_def)
  show "map_of (services (Register s r)) = (map_of (services r))(si_ID s \<mapsto> s)"
    by (simp add: Register_def update_conv')
  show "map_of (services (Deregister i r)) = (map_of (services r))(i := None)"
    by (simp add: Deregister_def delete_conv')
  show "registry_ok (Register s r)"
    using wf ids set_update_subset [of "si_ID s" s "services r"]
    by (auto simp: registry_ok_def Register_def)
  show "registry_ok (Deregister i r)"
    using wf ids gm_wf_delete [OF wf, of i]
    by (auto simp: registry_ok_def Deregister_def AList.delete_eq)
  show "set (Resolve n r) = {s. map_of (services r) (si_ID s) = Some s \<and> si_Name s = n}"
    using wf ids by (force simp: Resolve_def gm_wf_def)
  have "map fst (services r) = map (si_ID \<circ> snd) (services r)"
    using ids by (intro map_cong) auto
  then have "distinct (map si_ID (map snd (services r)))" using wf by (simp only: gm_wf_def map_map)
  then have "distinct (map snd (services r))" by (simp only: distinct_map)
  then show "distinct (Resolve n r)" by (simp add: Resolve_def)
qed

text \<open>C28: service discovery. After any sequence of registrations and deregistrations on a new
  registry, \<open>Resolve\<close> returns, without duplicates, exactly the instances that carry the name and
  are the last registration of their id not deregistered since.\<close>

theorem resolve_registered:
  "let r = fold (\<lambda>op. case op of OpRegister s \<Rightarrow> Register s | OpDeregister i \<Rightarrow> Deregister i) ops NewRegistry
   in distinct (Resolve name r) \<and>
      set (Resolve name r) = {s. fold registry_spec ops Map.empty (si_ID s) = Some s \<and> si_Name s = name}"
proof -
  have "registry_ok NewRegistry" and "(\<lambda>i. map_of (services NewRegistry) i) = Map.empty"
    by (simp_all add: registry_ok_def NewRegistry_def)
  then show ?thesis
    using mr.run_refines [of NewRegistry ops] mr.resolve_view mr.resolve_distinct by (simp add: Let_def)
qed

end
