(* ===== verification/SF_Stdlib.thy ===== *)
theory SF_Stdlib
  imports SF_Prelude
begin

text \<open>
  Functions of the Go standard library that work on whole strings: Unix file paths
  (\<open>path/filepath\<close>) and environment expansion (\<open>os.ExpandEnv\<close>).
\<close>

section \<open>File paths\<close>

text \<open>\<open>filepath.Clean\<close>: drop empty and dot elements, resolve \<open>..\<close> against the element before it.\<close>

fun clean_parts :: "bool \<Rightarrow> string list \<Rightarrow> string list \<Rightarrow> string list" where
  "clean_parts rooted stack [] = rev stack"
| "clean_parts rooted stack (p # ps) =
     (if p = [] \<or> p = ''.'' then clean_parts rooted stack ps
      else if p = ''..'' then
        (case stack of
           [] \<Rightarrow> if rooted then clean_parts rooted [] ps else clean_parts rooted [''..''] ps
         | t # ts \<Rightarrow>
             if t = ''..'' then clean_parts rooted (''..'' # stack) ps
             else clean_parts rooted ts ps)
      else clean_parts rooted (p # stack) ps)"

definition filepath_Clean :: "string \<Rightarrow> string" where
  "filepath_Clean s =
     (let rooted = hasPrefix s ''/'';
          body = join ''/'' (clean_parts rooted [] (split_on CHR ''/'' s))
      in if rooted then CHR ''/'' # body else if body = [] then ''.'' else body)"

definition filepath_Join :: "string list \<Rightarrow> string" where
  "filepath_Join elems =
     (case dropWhile (\<lambda>e. e = []) elems of
        [] \<Rightarrow> []
      | es \<Rightarrow> filepath_Clean (join ''/'' es))"

section \<open>Environment expansion\<close>

definition is_digit :: "char \<Rightarrow> bool" where
  "is_digit c \<longleftrightarrow> CHR ''0'' \<le> c \<and> c \<le> CHR ''9''"

definition is_alnum :: "char \<Rightarrow> bool" where
  "is_alnum c \<longleftrightarrow> c = CHR ''_'' \<or> is_digit c \<or> is_lower c \<or> is_upper c"

definition is_shell_special :: "char \<Rightarrow> bool" where
  "is_shell_special c \<longleftrightarrow> c \<in> set ''*#$@!?-'' \<or> is_digit c"

text \<open>
  \<open>os.getShellName\<close>: the variable name that follows a dollar sign and the number of bytes it
  takes; an empty name with a positive width is bad syntax that is swallowed.
\<close>

definition getShellName :: "string \<Rightarrow> string \<times> nat" where
  "getShellName s =
     (case s of
        [] \<Rightarrow> ([], 0)
      | c # rest \<Rightarrow>
          if c = CHR ''{'' then
            (if 2 \<le> length rest \<and> is_shell_special (rest ! 0) \<and> rest ! 1 = CHR ''}''
             then ([rest ! 0], 3)
             else
               (let name = takeWhile (\<lambda>x. x \<noteq> CHR ''}'') rest
                in if length name = length rest then ([], 1)
                   else if name = [] then ([], 2)
                   else (name, length name + 2)))
          else if is_shell_special c then ([c], 1)
          else (let name = takeWhile is_alnum s in (name, length name)))"

function expand :: "(string \<Rightarrow> string) \<Rightarrow> string \<Rightarrow> string" where
  "expand env [] = []"
| "expand env (c # s) =
     (if c = CHR ''$'' \<and> s \<noteq> [] then
        (let (name, w) = getShellName s
         in (if name = [] then (if w = 0 then [c] else []) else env name) @ expand env (drop w s))
      else c # expand env s)"
  by pat_completeness auto
termination
  by (relation "measure (\<lambda>(env, s). length s)") auto

lemma expand_no_dollar: "CHR ''$'' \<notin> set s \<Longrightarrow> expand env s = s"
  by (induction s) auto

end
