(* ===== verification/SF_Config.thy ===== *)
theory SF_Config
  imports SF_Errors SF_Stdlib
begin

text \<open>
  Package \<open>core/config\<close>: the configuration structs, their defaults, and the layered loader
  (\<open>base.yaml\<close>, \<open>envs/<env>.yaml\<close>, \<open>services/<name>.yaml\<close>, \<open>local.yaml\<close>) with its deep merge.

  Durations are integers in nanoseconds. The YAML codec (\<open>gopkg.in/yaml.v3\<close>), the file system,
  the process environment and \<open>fmt.Sprint\<close> are fields of the record \<open>load_env\<close>.
\<close>

section \<open>Configuration structs\<close>

definition second :: int where "second = 1000000000"

record AppConfig =
  app_Name :: string
  app_Version :: string
  app_Env :: string
  app_Debug :: bool

record ServerConfig =
  srv_ListenIP :: string
  srv_RegisterIP :: string
  srv_Port :: int
  srv_Timeout :: int

record GRPCConfig =
  grpc_ListenIP :: string
  grpc_RegisterIP :: string
  grpc_Port :: int

record ClaimForwardConfig =
  cf_Claim :: string
  cf_Header :: string
  cf_Required :: bool
  cf_Default :: "string option"

record CircuitBreakerConfig =
  cb_MinRequests :: int
  cb_FailureRatio :: float64
  cb_Window :: int
  cb_OpenTimeout :: int
  cb_HalfOpenMaxCalls :: int

record RetryConfig =
  rc_MaxAttempts :: int
  rc_PerTryTimeout :: int
  rc_Backoff :: int
  rc_RetryOn :: "string list"

record GatewayPluginConfig =
  gp_Name :: string
  gp_Enabled :: "bool option"
  gp_Config :: "(string \<times> any) list"

record GatewayRouteConfig =
  rt_Name :: string
  rt_Method :: string
  rt_Path :: string
  rt_Service :: string
  rt_Target :: string
  rt_RPC :: string
  rt_Timeout :: int
  rt_PoolSize :: int
  rt_LoadBalance :: string
  rt_Stream :: string
  rt_Retry :: "RetryConfig option"
  rt_CircuitBreaker :: "CircuitBreakerConfig option"
  rt_ForwardClaims :: "ClaimForwardConfig list"
  rt_SkipGlobalPlugins :: "string list"
  rt_Plugins :: "GatewayPluginConfig list"

record GatewayConfig =
  gw_ListenIP :: string
  gw_Port :: int
  gw_DisableStartupMessage :: bool
  gw_Plugins :: "GatewayPluginConfig list"
  gw_Routes :: "GatewayRouteConfig list"

record LogConfig =
  log_Format :: string
  log_Level :: string
  log_ModuleLifecycle :: bool

record ComponentConfig =
  cc_Name :: string
  cc_Provider :: string
  cc_Enabled :: "bool option"

record RuntimeConfig =
  run_Components :: "ComponentConfig list"

record Config =
  c_App :: AppConfig
  c_Server :: ServerConfig
  c_GRPC :: GRPCConfig
  c_Gateway :: GatewayConfig
  c_Log :: LogConfig
  c_Runtime :: RuntimeConfig
  c_Modules :: "(string \<times> (string \<times> any) list) list option"
  c_Raw :: "(string \<times> any) list"

definition plugin_IsEnabled :: "GatewayPluginConfig \<Rightarrow> bool" where
  "plugin_IsEnabled c = (case gp_Enabled c of None \<Rightarrow> True | Some b \<Rightarrow> b)"

definition component_IsEnabled :: "ComponentConfig \<Rightarrow> bool" where
  "component_IsEnabled c = (case cc_Enabled c of None \<Rightarrow> True | Some b \<Rightarrow> b)"

definition Default :: Config where
  "Default =
     \<lparr>c_App = \<lparr>app_Name = [], app_Version = ''v0.1.0'', app_Env = ''development'', app_Debug = False\<rparr>,
      c_Server = \<lparr>srv_ListenIP = ''0.0.0.0'', srv_RegisterIP = [], srv_Port = 8080,
                  srv_Timeout = 30 * second\<rparr>,
      c_GRPC = \<lparr>grpc_ListenIP = ''0.0.0.0'', grpc_RegisterIP = [], grpc_Port = 9000\<rparr>,
      c_Gateway = \<lparr>gw_ListenIP = ''0.0.0.0'', gw_Port = 8080, gw_DisableStartupMessage = True,
                   gw_Plugins = [], gw_Routes = []\<rparr>,
      c_Log = \<lparr>log_Format = ''text'', log_Level = ''info'', log_ModuleLifecycle = False\<rparr>,
      c_Runtime = \<lparr>run_Components = []\<rparr>,
      c_Modules = Some [],
      c_Raw = []\<rparr>"

definition Address :: "string \<Rightarrow> int \<Rightarrow> string" where
  "Address ip port = (if trimSpace ip = [] then ''0.0.0.0'' else ip) @ '':'' @ itoa port"

section \<open>Merging\<close>

text \<open>\<open>mergeMap(dst, src)\<close>: the loop over \<open>src\<close>, with \<open>dst\<close> as the map it updates.\<close>

function mergeMap :: "(string \<times> any) list \<Rightarrow> (string \<times> any) list \<Rightarrow> (string \<times> any) list" where
  "mergeMap dst [] = dst"
| "mergeMap dst ((k, v) # src) =
     mergeMap
       (case (v, map_of dst k) of
          (AMap srcMap, Some (AMap dstMap)) \<Rightarrow> AList.update k (AMap (mergeMap dstMap srcMap)) dst
        | _ \<Rightarrow> AList.update k v dst) src"
  by pat_completeness auto
termination
  by (relation "measure (\<lambda>(d, s). size_list (size_prod (\<lambda>_. 0) size) s)") auto

text \<open>The loop that turns a \<open>map[any]any\<close> into a \<open>map[string]any\<close> by \<open>fmt.Sprint\<close> of its keys.\<close>

definition stringKeys :: "(any \<Rightarrow> string) \<Rightarrow> (any \<times> any) list \<Rightarrow> (string \<times> any) list" where
  "stringKeys sprint m = fold (\<lambda>(nk, nv). AList.update (sprint nk) nv) m []"

abbreviation sz_map :: "(string \<times> any) list \<Rightarrow> nat" where
  "sz_map \<equiv> size_list (size_prod (\<lambda>_. 0) size)"

lemma size_update: "sz_map (AList.update k v m) \<le> sz_map m + size v + 2"
  by (induction m) auto

lemma size_fold_update:
  "sz_map (fold (\<lambda>(nk, nv). AList.update (f nk) nv) m acc) \<le> sz_map acc + size_list (size_prod size size) m"
proof (induction m arbitrary: acc)
  case Nil
  then show ?case by simp
next
  case (Cons x m)
  obtain nk nv where x: "x = (nk, nv)" by (cases x)
  show ?case
    using size_update [of "f nk" nv acc] Cons.IH [of "AList.update (f nk) nv acc"]
    by (simp add: x)
qed

lemma size_stringKeys: "sz_map (stringKeys f m) \<le> size_list (size_prod size size) m"
  using size_fold_update [of f m "[]"] by (simp add: stringKeys_def)

lemma size_map_member: "(k, v) \<in> set m \<Longrightarrow> size v < sz_map m"
  by (induction m) auto

function normalizeMap :: "(any \<Rightarrow> string) \<Rightarrow> (string \<times> any) list \<Rightarrow> (string \<times> any) list" where
  "normalizeMap sprint m =
     map (\<lambda>(k, v).
       (k, case v of
             AMap typed \<Rightarrow> AMap (normalizeMap sprint typed)
           | AAnyMap typed \<Rightarrow> AMap (normalizeMap sprint (stringKeys sprint typed))
           | _ \<Rightarrow> v)) m"
  by pat_completeness auto
termination
proof (relation "measure (\<lambda>(f, m). sz_map m)", goal_cases)
  case 1
  then show ?case by simp
next
  case (2 f m kv k v typed)
  then show ?case using size_map_member [of k v m] by auto
next
  case (3 f m kv k v typed)
  then show ?case using size_map_member [of k v m] size_stringKeys [of f typed] by auto
qed

declare normalizeMap.simps [simp del]

section \<open>Loading\<close>

record LoadOptions =
  lo_ConfigDir :: string
  lo_ServiceName :: string
  lo_Environment :: string
  lo_EnableLocal :: bool

record 'app Bundle =
  b_Core :: Config
  b_App :: 'app

record 'app load_env =
  le_Getenv :: "string \<Rightarrow> string"
  le_ReadFile :: "string \<Rightarrow> string result"
  le_UnmarshalMap :: "string \<Rightarrow> (string \<times> any) list result"
  le_Marshal :: "(string \<times> any) list \<Rightarrow> string result"
  le_UnmarshalCore :: "string \<Rightarrow> Config \<Rightarrow> Config result"
  le_UnmarshalApp :: "string \<Rightarrow> 'app result"
  le_ZeroApp :: 'app
  le_Sprint :: "any \<Rightarrow> string"

text \<open>\<open>os.IsNotExist\<close> recognises the error of a missing file but not an error that wraps it.\<close>

definition os_ErrNotExist :: go_error where
  "os_ErrNotExist = Sentinel ''file does not exist''"

definition os_IsNotExist :: "go_error \<Rightarrow> bool" where
  "os_IsNotExist e \<longleftrightarrow> e = os_ErrNotExist"

definition mergeFile ::
  "'app load_env \<Rightarrow> (string \<times> any) list \<Rightarrow> string \<Rightarrow> (string \<times> any) list result" where
  "mergeFile env dst path =
     (case le_ReadFile env path of
        Inl e \<Rightarrow> Inl e
      | Inr content \<Rightarrow>
          (case le_UnmarshalMap env (expand (le_Getenv env) content) of
             Inl e \<Rightarrow> Inl (WrapError (''parse config '' @ path @ '': '' @ Error e) e)
           | Inr src \<Rightarrow> Inr (mergeMap dst (normalizeMap (le_Sprint env) src))))"

text \<open>The loop of \<open>Load\<close> over the layer files; a missing file leaves the merged map as it is.\<close>

fun mergeFiles ::
  "'app load_env \<Rightarrow> string \<Rightarrow> (string \<times> any) list \<Rightarrow> string list \<Rightarrow> (string \<times> any) list result" where
  "mergeFiles env dir raw [] = Inr raw"
| "mergeFiles env dir raw (name # names) =
     (case mergeFile env raw (filepath_Join [dir, name]) of
        Inr raw' \<Rightarrow> mergeFiles env dir raw' names
      | Inl e \<Rightarrow> if os_IsNotExist e then mergeFiles env dir raw names else Inl e)"

definition loadEnvironment :: "'app load_env \<Rightarrow> LoadOptions \<Rightarrow> string" where
  "loadEnvironment env opts =
     (let e1 = (if lo_Environment opts = [] then le_Getenv env ''APP_ENV'' else lo_Environment opts)
      in if e1 = [] then ''development'' else e1)"

definition loadFiles :: "'app load_env \<Rightarrow> LoadOptions \<Rightarrow> string list" where
  "loadFiles env opts =
     [''base.yaml'', filepath_Join [''envs'', loadEnvironment env opts @ ''.yaml'']] @
     (if lo_ServiceName opts = [] then []
      else [filepath_Join [''services'', lo_ServiceName opts @ ''.yaml'']]) @
     (if lo_EnableLocal opts then [''local.yaml''] else [])"

definition Load :: "'app load_env \<Rightarrow> LoadOptions \<Rightarrow> 'app Bundle result" where
  "Load env opts =
     (let dir = (if lo_ConfigDir opts = [] then ''config'' else lo_ConfigDir opts)
      in case mergeFiles env dir [] (loadFiles env opts) of
           Inl e \<Rightarrow> Inl e
         | Inr raw \<Rightarrow>
             (case le_Marshal env raw of
                Inl e \<Rightarrow> Inl (WrapError (''marshal merged config: '' @ Error e) e)
              | Inr data \<Rightarrow>
                  (case (if data = [] then Inr (Default\<lparr>c_Raw := raw\<rparr>)
                         else le_UnmarshalCore env data (Default\<lparr>c_Raw := raw\<rparr>)) of
                     Inl e \<Rightarrow> Inl (WrapError (''decode core config: '' @ Error e) e)
                   | Inr core \<Rightarrow>
                       (let core1 = (if lo_ServiceName opts = [] then core
                                     else core\<lparr>c_App := (c_App core)\<lparr>app_Name := lo_ServiceName opts\<rparr>\<rparr>);
                            core2 = (if app_Env (c_App core1) = []
                                     then core1\<lparr>c_App := (c_App core1)\<lparr>app_Env := loadEnvironment env opts\<rparr>\<rparr>
                                     else core1)
                        in case (if data = [] then Inr (le_ZeroApp env) else le_UnmarshalApp env data) of
                             Inl e \<Rightarrow> Inl (WrapError (''decode app config: '' @ Error e) e)
                           | Inr a \<Rightarrow> Inr \<lparr>b_Core = core2, b_App = a\<rparr>))))"

text \<open>\<open>ModuleConfig[T]\<close>: the settings block of one adapter, decoded; a missing block is the zero value.\<close>

definition ModuleConfig ::
  "((string \<times> any) list \<Rightarrow> string result) \<Rightarrow> (string \<Rightarrow> 't result) \<Rightarrow> 't \<Rightarrow> Config option \<Rightarrow> string \<Rightarrow> 't result" where
  "ModuleConfig marshal unmarshal zero cfg name =
     (case cfg of
        None \<Rightarrow> Inr zero
      | Some c \<Rightarrow>
          (case c_Modules c of
             None \<Rightarrow> Inr zero
           | Some ms \<Rightarrow>
               (case map_of ms name of
                  None \<Rightarrow> Inr zero
                | Some raw \<Rightarrow>
                    (case marshal raw of Inl e \<Rightarrow> Inl e | Inr data \<Rightarrow> unmarshal data))))"

section \<open>Lemmas on the merge\<close>

definition is_map :: "any \<Rightarrow> bool" where
  "is_map v = (case v of AMap _ \<Rightarrow> True | _ \<Rightarrow> False)"

text \<open>
  A normalised map: keys are distinct in it and in the maps nested in it, and no nested map is
  a \<open>map[any]any\<close>.
\<close>

function wf_map :: "(string \<times> any) list \<Rightarrow> bool" where
  "wf_map m \<longleftrightarrow>
     gm_wf m \<and> (\<forall>kv \<in> set m. case snd kv of AMap x \<Rightarrow> wf_map x | AAnyMap _ \<Rightarrow> False | _ \<Rightarrow> True)"
  by pat_completeness auto
termination
proof (relation "measure sz_map", goal_cases)
  case 1
  then show ?case by simp
next
  case (2 m kv x)
  then have "(fst kv, AMap x) \<in> set m" by (metis prod.collapse)
  from size_map_member [OF this] show ?case by simp
qed

declare wf_map.simps [simp del]

lemma wf_mapD: "wf_map m \<Longrightarrow> gm_wf m"
  by (simp add: wf_map.simps [of m])

lemma wf_map_nested: "wf_map m \<Longrightarrow> map_of m k = Some (AMap x) \<Longrightarrow> wf_map x"
  by (auto simp: wf_map.simps [of m] dest!: map_of_SomeD bspec)

text \<open>The setting a path of keys leads to.\<close>

fun lookup_path :: "(string \<times> any) list \<Rightarrow> string list \<Rightarrow> any option" where
  "lookup_path m [] = None"
| "lookup_path m [k] = map_of m k"
| "lookup_path m (k # l # ks) =
     (case map_of m k of Some (AMap m') \<Rightarrow> lookup_path m' (l # ks) | _ \<Rightarrow> None)"

text \<open>A layer says nothing about a path when the walk along it ends at a missing key.\<close>

fun untouched :: "(string \<times> any) list \<Rightarrow> string list \<Rightarrow> bool" where
  "untouched m [] = False"
| "untouched m [k] = (map_of m k = None)"
| "untouched m (k # l # ks) =
     (case map_of m k of None \<Rightarrow> True | Some (AMap m') \<Rightarrow> untouched m' (l # ks) | _ \<Rightarrow> False)"

definition merge_val :: "any option \<Rightarrow> any \<Rightarrow> any" where
  "merge_val old v =
     (case (v, old) of (AMap s, Some (AMap d)) \<Rightarrow> AMap (mergeMap d s) | _ \<Rightarrow> v)"

lemma mergeMap_Cons:
  "mergeMap d ((k, v) # s) = mergeMap (AList.update k (merge_val (map_of d k) v) d) s"
  by (auto simp: merge_val_def split: any.splits option.splits)

lemma map_of_mergeMap:
  "gm_wf s \<Longrightarrow>
   map_of (mergeMap d s) k =
     (case map_of s k of None \<Rightarrow> map_of d k | Some v \<Rightarrow> Some (merge_val (map_of d k) v))"
proof (induction s arbitrary: d)
  case Nil
  then show ?case by simp
next
  case (Cons kv s)
  obtain q v where kv: "kv = (q, v)" by (cases kv)
  with Cons.prems have wf: "gm_wf s" and q: "map_of s q = None"
    by (auto simp: gm_wf_def map_of_eq_None_iff)
  show ?case
    unfolding kv mergeMap_Cons Cons.IH [OF wf]
    using q by (auto simp: gomap split: option.splits)
qed

lemma merge_leaf:
  "wf_map s \<Longrightarrow> lookup_path s p = Some v \<Longrightarrow> \<not> is_map v \<Longrightarrow> lookup_path (mergeMap d s) p = Some v"
proof (induction s p arbitrary: d rule: lookup_path.induct)
  case (1 m)
  then show ?case by simp
next
  case (2 m k)
  then show ?case
    by (auto simp: map_of_mergeMap wf_mapD merge_val_def is_map_def split: any.splits option.splits)
next
  case (3 m k l ks)
  from 3(3) obtain x where x: "map_of m k = Some (AMap x)" and lx: "lookup_path x (l # ks) = Some v"
    by (auto split: option.splits any.splits)
  have wx: "wf_map x" using 3(2) x by (rule wf_map_nested)
  have ih: "lookup_path (mergeMap d' x) (l # ks) = Some v" for d'
    using 3(1) x wx lx 3(4) by blast
  show ?case
    using x lx ih wf_mapD [OF 3(2)]
    by (auto simp: map_of_mergeMap merge_val_def split: option.splits any.splits)
qed

lemma merge_keep:
  "wf_map s \<Longrightarrow> untouched s p \<Longrightarrow> lookup_path d p = Some v \<Longrightarrow> lookup_path (mergeMap d s) p = Some v"
proof (induction s p arbitrary: d rule: untouched.induct)
  case (1 m)
  then show ?case by simp
next
  case (2 m k)
  then show ?case by (simp add: map_of_mergeMap wf_mapD)
next
  case (3 m k l ks)
  from 3(4) obtain y where y: "map_of d k = Some (AMap y)" and ly: "lookup_path y (l # ks) = Some v"
    by (auto split: option.splits any.splits)
  show ?case
  proof (cases "map_of m k")
    case None
    with y ly wf_mapD [OF 3(2)] show ?thesis by (simp add: map_of_mergeMap)
  next
    case (Some w)
    with 3(3) obtain x where x: "map_of m k = Some (AMap x)" and ux: "untouched x (l # ks)"
      by (auto split: any.splits)
    have "lookup_path (mergeMap y x) (l # ks) = Some v"
      using 3(1) x wf_map_nested [OF 3(2) x] ux ly by blast
    with x y wf_mapD [OF 3(2)] show ?thesis by (simp add: map_of_mergeMap merge_val_def)
  qed
qed

section \<open>Lemmas on normalisation\<close>

text \<open>What the YAML decoder returns: distinct keys in every \<open>map[string]any\<close>, however deep.\<close>

function wf_val :: "any \<Rightarrow> bool" where
  "wf_val v \<longleftrightarrow>
     (case v of
        AMap m \<Rightarrow> gm_wf m \<and> (\<forall>kv \<in> set m. wf_val (snd kv))
      | AAnyMap m \<Rightarrow> (\<forall>kv \<in> set m. wf_val (snd kv))
      | _ \<Rightarrow> True)"
  by pat_completeness auto
termination
proof (relation "measure size", goal_cases)
  case 1
  then show ?case by simp
next
  case (2 v m kv)
  then show ?case using size_map_member [of "fst kv" "snd kv" m] by simp
next
  case (3 v m kv)
  have "size (snd kv) < size_list (size_prod size size) m"
    using 3(2) by (induction m) auto
  with 3 show ?case by simp
qed

declare wf_val.simps [simp del]

lemma stringKeys_wf: "gm_wf (stringKeys f m)"
  unfolding stringKeys_def
  using gm.wf_fold_put [of "[]" "map (\<lambda>(nk, nv). (f nk, nv)) m"]
  by (simp add: fold_map comp_def case_prod_beta')

lemma update_values: "(q, w) \<in> set (AList.update k v m) \<Longrightarrow> w = v \<or> (q, w) \<in> set m"
  by (induction m) (auto split: if_splits)

lemma fold_update_values:
  "(q, w) \<in> set (fold (\<lambda>(nk, nv). AList.update (f nk) nv) m acc) \<Longrightarrow>
   (\<exists>nk. (nk, w) \<in> set m) \<or> (q, w) \<in> set acc"
proof (induction m arbitrary: acc)
  case Nil
  then show ?case by simp
next
  case (Cons x m)
  then show ?case by (cases x) (fastforce dest: update_values)
qed

lemma stringKeys_values: "(q, w) \<in> set (stringKeys f m) \<Longrightarrow> \<exists>nk. (nk, w) \<in> set m"
  unfolding stringKeys_def by (auto dest: fold_update_values)

lemma wf_val_stringKeys: "wf_val (AAnyMap m) \<Longrightarrow> wf_val (AMap (stringKeys f m))"
  by (auto simp: wf_val.simps [of "AAnyMap m"] wf_val.simps [of "AMap (stringKeys f m)"] stringKeys_wf
      dest!: stringKeys_values)

lemma wf_map_normalizeMap: "wf_val (AMap m) \<Longrightarrow> wf_map (normalizeMap f m)"
proof (induction f m rule: normalizeMap.induct)
  case (1 f m)
  have wf: "gm_wf m" and vals: "\<And>k v. (k, v) \<in> set m \<Longrightarrow> wf_val v"
    using 1(3) by (auto simp: wf_val.simps [of "AMap m"])
  have "case snd kv of AMap x \<Rightarrow> wf_map x | AAnyMap _ \<Rightarrow> False | _ \<Rightarrow> True"
    if "kv \<in> set (normalizeMap f m)" for kv
  proof -
    from that obtain k v where kv: "(k, v) \<in> set m"
      and snd: "snd kv = (case v of AMap t \<Rightarrow> AMap (normalizeMap f t)
                 | AAnyMap t \<Rightarrow> AMap (normalizeMap f (stringKeys f t)) | _ \<Rightarrow> v)"
      by (subst (asm) normalizeMap.simps) auto
    show ?thesis
      using 1(1) [OF kv refl] 1(2) [OF kv refl] vals [OF kv] wf_val_stringKeys [of _ f]
      by (cases v) (auto simp: snd)
  qed
  moreover have "gm_wf (normalizeMap f m)"
    using wf by (subst normalizeMap.simps) (simp add: gm_wf_def comp_def case_prod_beta')
  ultimately show ?case by (subst wf_map.simps) blast
qed

section \<open>Lemmas on the loader\<close>

text \<open>The normalised contents of one layer file, if it can be read and parsed.\<close>

definition layer :: "'app load_env \<Rightarrow> string \<Rightarrow> string \<Rightarrow> (string \<times> any) list option" where
  "layer env dir name =
     (case le_ReadFile env (filepath_Join [dir, name]) of
        Inl _ \<Rightarrow> None
      | Inr content \<Rightarrow>
          (case le_UnmarshalMap env (expand (le_Getenv env) content) of
             Inl _ \<Rightarrow> None
           | Inr src \<Rightarrow> Some (normalizeMap (le_Sprint env) src)))"

definition decoder_wf :: "'app load_env \<Rightarrow> bool" where
  "decoder_wf env \<longleftrightarrow> (\<forall>txt src. le_UnmarshalMap env txt = Inr src \<longrightarrow> wf_val (AMap src))"

lemma layer_wf: "decoder_wf env \<Longrightarrow> layer env dir name = Some s \<Longrightarrow> wf_map s"
  by (auto simp: layer_def decoder_wf_def split: sum.splits intro!: wf_map_normalizeMap)

lemma mergeFiles_Cons:
  "mergeFiles env dir raw (n # ns) = Inr out \<Longrightarrow>
   mergeFiles env dir (case layer env dir n of None \<Rightarrow> raw | Some s \<Rightarrow> mergeMap raw s) ns = Inr out"
  by (auto simp: mergeFile_def layer_def os_IsNotExist_def os_ErrNotExist_def split: sum.splits if_splits)

lemma mergeFiles_append:
  "mergeFiles env dir raw (xs @ ys) = Inr out \<Longrightarrow> \<exists>mid. mergeFiles env dir mid ys = Inr out"
proof (induction xs arbitrary: raw)
  case Nil
  then show ?case by auto
next
  case (Cons x xs)
  from Cons.prems have "mergeFiles env dir raw (x # (xs @ ys)) = Inr out" by simp
  from mergeFiles_Cons [OF this] show ?case by (rule Cons.IH)
qed

lemma mergeFiles_keep:
  assumes "decoder_wf env"
  shows "mergeFiles env dir raw ns = Inr out \<Longrightarrow> lookup_path raw p = Some v \<Longrightarrow>
    (\<And>n t. n \<in> set ns \<Longrightarrow> layer env dir n = Some t \<Longrightarrow> untouched t p) \<Longrightarrow> lookup_path out p = Some v"
proof (induction ns arbitrary: raw)
  case Nil
  then show ?case by simp
next
  case (Cons n ns)
  let ?raw = "case layer env dir n of None \<Rightarrow> raw | Some s \<Rightarrow> mergeMap raw s"
  have "lookup_path ?raw p = Some v"
    using Cons.prems(2) Cons.prems(3) [of n] merge_keep layer_wf [OF assms]
    by (auto split: option.splits)
  with mergeFiles_Cons [OF Cons.prems(1)] Cons.prems(3) show ?case
    by (intro Cons.IH [of ?raw]) auto
qed

lemma Load_raw:
  assumes "Load env opts = Inr b"
    and "\<And>d c c'. le_UnmarshalCore env d c = Inr c' \<Longrightarrow> c_Raw c' = c_Raw c"
  shows "mergeFiles env (if lo_ConfigDir opts = [] then ''config'' else lo_ConfigDir opts) []
    (loadFiles env opts) = Inr (c_Raw (b_Core b))"
  using assms by (auto simp: Load_def Let_def split: sum.splits if_splits)

section \<open>Properties\<close>

text \<open>C4: layered configuration. When \<open>Load\<close> succeeds, a leaf setting found in one of the layer
  files and left alone by the files after it in the order base, environment, service, local has
  the value that file gives it, whatever the earlier files say.\<close>

theorem load_layer_precedence:
  assumes "decoder_wf env"
    and "\<And>d c c'. le_UnmarshalCore env d c = Inr c' \<Longrightarrow> c_Raw c' = c_Raw c"
    and "Load env opts = Inr b"
    and "dir = (if lo_ConfigDir opts = [] then ''config'' else lo_ConfigDir opts)"
    and "loadFiles env opts = pre @ name # post"
    and "layer env dir name = Some s" and "lookup_path s p = Some v" and "\<not> is_map v"
    and "\<And>n t. n \<in> set post \<Longrightarrow> layer env dir n = Some t \<Longrightarrow> untouched t p"
  shows "lookup_path (c_Raw (b_Core b)) p = Some v"
proof -
  from Load_raw [OF assms(3,2)] assms(4,5)
  have "mergeFiles env dir [] (pre @ name # post) = Inr (c_Raw (b_Core b))" by simp
  then obtain mid where "mergeFiles env dir mid (name # post) = Inr (c_Raw (b_Core b))"
    using mergeFiles_append by blast
  from mergeFiles_Cons [OF this] assms(6)
  have "mergeFiles env dir (mergeMap mid s) post = Inr (c_Raw (b_Core b))" by simp
  moreover have "lookup_path (mergeMap mid s) p = Some v"
    using layer_wf [OF assms(1,6)] assms(7,8) by (rule merge_leaf)
  ultimately show ?thesis using mergeFiles_keep [OF assms(1)] assms(9) by blast
qed

text \<open>A project with a base file and a local override, used by the concrete instances.\<close>

definition demo_env :: "unit load_env" where
  "demo_env =
     \<lparr>le_Getenv = (\<lambda>_. []),
      le_ReadFile = (\<lambda>p. if p = ''config/base.yaml'' \<or> p = ''config/local.yaml'' then Inr p
                        else Inl os_ErrNotExist),
      le_UnmarshalMap = (\<lambda>t. if t = ''config/base.yaml''
         then Inr [(''gateway'', AMap [(''port'', AInt 8080), (''listen_ip'', AString ''0.0.0.0'')])]
         else Inr [(''gateway'', AMap [(''port'', AInt 9090)])]),
      le_Marshal = (\<lambda>_. Inr ''merged''),
      le_UnmarshalCore = (\<lambda>_ c. Inr c),
      le_UnmarshalApp = (\<lambda>_. Inr ()),
      le_ZeroApp = (),
      le_Sprint = (\<lambda>_. [])\<rparr>"

definition demo_opts :: LoadOptions where
  "demo_opts = \<lparr>lo_ConfigDir = [], lo_ServiceName = ''demo'', lo_Environment = ''production'',
     lo_EnableLocal = True\<rparr>"

lemma demo_loadFiles:
  "loadFiles demo_env demo_opts =
   [''base.yaml'', ''envs/production.yaml'', ''services/demo.yaml''] @ ''local.yaml'' # []"
  by code_simp

lemma demo_load: "\<not> isl (Load demo_env demo_opts)"
  by code_simp

lemma demo_local: "layer demo_env ''config'' ''local.yaml'' = Some [(''gateway'', AMap [(''port'', AInt 9090)])]"
  by code_simp

lemma demo_decoder_wf: "decoder_wf demo_env"
  by (auto simp: decoder_wf_def demo_env_def wf_val.simps gm_wf_def split: if_splits)

theorem load_layer_precedence_witness:
  "\<exists>b. Load demo_env demo_opts = Inr b \<and>
       lookup_path (c_Raw (b_Core b)) [''gateway'', ''port''] = Some (AInt 9090)"
proof -
  obtain b where b: "Load demo_env demo_opts = Inr b" using demo_load by (cases "Load demo_env demo_opts") auto
  have "lookup_path (c_Raw (b_Core b)) [''gateway'', ''port''] = Some (AInt 9090)"
    by (rule load_layer_precedence [OF demo_decoder_wf _ b _ demo_loadFiles, of "''config''", OF _ _ demo_local])
       (auto simp: demo_env_def demo_opts_def is_map_def)
  with b show ?thesis by blast
qed

text \<open>The requested environment selects the layer file but does not reach \<open>App.Env\<close>. When no
  layer sets \<open>app.env\<close>, the loaded core configuration says \<open>development\<close> for every requested
  environment, because the default configuration already fills the field the loader tests.\<close>

theorem load_env_stays_default:
  assumes "\<And>d c c'. le_UnmarshalCore env d c = Inr c' \<Longrightarrow> app_Env (c_App c') = app_Env (c_App c)"
    and "Load env opts = Inr b"
  shows "app_Env (c_App (b_Core b)) = ''development''"
proof -
  have d: "app_Env (c_App Default) = ''development''"
    by (simp add: Default_def)
  from assms show ?thesis
    by (auto simp: Load_def Let_def d split: sum.splits if_splits)
qed

theorem load_env_stays_default_witness:
  "\<exists>b. Load demo_env demo_opts = Inr b \<and> lo_Environment demo_opts = ''production'' \<and>
       app_Env (c_App (b_Core b)) = ''development''"
proof -
  obtain b where b: "Load demo_env demo_opts = Inr b" using demo_load by (cases "Load demo_env demo_opts") auto
  have "app_Env (c_App (b_Core b)) = ''development''"
    by (rule load_env_stays_default [OF _ b]) (simp add: demo_env_def)
  with b show ?thesis by (simp add: demo_opts_def)
qed

end
