(* ===== verification/SF_Breaker.thy ===== *)
theory SF_Breaker
  imports SF_Config "HOL-Library.Word" "HOL-Library.Multiset"
begin

text \<open>
  \<open>transport/gateway/circuitbreaker.go\<close>: the per-route circuit breaker. Every method runs under
  the breaker's mutex, so a method is one function from the breaker to the breaker; the clock
  reading \<open>b.now()\<close> of the call is its argument. A \<open>time.Time\<close> is the number of nanoseconds
  since the zero time, so \<open>IsZero\<close> is \<open>0\<close>. The generation counter is a 64-bit word.

  The second half puts the breaker among concurrent callers: a step relation whose state holds
  the breaker, the clock and the generation tokens of the calls in flight.
\<close>

section \<open>The breaker\<close>

datatype circuitState = stateClosed | stateHalfOpen | stateOpen

fun state_String :: "circuitState \<Rightarrow> string" where
  "state_String stateClosed = ''closed''"
| "state_String stateHalfOpen = ''half-open''"
| "state_String stateOpen = ''open''"

text \<open>The constants are numbered by \<open>iota\<close> in declaration order.\<close>

instantiation circuitState :: linorder
begin

definition iota_of :: "circuitState \<Rightarrow> nat" where
  "iota_of s = (case s of stateClosed \<Rightarrow> 0 | stateHalfOpen \<Rightarrow> 1 | stateOpen \<Rightarrow> 2)"

definition less_eq_circuitState :: "circuitState \<Rightarrow> circuitState \<Rightarrow> bool" where
  "less_eq_circuitState a b \<longleftrightarrow> iota_of a \<le> iota_of b"

definition less_circuitState :: "circuitState \<Rightarrow> circuitState \<Rightarrow> bool" where
  "less_circuitState a b \<longleftrightarrow> iota_of a < iota_of b"

instance
  by standard (auto simp: less_eq_circuitState_def less_circuitState_def iota_of_def
      split: circuitState.splits)

end

definition defaultBreakerMinRequests :: int where "defaultBreakerMinRequests = 20"
definition defaultBreakerFailureRatio :: float64 where "defaultBreakerFailureRatio = Fin (1 / 2)"
definition defaultBreakerWindow :: int where "defaultBreakerWindow = 10 * second"
definition defaultBreakerOpenTimeout :: int where "defaultBreakerOpenTimeout = 5 * second"
definition defaultBreakerHalfOpenMaxCalls :: int where "defaultBreakerHalfOpenMaxCalls = 1"

lemmas breaker_defaults =
  defaultBreakerMinRequests_def defaultBreakerFailureRatio_def defaultBreakerWindow_def
  defaultBreakerOpenTimeout_def defaultBreakerHalfOpenMaxCalls_def second_def

record breakerCounts =
  requests :: int
  successes :: int
  failures :: int

definition zeroCounts :: breakerCounts where
  "zeroCounts = \<lparr>requests = 0, successes = 0, failures = 0\<rparr>"

record circuitBreaker =
  minRequests :: int
  failureRatio :: float64
  window :: int
  openTimeout :: int
  halfOpenMaxCalls :: int
  phase :: circuitState
  generation :: "64 word"
  counts :: breakerCounts
  expiry :: int

text \<open>\<open>errorCode\<close> of \<open>retry.go\<close>: the framework code of an attempt error.\<close>

definition errorCode :: "errors_pkg \<Rightarrow> go_error \<Rightarrow> code" where
  "errorCode E err =
     (case err of
        AppError c _ _ _ _ _ \<Rightarrow> c
      | _ \<Rightarrow> (case FromGRPCError E (Some err) of Some ae \<Rightarrow> ae_Code ae | None \<Rightarrow> CodeInternal))"

definition isBreakerFailure :: "errors_pkg \<Rightarrow> go_error option \<Rightarrow> bool" where
  "isBreakerFailure E err =
     (case err of
        None \<Rightarrow> False
      | Some e \<Rightarrow> errorCode E e \<in> {CodeUnavailable, CodeDeadlineExceeded, CodeInternal})"

definition newCircuitBreaker :: "CircuitBreakerConfig option \<Rightarrow> circuitBreaker option" where
  "newCircuitBreaker cfg =
     map_option (\<lambda>c.
       \<lparr>minRequests = (if cb_MinRequests c \<le> 0 then defaultBreakerMinRequests else cb_MinRequests c),
        failureRatio = (if fle (cb_FailureRatio c) (Fin 0) then defaultBreakerFailureRatio
                        else cb_FailureRatio c),
        window = (if cb_Window c \<le> 0 then defaultBreakerWindow else cb_Window c),
        openTimeout = (if cb_OpenTimeout c \<le> 0 then defaultBreakerOpenTimeout else cb_OpenTimeout c),
        halfOpenMaxCalls = (if cb_HalfOpenMaxCalls c \<le> 0 then defaultBreakerHalfOpenMaxCalls
                            else cb_HalfOpenMaxCalls c),
        phase = stateClosed, generation = 0, counts = zeroCounts, expiry = 0\<rparr>) cfg"

definition toNewGeneration :: "int \<Rightarrow> circuitBreaker \<Rightarrow> circuitBreaker" where
  "toNewGeneration now b =
     b\<lparr>generation := generation b + 1,
       counts := zeroCounts,
       expiry := (case phase b of
                    stateClosed \<Rightarrow> now + window b
                  | stateOpen \<Rightarrow> now + openTimeout b
                  | stateHalfOpen \<Rightarrow> 0)\<rparr>"

definition setState :: "circuitState \<Rightarrow> int \<Rightarrow> circuitBreaker \<Rightarrow> circuitBreaker" where
  "setState st now b = (if phase b = st then b else toNewGeneration now (b\<lparr>phase := st\<rparr>))"

text \<open>\<open>currentState\<close> returns the phase and the generation of the breaker it leaves behind.\<close>

definition currentState :: "int \<Rightarrow> circuitBreaker \<Rightarrow> circuitBreaker" where
  "currentState now b =
     (case phase b of
        stateClosed \<Rightarrow>
          if expiry b = 0 then b\<lparr>expiry := now + window b\<rparr>
          else if \<not> now < expiry b then toNewGeneration now b
          else b
      | stateOpen \<Rightarrow> if \<not> now < expiry b then setState stateHalfOpen now b else b
      | stateHalfOpen \<Rightarrow> b)"

definition readyToTrip :: "circuitBreaker \<Rightarrow> bool" where
  "readyToTrip b \<longleftrightarrow>
     \<not> requests (counts b) < minRequests b \<and>
     fle (failureRatio b) (float_ratio (failures (counts b)) (requests (counts b)))"

definition onSuccess :: "circuitState \<Rightarrow> int \<Rightarrow> circuitBreaker \<Rightarrow> circuitBreaker" where
  "onSuccess st now b =
     (let b1 = b\<lparr>counts := (counts b)\<lparr>successes := successes (counts b) + 1\<rparr>\<rparr>
      in if st = stateHalfOpen \<and> successes (counts b1) \<ge> halfOpenMaxCalls b1
         then setState stateClosed now b1 else b1)"

definition onFailure :: "circuitState \<Rightarrow> int \<Rightarrow> circuitBreaker \<Rightarrow> circuitBreaker" where
  "onFailure st now b =
     (case st of
        stateClosed \<Rightarrow>
          (let b1 = b\<lparr>counts := (counts b)\<lparr>failures := failures (counts b) + 1\<rparr>\<rparr>
           in if readyToTrip b1 then setState stateOpen now b1 else b1)
      | stateHalfOpen \<Rightarrow> setState stateOpen now b
      | stateOpen \<Rightarrow> b)"

definition beforeRequest :: "int \<Rightarrow> circuitBreaker \<Rightarrow> circuitBreaker \<times> 64 word \<times> bool" where
  "beforeRequest now b =
     (let b1 = currentState now b; gen = generation b1
      in if phase b1 = stateOpen then (b1, gen, False)
         else if phase b1 = stateHalfOpen \<and> requests (counts b1) \<ge> halfOpenMaxCalls b1
         then (b1, gen, False)
         else (b1\<lparr>counts := (counts b1)\<lparr>requests := requests (counts b1) + 1\<rparr>\<rparr>, gen, True))"

definition afterRequest :: "int \<Rightarrow> 64 word \<Rightarrow> bool \<Rightarrow> circuitBreaker \<Rightarrow> circuitBreaker" where
  "afterRequest now gen success b =
     (let b1 = currentState now b
      in if generation b1 \<noteq> gen then b1
         else if success then onSuccess (phase b1) now b1
         else onFailure (phase b1) now b1)"

definition breaker_state :: "int \<Rightarrow> circuitBreaker \<Rightarrow> circuitBreaker \<times> circuitState" where
  "breaker_state now b = (let b1 = currentState now b in (b1, phase b1))"

lemmas breaker_ops =
  toNewGeneration_def setState_def currentState_def onSuccess_def onFailure_def
  beforeRequest_def afterRequest_def breaker_state_def zeroCounts_def Let_def

section \<open>Callers in flight\<close>

record cb_sys =
  cb :: circuitBreaker
  clk :: int
  pend :: "64 word multiset"

text \<open>
  One step is one method call under the mutex at some later clock reading: a call admitted or
  rejected, the completion of a call in flight, a call whose completion is never reported (the
  caller panicked), or a status query. \<open>gen_room\<close> bounds the runs considered to those in which
  the 64-bit generation counter has not wrapped around.
\<close>

definition gen_room :: "circuitBreaker \<Rightarrow> bool" where
  "gen_room b \<longleftrightarrow> unat (generation b) + 2 < 2 ^ 64"

inductive cb_step :: "cb_sys \<Rightarrow> cb_sys \<Rightarrow> bool" where
  admit: "clk s \<le> t \<Longrightarrow> gen_room (cb s) \<Longrightarrow> beforeRequest t (cb s) = (b', g, True) \<Longrightarrow>
     cb_step s (s\<lparr>cb := b', clk := t, pend := add_mset g (pend s)\<rparr>)"
| reject: "clk s \<le> t \<Longrightarrow> gen_room (cb s) \<Longrightarrow> beforeRequest t (cb s) = (b', g, False) \<Longrightarrow>
     cb_step s (s\<lparr>cb := b', clk := t\<rparr>)"
| complete: "clk s \<le> t \<Longrightarrow> gen_room (cb s) \<Longrightarrow> g \<in># pend s \<Longrightarrow>
     cb_step s (s\<lparr>cb := afterRequest t g ok (cb s), clk := t, pend := pend s - {#g#}\<rparr>)"
| lose: "g \<in># pend s \<Longrightarrow> cb_step s (s\<lparr>pend := pend s - {#g#}\<rparr>)"
| query: "clk s \<le> t \<Longrightarrow> gen_room (cb s) \<Longrightarrow> breaker_state t (cb s) = (b', st) \<Longrightarrow>
     cb_step s (s\<lparr>cb := b', clk := t\<rparr>)"

definition cb_init :: "cb_sys \<Rightarrow> bool" where
  "cb_init s \<longleftrightarrow> (\<exists>c. newCircuitBreaker (Some c) = Some (cb s)) \<and> 0 < clk s \<and> pend s = {#}"

section \<open>The invariant\<close>

definition cb_params :: "circuitBreaker \<Rightarrow> bool" where
  "cb_params b \<longleftrightarrow>
     0 < minRequests b \<and> 0 < window b \<and> 0 < openTimeout b \<and> 0 < halfOpenMaxCalls b \<and>
     \<not> fle (failureRatio b) (Fin 0)"

text \<open>
  The counters of the current generation account for every outcome recorded in it and every
  token of it still in flight; an open breaker has counted nothing; a half-open breaker has
  handed out at most its probe budget, has seen no failure and not yet enough successes.
\<close>

definition cb_ok :: "circuitBreaker \<Rightarrow> 64 word multiset \<Rightarrow> bool" where
  "cb_ok b P \<longleftrightarrow>
     cb_params b \<and>
     (\<forall>g \<in># P. unat g \<le> unat (generation b)) \<and>
     0 \<le> successes (counts b) \<and> 0 \<le> failures (counts b) \<and>
     successes (counts b) + failures (counts b) + int (count P (generation b)) \<le> requests (counts b) \<and>
     (phase b = stateOpen \<longrightarrow> requests (counts b) = 0) \<and>
     (phase b = stateHalfOpen \<longrightarrow>
        requests (counts b) \<le> halfOpenMaxCalls b \<and> failures (counts b) = 0 \<and>
        successes (counts b) < halfOpenMaxCalls b \<and> expiry b = 0)"

definition cb_inv :: "cb_sys \<Rightarrow> bool" where
  "cb_inv s \<longleftrightarrow> cb_ok (cb s) (pend s) \<and> 0 < clk s"

lemma newCircuitBreaker_params: "newCircuitBreaker (Some c) = Some b \<Longrightarrow> cb_params b"
  by (auto simp: newCircuitBreaker_def cb_params_def breaker_defaults split: if_splits)

lemma newCircuitBreaker_closed:
  "newCircuitBreaker (Some c) = Some b \<Longrightarrow> phase b = stateClosed \<and> counts b = zeroCounts \<and> expiry b = 0"
  by (auto simp: newCircuitBreaker_def)

lemma newCircuitBreaker_ratio:
  "newCircuitBreaker (Some c) = Some b \<Longrightarrow> \<not> fle (cb_FailureRatio c) (Fin 0) \<Longrightarrow>
   failureRatio b = cb_FailureRatio c"
  by (auto simp: newCircuitBreaker_def)

lemma unat_generation_Suc:
  "unat g + 1 < 2 ^ 64 \<Longrightarrow> unat (g + 1 :: 64 word) = unat g + 1"
  by (simp add: unat_word_ariths)

lemma generation_neq [simp]: "g + 1 \<noteq> (g :: 64 word)"
  by simp

lemma toNewGeneration_ok:
  assumes "cb_params b" and "\<forall>g \<in># P. unat g \<le> unat (generation b)"
    and "unat (generation b) + 1 < 2 ^ 64"
  shows "cb_ok (toNewGeneration now b) P"
proof -
  have u: "unat (generation b + 1) = unat (generation b) + 1"
    using assms(3) by (rule unat_generation_Suc)
  have "generation b + 1 \<notin># P"
    using assms(2) u by fastforce
  then have "count P (generation b + 1) = 0" by (simp add: not_in_iff)
  with assms u show ?thesis
    by (auto simp: cb_ok_def toNewGeneration_def zeroCounts_def cb_params_def)
qed

lemma setState_ok:
  assumes "cb_params b" and "\<forall>g \<in># P. unat g \<le> unat (generation b)"
    and "unat (generation b) + 1 < 2 ^ 64" and "phase b \<noteq> st"
  shows "cb_ok (setState st now b) P"
  using toNewGeneration_ok [of "b\<lparr>phase := st\<rparr>" P now] assms
  by (simp add: setState_def cb_params_def)

lemma currentState_ok:
  assumes "cb_ok b P" and "gen_room b"
  shows "cb_ok (currentState now b) P" and "unat (generation (currentState now b)) + 1 < 2 ^ 64"
proof -
  have p: "cb_params b" and g: "\<forall>g \<in># P. unat g \<le> unat (generation b)"
    and r: "unat (generation b) + 1 < 2 ^ 64"
    using assms by (auto simp: cb_ok_def gen_room_def)
  show "cb_ok (currentState now b) P"
    using assms(1) toNewGeneration_ok [OF p g r, of now] setState_ok [OF p g r, of stateHalfOpen now]
    by (cases "phase b") (auto simp: currentState_def, auto simp: cb_ok_def cb_params_def)
  show "unat (generation (currentState now b)) + 1 < 2 ^ 64"
    using assms(2) unat_generation_Suc [OF r]
    by (auto simp: currentState_def setState_def toNewGeneration_def gen_room_def split: circuitState.splits)
qed

lemma beforeRequest_ok:
  assumes "cb_ok b P" and "gen_room b" and "beforeRequest now b = (b', g, adm)"
  shows "cb_ok b' (if adm then add_mset g P else P)"
proof -
  define c where "c = currentState now b"
  have ok: "cb_ok c P" unfolding c_def by (rule currentState_ok [OF assms(1,2)])
  let ?c1 = "c\<lparr>counts := (counts c)\<lparr>requests := requests (counts c) + 1\<rparr>\<rparr>"
  have new: "cb_ok ?c1 (add_mset (generation c) P)"
    if "phase c \<noteq> stateOpen" and "phase c = stateHalfOpen \<Longrightarrow> requests (counts c) < halfOpenMaxCalls c"
    using ok that by (auto simp: cb_ok_def cb_params_def)
  from assms(3) ok new show ?thesis
    by (auto simp: beforeRequest_def Let_def c_def [symmetric] split: if_splits)
qed

lemma onSuccess_ok:
  assumes "cb_ok b P" and "generation b \<in># P" and "unat (generation b) + 1 < 2 ^ 64"
  shows "cb_ok (onSuccess (phase b) now b) (P - {#generation b#})"
proof -
  let ?P = "P - {#generation b#}" and ?b1 = "b\<lparr>counts := (counts b)\<lparr>successes := successes (counts b) + 1\<rparr>\<rparr>"
  have g: "\<forall>g \<in># ?P. unat g \<le> unat (generation b)" and p: "cb_params b"
    using assms(1) by (auto simp: cb_ok_def dest: in_diffD)
  have c: "int (count ?P (generation b)) = int (count P (generation b)) - 1"
    using assms(2) by simp
  show ?thesis
  proof (cases "phase b = stateHalfOpen \<and> halfOpenMaxCalls b \<le> successes (counts b) + 1")
    case True
    then show ?thesis
      using setState_ok [of ?b1 ?P stateClosed now] g p assms(3)
      by (simp add: onSuccess_def Let_def cb_params_def)
  next
    case False
    with assms(1) g c have "cb_ok ?b1 ?P"
      by (auto simp: cb_ok_def cb_params_def)
    with False show ?thesis by (auto simp: onSuccess_def Let_def)
  qed
qed

lemma onFailure_ok:
  assumes "cb_ok b P" and "generation b \<in># P" and "unat (generation b) + 1 < 2 ^ 64"
  shows "cb_ok (onFailure (phase b) now b) (P - {#generation b#})"
proof -
  let ?P = "P - {#generation b#}" and ?b1 = "b\<lparr>counts := (counts b)\<lparr>failures := failures (counts b) + 1\<rparr>\<rparr>"
  have g: "\<forall>g \<in># ?P. unat g \<le> unat (generation b)" and p: "cb_params b"
    using assms(1) by (auto simp: cb_ok_def dest: in_diffD)
  have c: "int (count ?P (generation b)) = int (count P (generation b)) - 1"
    using assms(2) by simp
  show ?thesis
  proof (cases "phase b")
    case stateClosed
    have "cb_ok ?b1 ?P" using assms(1) g c stateClosed by (auto simp: cb_ok_def cb_params_def)
    moreover have "cb_ok (setState stateOpen now ?b1) ?P"
      using setState_ok [of ?b1 ?P stateOpen now] g p assms(3) stateClosed by (simp add: cb_params_def)
    ultimately show ?thesis using stateClosed by (simp add: onFailure_def Let_def)
  next
    case stateHalfOpen
    then show ?thesis using setState_ok [of b ?P stateOpen now] g p assms(3) by (simp add: onFailure_def)
  next
    case stateOpen
    with assms(1,2) have False by (auto simp: cb_ok_def count_greater_zero_iff [symmetric] simp del: count_greater_zero_iff)
    then show ?thesis ..
  qed
qed

lemma cb_ok_diff: "cb_ok b P \<Longrightarrow> g \<noteq> generation b \<Longrightarrow> cb_ok b (P - {#g#})"
  by (auto simp: cb_ok_def dest: in_diffD)

lemma cb_ok_drop: "cb_ok b P \<Longrightarrow> cb_ok b (P - {#g#})"
  by (auto simp: cb_ok_def dest: in_diffD)

lemma afterRequest_ok:
  assumes "cb_ok b P" and "gen_room b" and "g \<in># P"
  shows "cb_ok (afterRequest now g success b) (P - {#g#})"
  using currentState_ok [OF assms(1,2), of now] onSuccess_ok onFailure_ok cb_ok_diff assms(3)
  by (auto simp: afterRequest_def Let_def)

interpretation cbm: machine cb_init cb_step cb_inv
proof unfold_locales
  fix s assume "cb_init s"
  then show "cb_inv s"
    by (auto simp: cb_init_def cb_inv_def cb_ok_def zeroCounts_def dest: newCircuitBreaker_params newCircuitBreaker_closed)
next
  fix s t assume "cb_inv s" and "cb_step s t"
  from this(2,1) show "cb_inv t"
  proof (induction rule: cb_step.induct)
    case (admit s t b' g)
    then show ?case using beforeRequest_ok [of "cb s" "pend s" t b' g True] by (auto simp: cb_inv_def)
  next
    case (reject s t b' g)
    then show ?case using beforeRequest_ok [of "cb s" "pend s" t b' g False] by (auto simp: cb_inv_def)
  next
    case (complete s t g ok)
    then show ?case using afterRequest_ok by (auto simp: cb_inv_def)
  next
    case (lose g s)
    then show ?case by (auto simp: cb_inv_def cb_ok_drop)
  next
    case (query s t b' st)
    then show ?case using currentState_ok by (auto simp: cb_inv_def breaker_state_def Let_def)
  qed
qed

section \<open>Lemmas on single calls\<close>

inductive_cases cb_stepE: "cb_step s t"

lemma open_currentState: "phase b = stateOpen \<Longrightarrow> now < expiry b \<Longrightarrow> currentState now b = b"
  by (simp add: currentState_def)

lemma open_beforeRequest:
  "phase b = stateOpen \<Longrightarrow> now < expiry b \<Longrightarrow> beforeRequest now b = (b, generation b, False)"
  by (simp add: beforeRequest_def open_currentState)

lemma open_afterRequest:
  "phase b = stateOpen \<Longrightarrow> now < expiry b \<Longrightarrow> g \<noteq> generation b \<Longrightarrow> afterRequest now g ok b = b"
  by (simp add: afterRequest_def open_currentState)

lemma stale_afterRequest:
  "generation (currentState now b) \<noteq> g \<Longrightarrow> afterRequest now g ok b = currentState now b"
  by (simp add: afterRequest_def Let_def)

text \<open>An open breaker whose timeout has not passed is left alone by every step.\<close>

lemma open_step:
  assumes "cb_inv s" and "cb_step s t" and "phase (cb s) = stateOpen" and "clk t < expiry (cb s)"
  shows "cb t = cb s"
proof -
  have c0: "count (pend s) (generation (cb s)) = 0"
    using assms(1,3) by (auto simp: cb_inv_def cb_ok_def)
  then have stale: "g \<noteq> generation (cb s)" if "g \<in># pend s" for g
    using that by (auto simp: not_in_iff [symmetric])
  from assms(2) show ?thesis
  proof (cases rule: cb_step.cases)
    case (admit u b' g)
    with assms(3,4) show ?thesis by (auto simp: open_beforeRequest)
  next
    case (reject u b' g)
    with assms(3,4) show ?thesis by (auto simp: open_beforeRequest)
  next
    case (complete u g ok)
    with assms(3,4) stale show ?thesis by (auto simp: open_afterRequest)
  next
    case (lose g)
    then show ?thesis by simp
  next
    case (query u b' st)
    with assms(3,4) show ?thesis by (auto simp: breaker_state_def Let_def open_currentState)
  qed
qed

lemma step_clk: "cb_step s t \<Longrightarrow> clk s \<le> clk t"
  by (auto elim!: cb_step.cases)

lemma run_clk: "cb_step\<^sup>*\<^sup>* s t \<Longrightarrow> clk s \<le> clk t"
  by (induction rule: rtranclp_induct) (auto dest: step_clk)

lemma open_run:
  "cb_step\<^sup>*\<^sup>* s t \<Longrightarrow> cb_inv s \<Longrightarrow> phase (cb s) = stateOpen \<Longrightarrow> clk t < expiry (cb s) \<Longrightarrow> cb t = cb s"
proof (induction rule: rtranclp_induct)
  case base
  then show ?case by simp
next
  case (step u t)
  from step.prems(3) step_clk [OF step.hyps(2)] have "cb u = cb s"
    using step.IH step.prems by simp
  moreover have "cb_inv u" using step.prems(1) step.hyps(1) by (rule cbm.inv_run)
  ultimately show ?case using open_step [OF _ step.hyps(2)] step.prems by simp
qed

text \<open>A full half-open breaker rejects too, and these are the only cases.\<close>

lemma full_beforeRequest:
  "phase b = stateHalfOpen \<Longrightarrow> halfOpenMaxCalls b \<le> requests (counts b) \<Longrightarrow> beforeRequest now b = (b, generation b, False)"
  by (simp add: beforeRequest_def currentState_def Let_def)

lemma admitting_beforeRequest:
  assumes "0 < halfOpenMaxCalls b" and "\<not> (phase b = stateOpen \<and> now < expiry b)"
    and "\<not> (phase b = stateHalfOpen \<and> halfOpenMaxCalls b \<le> requests (counts b))"
  shows "snd (snd (beforeRequest now b))"
  using assms by (cases "phase b") (auto simp: breaker_ops)

section \<open>Properties of one call\<close>

text \<open>The exact trip rule of the code. A failure reported in the current generation of a closed
  breaker opens it exactly when the window has at least \<open>minRequests\<close> calls and the rounded quotient
  of failures and calls reaches the configured ratio, where the configuration comment says
  \<open>exceeds\<close>; otherwise only the failure counter moves.\<close>

theorem closed_failure_trips:
  assumes "phase b = stateClosed" and "expiry b \<noteq> 0" and "now < expiry b" and "g = generation b"
  shows "afterRequest now g False b =
    (if minRequests b \<le> requests (counts b) \<and>
        fle (failureRatio b) (float_ratio (failures (counts b) + 1) (requests (counts b)))
     then b\<lparr>phase := stateOpen, generation := g + 1, counts := zeroCounts, expiry := now + openTimeout b\<rparr>
     else b\<lparr>counts := (counts b)\<lparr>failures := failures (counts b) + 1\<rparr>\<rparr>)"
  using assms by (auto simp: breaker_ops readyToTrip_def)

definition demo_breaker :: circuitBreaker where
  "demo_breaker =
     \<lparr>minRequests = 4, failureRatio = Fin (1 / 2), window = 10 * second, openTimeout = 5 * second,
      halfOpenMaxCalls = 2, phase = stateClosed, generation = 7,
      counts = \<lparr>requests = 4, successes = 2, failures = 1\<rparr>, expiry = 100\<rparr>"

lemma demo_breaker_sel [simp]:
  "minRequests demo_breaker = 4" "failureRatio demo_breaker = Fin (1 / 2)"
  "openTimeout demo_breaker = 5 * second" "halfOpenMaxCalls demo_breaker = 2"
  "phase demo_breaker = stateClosed" "generation demo_breaker = 7"
  "requests (counts demo_breaker) = 4" "successes (counts demo_breaker) = 2"
  "failures (counts demo_breaker) = 1" "expiry demo_breaker = 100"
  by (simp_all only: demo_breaker_def circuitBreaker.simps breakerCounts.simps)

lemma demo_ratio: "float_ratio 2 4 = Fin (1 / 2)"
  by code_simp

lemma demo_threshold: "fl53 (1 / 2) = 1 / 2"
  by code_simp

lemma ratio_reached_trips: "phase (afterRequest 50 7 False demo_breaker) = stateOpen"
  using closed_failure_trips [of demo_breaker 50 7] by (simp add: demo_ratio)

text \<open>C18: the breaker trips above its threshold. Take a closed breaker within its counting window,
  with fewer than \<open>2\<^sup>5\<^sup>3\<close> calls counted in it and a threshold \<open>t\<close> that is a \<open>float64\<close>, and a call of
  the current generation that reports a failure. If the window has at least \<open>minRequests\<close> calls and
  the exact ratio of failures to calls, the new failure included, is greater than \<open>t\<close>, the breaker
  opens and rejects every call, unchanged, until \<open>openTimeout\<close> has passed. If the window has fewer
  than \<open>minRequests\<close> calls, or the quotient the code computes is below \<open>t\<close>, it stays closed and
  only the failure is counted.\<close>

theorem failures_above_threshold_trip:
  assumes "phase b = stateClosed" and "expiry b \<noteq> 0" and "now < expiry b"
    and "0 < minRequests b" and "failureRatio b = Fin t" and "0 < t" and "fl53 t = t"
    and "0 \<le> failures (counts b)" and "failures (counts b) < requests (counts b)" and "requests (counts b) < 2 ^ 53"
  shows "let f = failures (counts b) + 1; n = requests (counts b); b' = afterRequest now (generation b) False b
    in (minRequests b \<le> n \<and> t < of_int f / of_int n \<longrightarrow>
          b' = b\<lparr>phase := stateOpen, generation := generation b + 1, counts := zeroCounts, expiry := now + openTimeout b\<rparr> \<and>
          (\<forall>u < now + openTimeout b. beforeRequest u b' = (b', generation b', False))) \<and>
       (n < minRequests b \<or> \<not> fle (Fin t) (float_ratio f n) \<longrightarrow> b' = b\<lparr>counts := (counts b)\<lparr>failures := f\<rparr>\<rparr>)"
proof -
  let ?f = "failures (counts b) + 1" and ?n = "requests (counts b)"
  have "fle (Fin t) (float_ratio ?f ?n)" if "minRequests b \<le> ?n" "t < of_int ?f / of_int ?n"
    using that assms(4,6-10) by (intro float_ratio_exceeds) simp_all
  then show ?thesis
    using closed_failure_trips [OF assms(1-3) refl] assms(5) by (auto simp: Let_def open_beforeRequest)
qed

theorem failures_above_threshold_trip_witness:
  "let b = demo_breaker\<lparr>counts := \<lparr>requests = 4, successes = 1, failures = 2\<rparr>\<rparr>;
       c = demo_breaker\<lparr>counts := \<lparr>requests = 3, successes = 0, failures = 2\<rparr>\<rparr>
   in phase (afterRequest 50 7 False b) = stateOpen \<and>
      (\<forall>u < 50 + 5 * second. \<not> snd (snd (beforeRequest u (afterRequest 50 7 False b)))) \<and>
      phase (afterRequest 50 7 False c) = stateClosed"
  using failures_above_threshold_trip [of "demo_breaker\<lparr>counts := \<lparr>requests = 4, successes = 1, failures = 2\<rparr>\<rparr>" 50 "1 / 2"]
    failures_above_threshold_trip [of "demo_breaker\<lparr>counts := \<lparr>requests = 3, successes = 0, failures = 2\<rparr>\<rparr>" 50 "1 / 2"]
  by (simp add: demo_threshold Let_def second_def open_beforeRequest)

text \<open>C19: probing. A failure of a half-open probe reopens the breaker for a full \<open>openTimeout\<close>; a
  success closes it once \<open>halfOpenMaxCalls\<close> probes have succeeded, with fresh counters and a fresh
  window, and otherwise only counts.\<close>

theorem half_open_outcome:
  assumes "phase b = stateHalfOpen" and "g = generation b"
  shows "afterRequest now g False b =
      b\<lparr>phase := stateOpen, generation := g + 1, counts := zeroCounts, expiry := now + openTimeout b\<rparr> \<and>
    afterRequest now g True b =
      (if halfOpenMaxCalls b \<le> successes (counts b) + 1
       then b\<lparr>phase := stateClosed, generation := g + 1, counts := zeroCounts, expiry := now + window b\<rparr>
       else b\<lparr>counts := (counts b)\<lparr>successes := successes (counts b) + 1\<rparr>\<rparr>)"
  using assms by (auto simp: breaker_ops)

theorem half_open_outcome_witness:
  "phase (afterRequest 50 7 False (demo_breaker\<lparr>phase := stateHalfOpen\<rparr>)) = stateOpen \<and>
   phase (afterRequest 50 7 True (demo_breaker\<lparr>phase := stateHalfOpen\<rparr>)) = stateClosed"
  using half_open_outcome [of "demo_breaker\<lparr>phase := stateHalfOpen\<rparr>" 7 50] by simp

section \<open>Properties of runs\<close>

text \<open>C1: accounting under concurrency. In every state that callers can reach, the recorded outcomes
  of the current generation together with its calls in flight never exceed the calls admitted in
  it; a half-open breaker has at most \<open>halfOpenMaxCalls\<close> probes admitted, hence in flight; an open
  breaker has no call of its generation in flight.\<close>

theorem breaker_accounting:
  assumes "cb_init s0" and "cb_step\<^sup>*\<^sup>* s0 s"
  shows "successes (counts (cb s)) + failures (counts (cb s)) + int (count (pend s) (generation (cb s)))
           \<le> requests (counts (cb s)) \<and>
         (phase (cb s) = stateHalfOpen \<longrightarrow>
           requests (counts (cb s)) \<le> halfOpenMaxCalls (cb s) \<and>
           int (count (pend s) (generation (cb s))) \<le> halfOpenMaxCalls (cb s)) \<and>
         (phase (cb s) = stateOpen \<longrightarrow> generation (cb s) \<notin># pend s)"
proof -
  have "cb_ok (cb s) (pend s)" using cbm.inv_reachable [OF assms] by (simp add: cb_inv_def)
  then show ?thesis by (auto simp: cb_ok_def not_in_iff)
qed

definition demo_cfg :: CircuitBreakerConfig where
  "demo_cfg = \<lparr>cb_MinRequests = 1, cb_FailureRatio = Fin 0, cb_Window = 0, cb_OpenTimeout = 0,
     cb_HalfOpenMaxCalls = 0\<rparr>"

definition demo_new :: circuitBreaker where
  "demo_new =
     \<lparr>minRequests = 1, failureRatio = Fin (1 / 2), window = 10 * second, openTimeout = 5 * second,
      halfOpenMaxCalls = 1, phase = stateClosed, generation = 0, counts = zeroCounts, expiry = 0\<rparr>"

definition demo_sys :: cb_sys where
  "demo_sys = \<lparr>cb = demo_new, clk = 1, pend = {#}\<rparr>"

lemma demo_newCircuitBreaker: "newCircuitBreaker (Some demo_cfg) = Some demo_new"
  by code_simp

lemma demo_init: "cb_init demo_sys"
  unfolding cb_init_def using demo_newCircuitBreaker by (auto simp: demo_sys_def)

definition demo_sys1 :: cb_sys where
  "demo_sys1 = \<lparr>cb = (cb demo_sys)\<lparr>expiry := 2 + 10 * second,
      counts := \<lparr>requests = 1, successes = 0, failures = 0\<rparr>\<rparr>, clk = 2, pend = {#0#}\<rparr>"

definition demo_sys2 :: cb_sys where
  "demo_sys2 = \<lparr>cb = (cb demo_sys)\<lparr>phase := stateOpen, generation := 1, expiry := 3 + 5 * second\<rparr>,
     clk = 3, pend = {#}\<rparr>"

lemma demo_admit: "cb_step demo_sys demo_sys1"
proof -
  have "beforeRequest 2 (cb demo_sys) = (cb demo_sys1, 0, True)"
    by (simp add: demo_sys_def demo_sys1_def demo_new_def breaker_ops)
  from cb_step.admit [OF _ _ this] show ?thesis
    by (simp add: demo_sys_def demo_sys1_def gen_room_def demo_new_def)
qed

lemma demo_trip: "cb_step demo_sys1 demo_sys2"
proof -
  have "float_ratio 1 1 = Fin 1" using fr.ratio_all [of 1] by simp
  then have "afterRequest 3 0 False (cb demo_sys1) = cb demo_sys2"
    by (simp add: demo_sys_def demo_sys1_def demo_sys2_def demo_new_def breaker_ops second_def readyToTrip_def)
  with cb_step.complete [of demo_sys1 3 0 False] show ?thesis
    by (simp add: demo_sys_def demo_sys1_def demo_sys2_def gen_room_def demo_new_def)
qed

lemma demo_reach1: "cb_step\<^sup>*\<^sup>* demo_sys demo_sys1"
  using demo_admit by blast

lemma demo_reach2: "cb_step\<^sup>*\<^sup>* demo_sys demo_sys2"
  using demo_reach1 demo_trip by (rule rtranclp.rtrancl_into_rtrancl)

theorem breaker_accounting_witness:
  "int (count (pend demo_sys1) (generation (cb demo_sys1))) \<le> requests (counts (cb demo_sys1)) \<and>
   generation (cb demo_sys2) \<notin># pend demo_sys2"
  using breaker_accounting [OF demo_init demo_reach1] breaker_accounting [OF demo_init demo_reach2]
  by (simp add: demo_sys1_def demo_sys2_def)

text \<open>C40: an open breaker stays shut. From a reachable state with the breaker open, whatever the
  callers do (new calls, late completions, lost calls, queries), until the clock reaches the expiry
  the breaker is unchanged and every call is rejected.\<close>

theorem open_until_timeout:
  assumes "cb_init s0" and "cb_step\<^sup>*\<^sup>* s0 s" and "phase (cb s) = stateOpen"
    and "cb_step\<^sup>*\<^sup>* s t" and "clk t \<le> now" and "now < expiry (cb s)"
  shows "cb t = cb s \<and> beforeRequest now (cb t) = (cb s, generation (cb s), False)"
proof -
  have "cb_inv s" using assms(1,2) by (rule cbm.inv_reachable)
  then have "cb t = cb s" using open_run [OF assms(4)] assms(3,5,6) by simp
  then show ?thesis using open_beforeRequest assms(3,6) by simp
qed

theorem open_until_timeout_witness:
  "phase (cb demo_sys2) = stateOpen \<and>
   beforeRequest 100 (cb demo_sys2) = (cb demo_sys2, generation (cb demo_sys2), False)"
proof -
  have o: "phase (cb demo_sys2) = stateOpen" by (simp add: demo_sys2_def)
  show ?thesis
    using o open_until_timeout [OF demo_init demo_reach2 o rtranclp.rtrancl_refl, of 100]
    by (simp add: demo_sys2_def second_def)
qed

datatype cb_event = CBefore int | CAfter int "64 word" "go_error option" | CState int

fun cb_event_step :: "errors_pkg \<Rightarrow> cb_event \<Rightarrow> circuitBreaker \<Rightarrow> circuitBreaker" where
  "cb_event_step E (CBefore now) b = fst (beforeRequest now b)"
| "cb_event_step E (CAfter now g err) b = afterRequest now g (\<not> isBreakerFailure E err) b"
| "cb_event_step E (CState now) b = fst (breaker_state now b)"

fun harmless :: "errors_pkg \<Rightarrow> cb_event \<Rightarrow> bool" where
  "harmless E (CAfter now g (Some e)) =
     (errorCode E e \<notin> {CodeUnavailable, CodeDeadlineExceeded, CodeInternal})"
| "harmless E _ = True"

lemma closed_currentState: "phase b = stateClosed \<Longrightarrow> phase (currentState now b) = stateClosed"
  by (simp add: currentState_def toNewGeneration_def)

lemma harmless_step:
  assumes "phase b = stateClosed" and "harmless E ev"
  shows "phase (cb_event_step E ev b) = stateClosed"
proof (cases ev)
  case (CAfter now g err)
  with assms(2) have "\<not> isBreakerFailure E err"
    by (cases err) (auto simp: isBreakerFailure_def)
  then show ?thesis
    using CAfter closed_currentState [OF assms(1), of now]
    by (simp add: afterRequest_def onSuccess_def Let_def)
qed (use closed_currentState [OF assms(1)] in \<open>simp_all add: beforeRequest_def breaker_state_def Let_def\<close>)

text \<open>Only server-side failures open the breaker. In a run of calls whose errors are all nil or
  carry a code other than UNAVAILABLE, DEADLINE_EXCEEDED and INTERNAL, a closed breaker stays
  closed.\<close>

theorem client_errors_never_open:
  assumes "phase b = stateClosed" and "list_all (harmless E) evs"
  shows "phase (fold (cb_event_step E) evs b) = stateClosed"
  using assms by (induction evs arbitrary: b) (auto simp: harmless_step)

theorem client_errors_never_open_witness:
  "phase (fold (cb_event_step E0) [CBefore 10, CAfter 20 0 (Some (New E0 CodeInvalidArgument ''bad''))]
     demo_breaker) = stateClosed"
  by (rule client_errors_never_open) (simp_all add: errorCode_def New_def code_defs)

fun foreign :: "64 word \<Rightarrow> cb_event \<Rightarrow> bool" where
  "foreign g (CAfter _ g' _) = (g' \<noteq> g)"
| "foreign g _ = True"

section \<open>Runs with probes\<close>

text \<open>
  The calls begun in a run of events, the completions of generation \<open>g\<close> in it, and that none of
  these reports a failure.
\<close>

fun begins :: "cb_event list \<Rightarrow> nat" where
  "begins [] = 0"
| "begins (CBefore _ # evs) = Suc (begins evs)"
| "begins (_ # evs) = begins evs"

fun reports :: "64 word \<Rightarrow> cb_event list \<Rightarrow> nat" where
  "reports g [] = 0"
| "reports g (ev # evs) = (if foreign g ev then 0 else 1) + reports g evs"

fun healthy :: "errors_pkg \<Rightarrow> 64 word \<Rightarrow> cb_event \<Rightarrow> bool" where
  "healthy E g (CAfter _ g' err) = (g' = g \<longrightarrow> \<not> isBreakerFailure E err)"
| "healthy E g _ = True"

lemma begins_append [simp]: "begins (xs @ ys) = begins xs + begins ys"
  by (induction xs rule: begins.induct) auto

lemma reports_append [simp]: "reports g (xs @ ys) = reports g xs + reports g ys"
  by (induction xs) auto

text \<open>The half-open successor of an open breaker after \<open>n\<close> attempts to call and \<open>m\<close> successes.\<close>

definition half_open :: "circuitBreaker \<Rightarrow> nat \<Rightarrow> nat \<Rightarrow> circuitBreaker" where
  "half_open b n m = b\<lparr>phase := stateHalfOpen, generation := generation b + 1,
     counts := \<lparr>requests = min (int n) (halfOpenMaxCalls b), successes = int m, failures = 0\<rparr>, expiry := 0\<rparr>"

lemma half_open_begin:
  "beforeRequest now (half_open b n m) = (half_open b (Suc n) m, generation b + 1, int n < halfOpenMaxCalls b)"
  by (auto simp: beforeRequest_def currentState_def half_open_def Let_def)

lemma half_open_event:
  assumes "healthy E (generation b + 1) ev" and "int (m + reports (generation b + 1) [ev]) < halfOpenMaxCalls b"
  shows "cb_event_step E ev (half_open b n m) = half_open b (n + begins [ev]) (m + reports (generation b + 1) [ev])"
proof (cases ev)
  case (CAfter now g err)
  with assms show ?thesis
    by (cases "g = generation b + 1") (auto simp: afterRequest_def currentState_def onSuccess_def half_open_def Let_def)
qed (simp_all add: half_open_begin, simp add: breaker_state_def currentState_def half_open_def Let_def)

lemma half_open_run:
  assumes "list_all (healthy E (generation b + 1)) evs" and "int (m + reports (generation b + 1) evs) < halfOpenMaxCalls b"
  shows "fold (cb_event_step E) evs (half_open b n m) = half_open b (n + begins evs) (m + reports (generation b + 1) evs)"
  using assms
proof (induction evs arbitrary: n m)
  case (Cons ev evs)
  let ?g = "generation b + 1"
  have r: "m + reports ?g (ev # evs) = (m + reports ?g [ev]) + reports ?g evs" and n: "begins (ev # evs) = begins [ev] + begins evs"
    by (simp, cases ev, simp_all)
  have "cb_event_step E ev (half_open b n m) = half_open b (n + begins [ev]) (m + reports ?g [ev])"
    using Cons.prems by (intro half_open_event) simp_all
  moreover have "fold (cb_event_step E) evs (half_open b (n + begins [ev]) (m + reports ?g [ev])) =
      half_open b (n + begins [ev] + begins evs) (m + reports ?g [ev] + reports ?g evs)"
    using Cons.prems by (intro Cons.IH) (simp_all add: add.assoc)
  ultimately show ?case unfolding r n by (simp add: add.assoc)
qed simp

lemma half_open_first:
  assumes "phase b = stateOpen" and "expiry b \<le> now" and "0 < halfOpenMaxCalls b"
  shows "beforeRequest now b = (half_open b 1 0, generation b + 1, True)"
  using assms by (simp add: breaker_ops half_open_def)

lemma half_open_last:
  assumes "\<not> isBreakerFailure E err" and "int (Suc m) = halfOpenMaxCalls b"
  shows "cb_event_step E (CAfter now (generation b + 1) err) (half_open b n m) =
    b\<lparr>phase := stateClosed, generation := generation b + 2, counts := zeroCounts, expiry := now + window b\<rparr>"
  using assms by (simp add: breaker_ops half_open_def)

text \<open>C20: recovery. Take an open breaker, a first call after its expiry and any events after it, in
  any order and at any clock readings: further calls, queries, late completions of earlier
  generations, and completions of the calls admitted since. If none of the latter reports a failure,
  then as long as fewer than \<open>halfOpenMaxCalls\<close> of them have reported, a call is admitted exactly if
  fewer than \<open>halfOpenMaxCalls\<close> calls came before it, however late it comes; and the completion that
  makes it \<open>halfOpenMaxCalls\<close> successes closes the breaker, with empty counters and a new window.\<close>

theorem breaker_recovers:
  assumes "phase b = stateOpen" and "expiry b \<le> t0" and "g = generation b + 1"
    and "list_all (healthy E g) evs" and "int (reports g evs) + 1 = halfOpenMaxCalls b"
    and "\<not> isBreakerFailure E err"
  shows "(\<forall>xs t ys. CBefore t0 # evs = xs @ CBefore t # ys \<longrightarrow>
            snd (beforeRequest t (fold (cb_event_step E) xs b)) = (g, int (begins xs) < halfOpenMaxCalls b)) \<and>
         fold (cb_event_step E) (CBefore t0 # evs @ [CAfter t1 g err]) b =
           b\<lparr>phase := stateClosed, generation := generation b + 2, counts := zeroCounts, expiry := t1 + window b\<rparr>"
proof (intro conjI allI impI)
  have first: "beforeRequest t0 b = (half_open b 1 0, g, True)"
    using half_open_first [OF assms(1,2)] assms(3,5) by simp
  have run: "fold (cb_event_step E) (CBefore t0 # xs) b = half_open b (Suc (begins xs)) (reports g xs)"
    if "evs = xs @ ys" for xs ys
    using half_open_run [of E b xs 0 1] that assms(3-5) by (simp add: first)
  show "snd (beforeRequest t (fold (cb_event_step E) xs b)) = (g, int (begins xs) < halfOpenMaxCalls b)"
    if "CBefore t0 # evs = xs @ CBefore t # ys" for xs t ys
  proof (cases xs)
    case Nil
    with that first assms(5) show ?thesis by simp
  next
    case (Cons x zs)
    with that have "evs = zs @ CBefore t # ys" and x: "x = CBefore t0" by auto
    with run [of zs "CBefore t # ys"] show ?thesis
      by (simp add: Cons x half_open_begin assms(3) del: fold_simps)
  qed
  have "fold (cb_event_step E) (CBefore t0 # evs @ [CAfter t1 g err]) b =
      cb_event_step E (CAfter t1 g err) (fold (cb_event_step E) (CBefore t0 # evs) b)" by simp
  also have "\<dots> = cb_event_step E (CAfter t1 g err) (half_open b (Suc (begins evs)) (reports g evs))"
    using run [of evs "[]"] by simp
  also have "\<dots> = b\<lparr>phase := stateClosed, generation := generation b + 2, counts := zeroCounts, expiry := t1 + window b\<rparr>"
    unfolding assms(3) using assms(3,5,6) by (intro half_open_last) simp_all
  finally show "fold (cb_event_step E) (CBefore t0 # evs @ [CAfter t1 g err]) b = \<dots>" .
qed

theorem breaker_recovers_witness:
  "let b = demo_breaker\<lparr>phase := stateOpen\<rparr>;
       evs = [CBefore 250, CAfter 300 6 (Some (New E0 CodeInternal [])), CBefore 350, CAfter 400 8 None]
   in snd (beforeRequest 250 (fold (cb_event_step E0) [CBefore 200] b)) = (8, True) \<and>
      snd (beforeRequest 350 (fold (cb_event_step E0) (CBefore 200 # take 2 evs) b)) = (8, False) \<and>
      phase (fold (cb_event_step E0) (CBefore 200 # evs @ [CAfter 9000000000 8 None]) b) = stateClosed"
proof -
  let ?b = "demo_breaker\<lparr>phase := stateOpen\<rparr>"
  let ?x = "CAfter 300 6 (Some (New E0 CodeInternal []))"
  let ?evs = "[CBefore 250, ?x, CBefore 350, CAfter 400 8 None]"
  note r = breaker_recovers [of ?b 200 8 E0 ?evs None 9000000000]
  have "snd (beforeRequest 250 (fold (cb_event_step E0) [CBefore 200] ?b)) = (8, True)"
    using r [THEN conjunct1, rule_format, of "[CBefore 200]" 250 "tl ?evs"] by (simp add: isBreakerFailure_def)
  moreover have "snd (beforeRequest 350 (fold (cb_event_step E0) [CBefore 200, CBefore 250, ?x] ?b)) = (8, False)"
    using r [THEN conjunct1, rule_format, of "[CBefore 200, CBefore 250, ?x]" 350 "[CAfter 400 8 None]"]
    by (simp add: isBreakerFailure_def)
  moreover have "phase (fold (cb_event_step E0) (CBefore 200 # ?evs @ [CAfter 9000000000 8 None]) ?b) = stateClosed"
    using r [THEN conjunct2] by (simp add: isBreakerFailure_def del: fold_simps)
  ultimately show ?thesis by (simp add: Let_def)
qed

lemma wedged_step:
  assumes "phase b = stateHalfOpen" and "halfOpenMaxCalls b \<le> requests (counts b)"
    and "foreign (generation b) ev"
  shows "cb_event_step E ev b = b"
  using assms by (cases ev) (auto simp: beforeRequest_def afterRequest_def breaker_state_def
      currentState_def Let_def)

text \<open>A probe that never reports wedges the breaker. When the probe budget of a half-open breaker
  is spent, every call is rejected at every later time and a query leaves it half-open: only a
  completion carrying the current generation can move it, and there is no timeout.\<close>

theorem lost_probe_wedges:
  assumes "phase b = stateHalfOpen" and "halfOpenMaxCalls b \<le> requests (counts b)"
    and "list_all (foreign (generation b)) evs"
  shows "fold (cb_event_step E) evs b = b \<and> beforeRequest now b = (b, generation b, False)"
proof -
  have "fold (cb_event_step E) evs b = b"
    using assms(3) by (induction evs) (auto simp: wedged_step [OF assms(1,2)])
  with assms(1,2) show ?thesis by (simp add: beforeRequest_def currentState_def Let_def)
qed

theorem lost_probe_wedges_witness:
  "fold (cb_event_step E0) [CBefore 1000, CState 2000, CBefore 3000] (demo_breaker\<lparr>phase := stateHalfOpen\<rparr>) =
     demo_breaker\<lparr>phase := stateHalfOpen\<rparr> \<and>
   beforeRequest 1000000000000 (demo_breaker\<lparr>phase := stateHalfOpen\<rparr>) =
     (demo_breaker\<lparr>phase := stateHalfOpen\<rparr>, 7, False)"
  using lost_probe_wedges [of "demo_breaker\<lparr>phase := stateHalfOpen\<rparr>"
      "[CBefore 1000, CState 2000, CBefore 3000]" E0 1000000000000] by simp

lemma never_ready:
  assumes "cb_ok b P" and "phase b = stateClosed" and "generation b \<in># P"
    and "\<not> fle (failureRatio b) (Fin 1)"
  shows "\<not> readyToTrip (b\<lparr>counts := (counts b)\<lparr>failures := failures (counts b) + 1\<rparr>\<rparr>)"
proof
  let ?f = "failures (counts b) + 1" and ?r = "requests (counts b)"
  assume "readyToTrip (b\<lparr>counts := (counts b)\<lparr>failures := ?f\<rparr>\<rparr>)"
  then have t: "fle (failureRatio b) (float_ratio ?f ?r)" and r: "minRequests b \<le> ?r"
    by (auto simp: readyToTrip_def)
  have "0 < count P (generation b)" using assms(3) by simp
  with assms(1) have "0 \<le> ?f" "?f \<le> ?r" "0 < ?r"
    unfolding cb_ok_def by (auto simp del: count_greater_zero_iff)
  then have "fle (float_ratio ?f ?r) (Fin 1)" by (intro fr.ratio_le_one)
  with t assms(4) show False using fle_trans by blast
qed

lemma never_open_step:
  assumes "cb_step s t" and "cb_inv s" and "phase (cb s) = stateClosed"
    and "\<not> fle (failureRatio (cb s)) (Fin 1)"
  shows "phase (cb t) = stateClosed \<and> failureRatio (cb t) = failureRatio (cb s)"
  using assms(1)
proof (cases rule: cb_step.cases)
  case (complete u g ok)
  let ?c = "currentState u (cb s)"
  have ok: "cb_ok ?c (pend s)"
    using assms(2) complete currentState_ok by (auto simp: cb_inv_def)
  have c: "phase ?c = stateClosed" and f: "failureRatio ?c = failureRatio (cb s)"
    using assms(3) by (auto simp: currentState_def toNewGeneration_def)
  have "\<not> readyToTrip (?c\<lparr>counts := (counts ?c)\<lparr>failures := failures (counts ?c) + 1\<rparr>\<rparr>)"
    if "generation ?c \<in># pend s"
    using never_ready [OF ok c that] assms(4) f by simp
  with complete c f show ?thesis
    by (auto simp: afterRequest_def Let_def onSuccess_def onFailure_def)
qed (use assms(3) in \<open>auto simp: beforeRequest_def breaker_state_def currentState_def toNewGeneration_def Let_def
    split: if_splits\<close>)

interpretation cbn: machine "\<lambda>s. cb_init s \<and> \<not> fle (failureRatio (cb s)) (Fin 1)" cb_step
  "\<lambda>s. cb_inv s \<and> phase (cb s) = stateClosed \<and> \<not> fle (failureRatio (cb s)) (Fin 1)"
proof unfold_locales
  fix s assume "cb_init s \<and> \<not> fle (failureRatio (cb s)) (Fin 1)"
  then show "cb_inv s \<and> phase (cb s) = stateClosed \<and> \<not> fle (failureRatio (cb s)) (Fin 1)"
    using cbm.inv_init newCircuitBreaker_closed by (auto simp: cb_init_def)
next
  fix s t
  assume "cb_inv s \<and> phase (cb s) = stateClosed \<and> \<not> fle (failureRatio (cb s)) (Fin 1)" and "cb_step s t"
  then show "cb_inv t \<and> phase (cb t) = stateClosed \<and> \<not> fle (failureRatio (cb t)) (Fin 1)"
    using cbm.inv_step never_open_step by metis
qed

text \<open>A configured ratio above 1 (or not a number) disables the breaker. The constructor corrects
  ratios that are not positive but not these, and no reachable state of such a breaker is open.\<close>

theorem ratio_above_one_never_opens:
  assumes "newCircuitBreaker (Some c) = Some (cb s0)" and "\<not> fle (cb_FailureRatio c) (Fin 1)"
    and "0 < clk s0" and "pend s0 = {#}" and "cb_step\<^sup>*\<^sup>* s0 s"
  shows "phase (cb s) = stateClosed"
proof -
  have "\<not> fle (cb_FailureRatio c) (Fin 0)"
    using assms(2) fle_trans [of _ "Fin 0" "Fin 1"] by auto
  with assms(1,2) have "\<not> fle (failureRatio (cb s0)) (Fin 1)"
    by (simp add: newCircuitBreaker_ratio)
  with assms(1,3,4) show ?thesis
    using cbn.inv_reachable [OF _ assms(5)] unfolding cb_init_def by blast
qed

theorem ratio_above_one_never_opens_witness:
  "\<exists>b. newCircuitBreaker (Some (demo_cfg\<lparr>cb_FailureRatio := Fin 50\<rparr>)) = Some b \<and>
       phase (cb \<lparr>cb = b, clk = 1, pend = {#}\<rparr>) = stateClosed"
proof -
  obtain b where b: "newCircuitBreaker (Some (demo_cfg\<lparr>cb_FailureRatio := Fin 50\<rparr>)) = Some b"
    by (simp add: newCircuitBreaker_def)
  then have "phase (cb \<lparr>cb = b, clk = 1, pend = {#}\<rparr>) = stateClosed"
    by (intro ratio_above_one_never_opens [of "demo_cfg\<lparr>cb_FailureRatio := Fin 50\<rparr>" "\<lparr>cb = b, clk = 1, pend = {#}\<rparr>"])
       simp_all
  with b show ?thesis by blast
qed

end
