(* ===== verification/SF_Balancer.thy ===== *)
theory SF_Balancer
  imports SF_Prelude "HOL-Library.Word" "HOL-Library.Multiset"
begin

text \<open>
  \<open>transport/gateway/balancer.go\<close>: the strategies that select one of a route's pooled
  connections. The interface \<open>balancer\<close> is the locale \<open>balancer_contract\<close>; the three
  implementations are the constructors of one datatype, since \<open>buildBalancer\<close> decides at run time.
  The result of \<open>rand.IntN(n)\<close> is \<open>draw mod n\<close> for an arbitrary number \<open>draw\<close>.
\<close>

section \<open>Strategies\<close>

definition lbRoundRobin :: string where "lbRoundRobin = ''round_robin''"
definition lbLeastConn :: string where "lbLeastConn = ''least_conn''"
definition lbRandom :: string where "lbRandom = ''random''"

text \<open>
  The round-robin counter is an atomic 64-bit word, the in-flight counters of the least-connection
  balancer are atomic 64-bit words compared as signed numbers; they do not exist before the first
  \<open>pick\<close> (\<open>sync.Once\<close>).
\<close>

datatype balancer =
    RoundRobin "64 word"
  | Random
  | LeastConn "64 word list option"

datatype releaser = NoopRelease | ReleaseAt nat

definition buildBalancer :: "string \<Rightarrow> balancer" where
  "buildBalancer strategy =
     (let s = toLower (trimSpace strategy)
      in if s = lbLeastConn then LeastConn None
         else if s = lbRandom then Random
         else RoundRobin 0)"

definition rr_pick :: "nat \<Rightarrow> 64 word \<Rightarrow> (balancer \<times> nat \<times> releaser) outcome" where
  "rr_pick n nxt =
     (if n = 0 then Panic ''integer divide by zero''
      else Ret (RoundRobin (nxt + 1), unat (nxt + 1) mod n, NoopRelease))"

definition random_pick :: "nat \<Rightarrow> nat \<Rightarrow> (balancer \<times> nat \<times> releaser) outcome" where
  "random_pick draw n =
     (if n = 0 then Panic ''invalid argument to IntN'' else Ret (Random, draw mod n, NoopRelease))"

text \<open>One round of the scan: the counter \<open>v\<close> loaded at position \<open>i\<close> against the least one so far.\<close>

definition lc_better :: "nat \<Rightarrow> 64 word \<Rightarrow> nat \<times> 64 word \<Rightarrow> nat \<times> 64 word" where
  "lc_better i v m = (if sint v < sint (snd m) then (i, v) else m)"

text \<open>The scan loop \<open>for i := 1; i < n; i++\<close>; an index beyond the counters panics.\<close>

function lc_scan :: "64 word list \<Rightarrow> nat \<Rightarrow> nat \<Rightarrow> nat \<times> 64 word \<Rightarrow> nat outcome" where
  "lc_scan xs n i m =
     (if i < n then
        (if i < length xs then lc_scan xs n (i + 1) (lc_better i (xs ! i) m) else Panic ''index out of range'')
      else Ret (fst m))"
  by pat_completeness auto
termination
  by (relation "measure (\<lambda>(xs, n, i, m). n - i)") auto

declare lc_scan.simps [simp del]

text \<open>The last two lines of \<open>pick\<close>: the chosen counter goes up, the returned closure takes it down again.\<close>

definition lc_add :: "nat \<Rightarrow> 64 word list \<Rightarrow> 64 word list \<times> releaser" where
  "lc_add best xs = (xs[best := xs ! best + 1], ReleaseAt best)"

definition lc_pick :: "nat \<Rightarrow> 64 word list option \<Rightarrow> (balancer \<times> nat \<times> releaser) outcome" where
  "lc_pick n inflight =
     (let xs = (case inflight of None \<Rightarrow> replicate n 0 | Some ys \<Rightarrow> ys)
      in if xs = [] then Panic ''index out of range''
         else (case lc_scan xs n 1 (0, xs ! 0) of
                 Panic msg \<Rightarrow> Panic msg
               | Ret best \<Rightarrow> (let (ys, rel) = lc_add best xs in Ret (LeastConn (Some ys), best, rel))))"

definition pick :: "nat \<Rightarrow> nat \<Rightarrow> balancer \<Rightarrow> (balancer \<times> nat \<times> releaser) outcome" where
  "pick draw n b =
     (case b of
        RoundRobin nxt \<Rightarrow> rr_pick n nxt
      | Random \<Rightarrow> random_pick draw n
      | LeastConn inflight \<Rightarrow> lc_pick n inflight)"

fun release :: "releaser \<Rightarrow> balancer \<Rightarrow> balancer" where
  "release (ReleaseAt i) (LeastConn (Some xs)) = LeastConn (Some (xs[i := xs ! i - 1]))"
| "release _ b = b"

text \<open>A sequence of picks, each released before the next: \<open>pickConn\<close> with \<open>defer release()\<close>.\<close>

fun serve ::
  "(nat \<Rightarrow> 'b \<Rightarrow> ('b \<times> nat \<times> 'r) outcome) \<Rightarrow> ('r \<Rightarrow> 'b \<Rightarrow> 'b) \<Rightarrow> nat \<Rightarrow> nat \<Rightarrow> 'b \<Rightarrow> ('b \<times> nat list) outcome" where
  "serve pk rel n 0 b = Ret (b, [])"
| "serve pk rel n (Suc k) b =
     (case pk n b of
        Panic m \<Rightarrow> Panic m
      | Ret (b1, i, r) \<Rightarrow>
          (case serve pk rel n k (rel r b1) of Panic m \<Rightarrow> Panic m | Ret (b2, is) \<Rightarrow> Ret (b2, i # is)))"

section \<open>The interface\<close>

text \<open>
  What a route relies on: for a pool of \<open>n > 0\<close> connections a pick returns an index of the pool
  and leaves a balancer fit for the same pool; so does a release.
\<close>

locale balancer_contract =
  fixes pk :: "nat \<Rightarrow> 'b \<Rightarrow> ('b \<times> nat \<times> 'r) outcome"
    and rel :: "'r \<Rightarrow> 'b \<Rightarrow> 'b"
    and fit :: "nat \<Rightarrow> 'b \<Rightarrow> bool"
  assumes pick_ret: "0 < n \<Longrightarrow> fit n b \<Longrightarrow> \<exists>b' i r. pk n b = Ret (b', i, r) \<and> i < n \<and> fit n b'"
    and rel_fit: "fit n b \<Longrightarrow> fit n (rel r b)"
begin

lemma serve_total:
  "0 < n \<Longrightarrow> fit n b \<Longrightarrow>
   \<exists>b' is. serve pk rel n k b = Ret (b', is) \<and> length is = k \<and> (\<forall>i \<in> set is. i < n) \<and> fit n b'"
proof (induction k arbitrary: b)
  case 0
  then show ?case by simp
next
  case (Suc k)
  obtain b1 i r where p: "pk n b = Ret (b1, i, r)" "i < n" "fit n b1"
    using pick_ret [OF Suc.prems] by blast
  obtain b2 "is" where "serve pk rel n k (rel r b1) = Ret (b2, is)" "length is = k"
    "\<forall>i \<in> set is. i < n" "fit n b2"
    using Suc.IH [OF Suc.prems(1) rel_fit [OF p(3)]] by blast
  with p show ?case by simp
qed

end

section \<open>Lemmas\<close>

text \<open>The scan returns the first position that holds the least counter.\<close>

definition first_min :: "64 word list \<Rightarrow> nat \<Rightarrow> bool" where
  "first_min xs i \<longleftrightarrow>
     i < length xs \<and> (\<forall>j < length xs. sint (xs ! i) \<le> sint (xs ! j)) \<and> (\<forall>j < i. sint (xs ! i) < sint (xs ! j))"

lemma lc_better_min:
  assumes "fst m < i" and "snd m = xs ! fst m" and "i < length xs"
    and "\<forall>j < i. sint (snd m) \<le> sint (xs ! j)" and "\<forall>j < fst m. sint (snd m) < sint (xs ! j)"
  shows "let m' = lc_better i (xs ! i) m in fst m' < i + 1 \<and> snd m' = xs ! fst m' \<and>
    (\<forall>j < i + 1. sint (snd m') \<le> sint (xs ! j)) \<and> (\<forall>j < fst m'. sint (snd m') < sint (xs ! j))"
  using assms by (auto simp: lc_better_def Let_def less_Suc_eq intro: less_le_trans)

lemma lc_scan_correct:
  assumes "n = length xs" and "fst m < i" and "i \<le> n"
    and "snd m = xs ! fst m" and "\<forall>j < i. sint (snd m) \<le> sint (xs ! j)" and "\<forall>j < fst m. sint (snd m) < sint (xs ! j)"
  shows "\<exists>k. lc_scan xs n i m = Ret k \<and> first_min xs k"
  using assms
proof (induction xs n i m rule: lc_scan.induct)
  case (1 xs n i m)
  show ?case
  proof (cases "i < n")
    case False
    with "1.prems" show ?thesis by (subst lc_scan.simps) (auto simp: first_min_def)
  next
    case True
    then have il: "i < length xs" using "1.prems" by simp
    have "\<exists>k. lc_scan xs n (i + 1) (lc_better i (xs ! i) m) = Ret k \<and> first_min xs k"
      using lc_better_min [of m i xs] "1.prems" True il by (intro "1.IH") (auto simp: Let_def)
    then show ?thesis using True il by (subst lc_scan.simps) simp
  qed
qed

definition fits :: "nat \<Rightarrow> balancer \<Rightarrow> bool" where
  "fits n b = (case b of LeastConn (Some xs) \<Rightarrow> length xs = n | _ \<Rightarrow> True)"

lemma lc_pick_correct:
  assumes "0 < n" and "fits n (LeastConn infl)"
  defines "xs \<equiv> (case infl of None \<Rightarrow> replicate n 0 | Some ys \<Rightarrow> ys)"
  shows "\<exists>k. lc_pick n infl = Ret (LeastConn (Some (xs[k := xs ! k + 1])), k, ReleaseAt k) \<and>
    first_min xs k \<and> length xs = n"
proof -
  have len: "length xs = n" using assms(2) by (auto simp: xs_def fits_def split: option.splits)
  then have ne: "xs \<noteq> []" using assms(1) by auto
  have "\<exists>k. lc_scan xs n 1 (0, xs ! 0) = Ret k \<and> first_min xs k"
    by (rule lc_scan_correct) (use len assms(1) in auto)
  with ne len show ?thesis by (auto simp: lc_pick_def lc_add_def xs_def [symmetric] Let_def)
qed

interpretation bal: balancer_contract "pick draw" release fits for draw
proof unfold_locales
  fix n b assume n: "0 < (n :: nat)" and f: "fits n b"
  show "\<exists>b' i r. pick draw n b = Ret (b', i, r) \<and> i < n \<and> fits n b'"
  proof (cases b)
    case (LeastConn infl)
    from lc_pick_correct [OF n f [unfolded LeastConn]] show ?thesis
      by (auto simp: pick_def LeastConn first_min_def fits_def)
  qed (use n in \<open>auto simp: pick_def rr_pick_def random_pick_def fits_def\<close>)
next
  fix n b r assume "fits n b"
  then show "fits n (release r b)"
    by (cases "(r, b)" rule: release.cases) (auto simp: fits_def split: option.splits)
qed

section \<open>Round robin\<close>

fun rr_run :: "nat \<Rightarrow> nat \<Rightarrow> 64 word \<Rightarrow> nat list" where
  "rr_run n 0 nxt = []"
| "rr_run n (Suc m) nxt =
     (case rr_pick n nxt of
        Ret (RoundRobin nxt', i, _) \<Rightarrow> i # rr_run n m nxt'
      | _ \<Rightarrow> [])"

lemma rr_run_map:
  "0 < n \<Longrightarrow> unat nxt + m < 2 ^ 64 \<Longrightarrow> rr_run n m nxt = map (\<lambda>k. (unat nxt + 1 + k) mod n) [0..<m]"
proof (induction m arbitrary: nxt)
  case 0
  then show ?case by simp
next
  case (Suc m)
  have u: "unat (nxt + 1) = unat nxt + 1"
    using Suc.prems(2) by (simp add: unat_word_ariths)
  have "[0..<Suc m] = 0 # map Suc [0..<m]" by (simp only: upt_conv_Cons map_Suc_upt zero_less_Suc)
  then show ?case
    using Suc.IH [of "nxt + 1"] Suc.prems u by (simp add: rr_pick_def comp_def)
qed

lemma mod_shift_eq:
  assumes "x \<le> y" and "y < n" and "(a + x) mod n = (a + y) mod (n :: nat)"
  shows "x = y"
proof -
  have "n dvd (a + y) - (a + x)"
    using assms(1,3) by (metis add_le_mono1 add.commute mod_eq_dvd_iff_nat)
  then have "n dvd y - x" by simp
  with assms(1,2) show ?thesis by (metis diff_is_0_eq dual_order.antisym less_imp_diff_less nat_dvd_not_less not_gr0)
qed

lemma mod_block_distinct: "inj_on (\<lambda>k. (a + k) mod n) {..<n :: nat}"
proof (rule inj_onI)
  fix x y assume "x \<in> {..<n}" and "y \<in> {..<n}" and "(a + x) mod n = (a + y) mod n"
  then show "x = y"
    using mod_shift_eq [of x y n a] mod_shift_eq [of y x n a] by (cases "x \<le> y") auto
qed

lemma count_list_distinct: "distinct xs \<Longrightarrow> x \<in> set xs \<Longrightarrow> count_list xs x = 1"
  by (induction xs) auto

lemma count_block:
  assumes "0 < n" and "i < (n :: nat)"
  shows "count_list (map (\<lambda>k. (a + k) mod n) [0..<n]) i = 1"
proof -
  have d: "distinct (map (\<lambda>k. (a + k) mod n) [0..<n])"
    using mod_block_distinct [of a n] by (simp add: distinct_map atLeast0LessThan)
  have "(\<lambda>k. (a + k) mod n) ` {..<n} = {..<n}"
    by (rule endo_inj_surj) (use mod_block_distinct assms(1) in auto)
  with assms(2) have "i \<in> set (map (\<lambda>k. (a + k) mod n) [0..<n])"
    by (simp add: atLeast0LessThan)
  with d show ?thesis by (rule count_list_distinct)
qed

text \<open>C24: round robin is fair. As long as the 64-bit counter has not wrapped around, any block of
  \<open>k * n\<close> consecutive picks from a pool of \<open>n\<close> connections selects every connection exactly
  \<open>k\<close> times.\<close>

theorem rr_fair:
  assumes "0 < n" and "unat nxt + k * n < 2 ^ 64" and "i < n"
  shows "count_list (rr_run n (k * n) nxt) i = k"
proof -
  let ?f = "\<lambda>k. (unat nxt + 1 + k) mod n"
  have "count_list (map ?f [0..<k * n]) i = k" for k
  proof (induction k)
    case 0
    then show ?case by simp
  next
    case (Suc k)
    have "[0..<Suc k * n] = [0..<k * n] @ map (\<lambda>j. j + k * n) [0..<n]"
      using upt_add_eq_append [of 0 "k * n" n] by (simp add: map_add_upt add.commute)
    moreover have "map (?f \<circ> (\<lambda>j. j + k * n)) [0..<n] = map (\<lambda>j. (unat nxt + 1 + k * n + j) mod n) [0..<n]"
      by (simp add: comp_def algebra_simps)
    ultimately show ?case
      using Suc.IH count_block [OF assms(1,3), of "unat nxt + 1 + k * n"]
      by (simp only: map_append count_list_append map_map)
  qed
  with rr_run_map [OF assms(1,2)] show ?thesis by simp
qed

theorem rr_fair_witness: "count_list (rr_run 3 (2 * 3) 5) 1 = 2"
  by (rule rr_fair) simp_all

section \<open>Least connections\<close>

text \<open>C25: least connections. A pick selects the first connection with the fewest calls in flight,
  raises exactly its counter, and the release it returns lowers that counter again.\<close>

theorem least_conn_picks_minimum:
  assumes "0 < n" and "length xs = n"
  shows "\<exists>k. pick draw n (LeastConn (Some xs)) =
               Ret (LeastConn (Some (xs[k := xs ! k + 1])), k, ReleaseAt k) \<and>
             k < n \<and> (\<forall>j < n. sint (xs ! k) \<le> sint (xs ! j)) \<and> (\<forall>j < k. sint (xs ! k) < sint (xs ! j)) \<and>
             release (ReleaseAt k) (LeastConn (Some (xs[k := xs ! k + 1]))) = LeastConn (Some xs)"
proof -
  from lc_pick_correct [of n "Some xs"] assms obtain k
    where "lc_pick n (Some xs) = Ret (LeastConn (Some (xs[k := xs ! k + 1])), k, ReleaseAt k)"
      and "first_min xs k"
    by (auto simp: fits_def)
  with assms show ?thesis by (auto simp: pick_def first_min_def)
qed

theorem least_conn_picks_minimum_witness:
  "\<exists>k. pick 0 3 (LeastConn (Some [2, 1, 1])) =
         Ret (LeastConn (Some ([2, 1, 1][k := [2, 1, 1] ! k + 1])), k, ReleaseAt k) \<and> k < 3"
  using least_conn_picks_minimum [of 3 "[2, 1, 1]" 0] by auto

text \<open>
  Callers run concurrently: between the loads of one caller's scan other callers move, so the
  position a caller adds to may no longer hold the least counter. A caller is in its scan, with the
  next position and the least counter seen, or holds the release of its pick. Each load, addition
  and release is one atomic step, and the steps are those of \<open>pick\<close>: a round of \<open>lc_scan\<close>, \<open>lc_add\<close>,
  and \<open>release\<close> on what \<open>lc_add\<close> returned.
\<close>

datatype lc_caller = Scanning nat "nat \<times> 64 word" | Holding releaser

record lc_sys =
  lc_counters :: "64 word list"
  lc_callers :: "lc_caller multiset"

inductive lc_step :: "lc_sys \<Rightarrow> lc_sys \<Rightarrow> bool" where
  begin_scan: "lc_counters s \<noteq> [] \<Longrightarrow>
     lc_step s (s\<lparr>lc_callers := add_mset (Scanning 1 (0, lc_counters s ! 0)) (lc_callers s)\<rparr>)"
| load: "Scanning i m \<in># lc_callers s \<Longrightarrow> i < length (lc_counters s) \<Longrightarrow>
     lc_step s (s\<lparr>lc_callers := add_mset (Scanning (i + 1) (lc_better i (lc_counters s ! i) m))
                                 (lc_callers s - {#Scanning i m#})\<rparr>)"
| add: "Scanning i m \<in># lc_callers s \<Longrightarrow> i = length (lc_counters s) \<Longrightarrow> lc_add (fst m) (lc_counters s) = (ys, rel) \<Longrightarrow>
     lc_step s \<lparr>lc_counters = ys, lc_callers = add_mset (Holding rel) (lc_callers s - {#Scanning i m#})\<rparr>"
| finish: "Holding rel \<in># lc_callers s \<Longrightarrow> release rel (LeastConn (Some (lc_counters s))) = LeastConn (Some ys) \<Longrightarrow>
     lc_step s \<lparr>lc_counters = ys, lc_callers = lc_callers s - {#Holding rel#}\<rparr>"

text \<open>Calls on connection \<open>i\<close> that have been picked and not released.\<close>

definition in_flight :: "nat \<Rightarrow> lc_sys \<Rightarrow> nat" where
  "in_flight i s = count (lc_callers s) (Holding (ReleaseAt i))"

fun caller_ok :: "nat \<Rightarrow> lc_caller \<Rightarrow> bool" where
  "caller_ok n (Scanning i m) = (fst m < i \<and> i \<le> n)"
| "caller_ok n (Holding rel) = (\<exists>i < n. rel = ReleaseAt i)"

definition lc_inv :: "nat \<Rightarrow> lc_sys \<Rightarrow> bool" where
  "lc_inv n s \<longleftrightarrow> length (lc_counters s) = n \<and>
     (\<forall>i < n. lc_counters s ! i = word_of_nat (in_flight i s)) \<and> (\<forall>c \<in># lc_callers s. caller_ok n c)"

lemma caller_ok_rest: "\<forall>c \<in># M. caller_ok n c \<Longrightarrow> \<forall>c \<in># M - {#x#}. caller_ok n c"
  by (meson in_diffD)

lemma lc_inv_step:
  assumes "lc_step s t" and "lc_inv n s"
  shows "lc_inv n t"
  using assms
proof (induction rule: lc_step.induct)
  case (begin_scan s)
  then have "0 < n" by (auto simp: lc_inv_def)
  with begin_scan show ?case by (auto simp: lc_inv_def in_flight_def)
next
  case (load i m s)
  then have "caller_ok n (Scanning i m)" by (auto simp: lc_inv_def)
  with load caller_ok_rest [of "lc_callers s" n "Scanning i m"] show ?case
    by (auto simp: lc_inv_def in_flight_def lc_better_def)
next
  case (add i m s ys rel)
  then have "caller_ok n (Scanning i m)" by (auto simp: lc_inv_def)
  with add caller_ok_rest [of "lc_callers s" n "Scanning i m"] show ?case
    by (auto simp: lc_inv_def in_flight_def lc_add_def nth_list_update)
next
  case (finish rel s ys)
  then have "caller_ok n (Holding rel)" by (auto simp: lc_inv_def)
  then obtain k where k: "rel = ReleaseAt k" "k < n" by auto
  have "1 \<le> in_flight k s" using finish(1) k by (simp add: in_flight_def Suc_le_eq)
  then have "word_of_nat (in_flight k s - 1) = (word_of_nat (in_flight k s) :: 64 word) - 1"
    by (simp add: of_nat_diff)
  with finish k caller_ok_rest [of "lc_callers s" n "Holding rel"] show ?case
    by (auto simp: lc_inv_def in_flight_def nth_list_update)
qed

interpretation lcm: machine "\<lambda>s :: lc_sys. lc_counters s = replicate n 0 \<and> lc_callers s = {#}" lc_step "lc_inv n" for n
  by unfold_locales (simp add: lc_inv_def in_flight_def, rule lc_inv_step)

lemma sint_small: "k < 2 ^ 63 \<Longrightarrow> sint (word_of_nat k :: 64 word) = int k"
  by (simp add: signed_of_nat signed_take_bit_int_eq_self)

text \<open>A caller that runs alone: its steps are one \<open>lc_pick\<close>.\<close>

lemma scan_run:
  "lc_scan xs n i m = Ret k \<Longrightarrow> n = length xs \<Longrightarrow> i \<le> n \<Longrightarrow>
   \<exists>v. lc_step\<^sup>*\<^sup>* \<lparr>lc_counters = xs, lc_callers = add_mset (Scanning i m) C\<rparr>
                \<lparr>lc_counters = xs, lc_callers = add_mset (Scanning n (k, v)) C\<rparr>"
proof (induction xs n i m rule: lc_scan.induct)
  case (1 xs n i m)
  let ?s = "\<lambda>i m. \<lparr>lc_counters = xs, lc_callers = add_mset (Scanning i m) C\<rparr>"
  show ?case
  proof (cases "i < n")
    case True
    let ?m = "lc_better i (xs ! i) m"
    have "lc_scan xs n (i + 1) ?m = Ret k"
      using "1.prems" True by (subst (asm) lc_scan.simps) simp
    then obtain v where "lc_step\<^sup>*\<^sup>* (?s (i + 1) ?m) (?s n (k, v))"
      using "1.IH" [of] True "1.prems" by auto
    moreover have "lc_step (?s i m) (?s (i + 1) ?m)"
      using load [of i m "?s i m"] True "1.prems" by simp
    ultimately show ?thesis by (meson converse_rtranclp_into_rtranclp)
  next
    case False
    with "1.prems" have "m = (k, snd m)" and "i = n" by (subst (asm) lc_scan.simps, auto)+
    then show ?thesis by (metis rtranclp.rtrancl_refl)
  qed
qed

lemma pick_run:
  assumes "lc_pick (length xs) (Some xs) = Ret (LeastConn (Some ys), k, rel)"
  shows "lc_step\<^sup>*\<^sup>* \<lparr>lc_counters = xs, lc_callers = C\<rparr> \<lparr>lc_counters = ys, lc_callers = add_mset (Holding rel) C\<rparr>"
proof -
  have ne: "xs \<noteq> []" and scan: "lc_scan xs (length xs) 1 (0, xs ! 0) = Ret k" and a: "lc_add k xs = (ys, rel)"
    using assms by (auto simp: lc_pick_def Let_def split: if_splits outcome.splits prod.splits)
  from ne scan_run [OF scan] obtain v where
    "lc_step\<^sup>*\<^sup>* \<lparr>lc_counters = xs, lc_callers = add_mset (Scanning 1 (0, xs ! 0)) C\<rparr>
              \<lparr>lc_counters = xs, lc_callers = add_mset (Scanning (length xs) (k, v)) C\<rparr>"
    by (auto simp: Suc_le_eq)
  moreover have "lc_step \<lparr>lc_counters = xs, lc_callers = C\<rparr>
      \<lparr>lc_counters = xs, lc_callers = add_mset (Scanning 1 (0, xs ! 0)) C\<rparr>"
    using begin_scan [of "\<lparr>lc_counters = xs, lc_callers = C\<rparr>"] ne by simp
  moreover have "lc_step \<lparr>lc_counters = xs, lc_callers = add_mset (Scanning (length xs) (k, v)) C\<rparr>
      \<lparr>lc_counters = ys, lc_callers = add_mset (Holding rel) C\<rparr>"
    using add [of "length xs" "(k, v)" "\<lparr>lc_counters = xs, lc_callers = add_mset (Scanning (length xs) (k, v)) C\<rparr>"] a
    by simp
  ultimately show ?thesis
    by (meson converse_rtranclp_into_rtranclp rtranclp.rtrancl_into_rtrancl)
qed

text \<open>C26: the in-flight counters are exact. Let any number of callers interleave the loads, additions
  and releases of their picks on a pool of \<open>n\<close> connections. In every state they reach, the 64-bit
  counter of a connection is the number of picks of that connection that have added to it and not
  been released, as a signed number too as long as there are fewer than \<open>2\<^sup>6\<^sup>3\<close> of them; so no counter
  is then negative, and all are zero when every call has finished. A whole \<open>pick\<close> by one caller, from
  any of these states, is one of these runs, and what it returns is then held.\<close>

theorem least_conn_counters_exact:
  assumes "lc_step\<^sup>*\<^sup>* \<lparr>lc_counters = replicate n 0, lc_callers = {#}\<rparr> s" and "i < n"
  shows "lc_counters s ! i = word_of_nat (in_flight i s) \<and>
    (in_flight i s < 2 ^ 63 \<longrightarrow> sint (lc_counters s ! i) = int (in_flight i s)) \<and>
    (\<exists>ys k rel. pick draw n (LeastConn (Some (lc_counters s))) = Ret (LeastConn (Some ys), k, rel) \<and> k < n \<and>
       lc_step\<^sup>*\<^sup>* s \<lparr>lc_counters = ys, lc_callers = add_mset (Holding rel) (lc_callers s)\<rparr>)"
proof -
  have i: "lc_inv n s" using lcm.inv_reachable [OF _ assms(1), of n] by simp
  then have len: "length (lc_counters s) = n" and c: "lc_counters s ! i = word_of_nat (in_flight i s)"
    using assms(2) by (simp_all add: lc_inv_def)
  obtain k where k: "lc_pick n (Some (lc_counters s)) =
      Ret (LeastConn (Some ((lc_counters s)[k := lc_counters s ! k + 1])), k, ReleaseAt k)" "k < n"
    using lc_pick_correct [of n "Some (lc_counters s)"] len assms(2) by (auto simp: fits_def first_min_def)
  then have "lc_step\<^sup>*\<^sup>* s \<lparr>lc_counters = (lc_counters s)[k := lc_counters s ! k + 1],
      lc_callers = add_mset (Holding (ReleaseAt k)) (lc_callers s)\<rparr>"
    using pick_run [of "lc_counters s" _ k "ReleaseAt k" "lc_callers s"] len by (cases s) simp
  with k c show ?thesis by (auto simp: pick_def sint_small)
qed

theorem least_conn_counters_exact_witness:
  "\<exists>k rel. pick 0 2 (LeastConn (Some [0, 0])) = Ret (LeastConn (Some ([0, 0][k := 1])), k, rel) \<and> k < 2 \<and>
     lc_step\<^sup>*\<^sup>* \<lparr>lc_counters = [0, 0], lc_callers = {#}\<rparr> \<lparr>lc_counters = [0, 0][k := 1], lc_callers = {#Holding rel#}\<rparr>"
proof -
  let ?s = "\<lparr>lc_counters = [0, 0], lc_callers = {#}\<rparr>"
  have "lc_step\<^sup>*\<^sup>* \<lparr>lc_counters = replicate 2 0, lc_callers = {#}\<rparr> ?s" by (simp add: numeral_2_eq_2)
  from least_conn_counters_exact [OF this, of 0 0] obtain ys k rel
    where p: "pick 0 2 (LeastConn (Some [0, 0])) = Ret (LeastConn (Some ys), k, rel)" "k < 2"
      "lc_step\<^sup>*\<^sup>* ?s \<lparr>lc_counters = ys, lc_callers = {#Holding rel#}\<rparr>" by auto
  moreover have "ys = [0, 0][k := 1]"
    using p(1,2) by (auto simp: pick_def lc_pick_def lc_add_def lc_better_def lc_scan.simps numeral_2_eq_2)
  ultimately show ?thesis by blast
qed

end
