(* ===== verification/SF_Claims.thy ===== *)
theory SF_Claims
  imports SF_Config
begin

text \<open>
  \<open>transport/gateway/claimforward.go\<close>: the forwarding of verified JWT claims to a backend as gRPC
  metadata. A request context is the record \<open>ctx\<close>: the deadline set on it and the pairs handed
  to \<open>metadata.AppendToOutgoingContext\<close>, in order. The two results the Go language and its
  library leave open, the conversion of an out-of-range \<open>float64\<close> to \<open>int64\<close> and the shortest
  decimal form of a \<open>float64\<close>, are the fields of \<open>num_env\<close>.
\<close>

section \<open>Contexts and numbers\<close>

record ctx =
  ctx_deadline :: "int option"
  ctx_md :: "(string \<times> string) list"

definition Background :: ctx where
  "Background = \<lparr>ctx_deadline = None, ctx_md = []\<rparr>"

definition AppendToOutgoingContext :: "ctx \<Rightarrow> (string \<times> string) list \<Rightarrow> ctx" where
  "AppendToOutgoingContext c kvs = c\<lparr>ctx_md := ctx_md c @ kvs\<rparr>"

text \<open>\<open>context.WithTimeout\<close>: the earlier of the parent's deadline and the new one.\<close>

definition WithTimeout :: "int \<Rightarrow> ctx \<Rightarrow> int \<Rightarrow> ctx" where
  "WithTimeout now c d =
     c\<lparr>ctx_deadline := Some (case ctx_deadline c of None \<Rightarrow> now + d | Some t \<Rightarrow> min t (now + d))\<rparr>"

record num_env =
  int64_oob :: "float64 \<Rightarrow> int"
  formatFloat :: "float64 \<Rightarrow> string"

definition int64_of_float :: "num_env \<Rightarrow> float64 \<Rightarrow> int" where
  "int64_of_float N v =
     (case v of
        Fin q \<Rightarrow>
          (let t = (if 0 \<le> q then \<lfloor>q\<rfloor> else \<lceil>q\<rceil>)
           in if - (2 ^ 63) \<le> t \<and> t < 2 ^ 63 then t else int64_oob N v)
      | _ \<Rightarrow> int64_oob N v)"

definition float_of_int64 :: "int \<Rightarrow> float64" where
  "float_of_int64 i = Fin (fl53 (of_int i))"

fun feq :: "float64 \<Rightarrow> float64 \<Rightarrow> bool" where
  "feq NaN b = False"
| "feq a b = (a = b)"

section \<open>The forwarder\<close>

definition claimsLocal :: string where "claimsLocal = ''jwt_claims''"

record claimPair =
  cp_claim :: string
  cp_header :: string
  cp_required :: bool
  cp_defaultValue :: string
  cp_hasDefault :: bool

text \<open>A forwarder is its non-empty list of pairs; \<open>None\<close> is the nil forwarder.\<close>

type_synonym claimForwarder = "claimPair list"

definition claim_pair :: "ClaimForwardConfig \<Rightarrow> claimPair" where
  "claim_pair spec =
     (let claim = trimSpace (cf_Claim spec);
          header = toLower (trimSpace (cf_Header spec))
      in \<lparr>cp_claim = claim,
          cp_header = (if header = [] then toLower claim else header),
          cp_required = cf_Required spec,
          cp_defaultValue = (case cf_Default spec of None \<Rightarrow> [] | Some d \<Rightarrow> d),
          cp_hasDefault = (cf_Default spec \<noteq> None)\<rparr>)"

definition buildClaimForwarder :: "ClaimForwardConfig list \<Rightarrow> claimForwarder option" where
  "buildClaimForwarder specs =
     (let pairs = map claim_pair (filter (\<lambda>spec. trimSpace (cf_Claim spec) \<noteq> []) specs)
      in if pairs = [] then None else Some pairs)"

definition claimToString :: "num_env \<Rightarrow> any \<Rightarrow> string option" where
  "claimToString N value =
     (case value of
        AString v \<Rightarrow> Some v
      | ABool v \<Rightarrow> Some (if v then ''true'' else ''false'')
      | AFloat64 v \<Rightarrow>
          if feq v (float_of_int64 (int64_of_float N v)) then Some (itoa (int64_of_float N v))
          else Some (formatFloat N v)
      | ANumber v \<Rightarrow> Some v
      | _ \<Rightarrow> None)"

definition asClaims :: "any \<Rightarrow> (string \<times> any) list option" where
  "asClaims raw = (case raw of AMapClaims m \<Rightarrow> Some m | AMap m \<Rightarrow> Some m | _ \<Rightarrow> None)"

definition claimText :: "num_env \<Rightarrow> (string \<times> any) list \<Rightarrow> string \<Rightarrow> string option" where
  "claimText N claims key =
     (case map_of claims key of None \<Rightarrow> None | Some value \<Rightarrow> claimToString N value)"

definition missingClaim :: "errors_pkg \<Rightarrow> claimPair \<Rightarrow> go_error" where
  "missingClaim E pair =
     WithDetails (New E CodeUnauthenticated ''missing required claim'') ''claim'' (AString (cp_claim pair))"

text \<open>The loop over the pairs, with the metadata collected so far.\<close>

fun collectClaims ::
  "num_env \<Rightarrow> errors_pkg \<Rightarrow> (string \<times> any) list \<Rightarrow> claimPair list \<Rightarrow> (string \<times> string) list \<Rightarrow>
   (string \<times> string) list result" where
  "collectClaims N E claims [] md = Inr md"
| "collectClaims N E claims (pair # pairs) md =
     (case claimText N claims (cp_claim pair) of
        Some text \<Rightarrow> collectClaims N E claims pairs (md @ [(cp_header pair, text)])
      | None \<Rightarrow>
          if cp_hasDefault pair
          then collectClaims N E claims pairs (md @ [(cp_header pair, cp_defaultValue pair)])
          else if cp_required pair then Inl (missingClaim E pair)
          else collectClaims N E claims pairs md)"

definition outgoing ::
  "num_env \<Rightarrow> errors_pkg \<Rightarrow> claimForwarder option \<Rightarrow> ctx \<Rightarrow> (string \<Rightarrow> any) \<Rightarrow> ctx \<times> go_error option" where
  "outgoing N E f c lookup =
     (case f of
        None \<Rightarrow> (c, None)
      | Some pairs \<Rightarrow>
          (let claims = (case asClaims (lookup claimsLocal) of None \<Rightarrow> [] | Some m \<Rightarrow> m)
           in case collectClaims N E claims pairs [] of
                Inl e \<Rightarrow> (c, Some e)
              | Inr md \<Rightarrow> if md = [] then (c, None) else (AppendToOutgoingContext c md, None)))"

section \<open>Lemmas\<close>

text \<open>The value a pair forwards, if any, and whether the pair makes the request fail.\<close>

definition forwarded :: "num_env \<Rightarrow> (string \<times> any) list \<Rightarrow> claimPair \<Rightarrow> string option" where
  "forwarded N claims p =
     (case claimText N claims (cp_claim p) of
        Some t \<Rightarrow> Some t
      | None \<Rightarrow> if cp_hasDefault p then Some (cp_defaultValue p) else None)"

definition blocks :: "num_env \<Rightarrow> (string \<times> any) list \<Rightarrow> claimPair \<Rightarrow> bool" where
  "blocks N claims p \<longleftrightarrow> forwarded N claims p = None \<and> cp_required p"

lemma collectClaims_spec:
  "collectClaims N E claims pairs md =
     (case find (blocks N claims) pairs of
        Some p \<Rightarrow> Inl (missingClaim E p)
      | None \<Rightarrow> Inr (md @ map (\<lambda>p. (cp_header p, the (forwarded N claims p)))
                        (filter (\<lambda>p. forwarded N claims p \<noteq> None) pairs)))"
  by (induction pairs arbitrary: md)
    (auto simp: blocks_def forwarded_def split: option.splits if_splits)

lemma AppendToOutgoingContext_Nil [simp]: "AppendToOutgoingContext c [] = c"
  by (simp add: AppendToOutgoingContext_def)

lemma outgoing_spec:
  "outgoing N E (buildClaimForwarder specs) c lookup =
     (let claims = (case asClaims (lookup claimsLocal) of None \<Rightarrow> [] | Some m \<Rightarrow> m);
          pairs = map claim_pair (filter (\<lambda>s. trimSpace (cf_Claim s) \<noteq> []) specs)
      in case find (blocks N claims) pairs of
           Some p \<Rightarrow> (c, Some (missingClaim E p))
         | None \<Rightarrow> (AppendToOutgoingContext c
               (map (\<lambda>p. (cp_header p, the (forwarded N claims p)))
                 (filter (\<lambda>p. forwarded N claims p \<noteq> None) pairs)), None))"
  by (auto simp: outgoing_def buildClaimForwarder_def Let_def collectClaims_spec split: option.splits)

lemma claim_pair_sel [simp]:
  "cp_claim (claim_pair s) = trimSpace (cf_Claim s)"
  "cp_required (claim_pair s) = cf_Required s"
  "cp_hasDefault (claim_pair s) = (cf_Default s \<noteq> None)"
  by (simp_all add: claim_pair_def Let_def)

lemma find_Some_mem: "find P xs = Some x \<Longrightarrow> x \<in> set xs \<and> P x"
  by (auto simp: find_Some_iff)

lemma missingClaim_sel [simp]:
  "ae_Code (missingClaim E p) = CodeUnauthenticated"
  "ae_HTTPStatus (missingClaim E p) = HTTPStatus E CodeUnauthenticated"
  "ae_Details (missingClaim E p) = Some [(''claim'', AString (cp_claim p))]"
  by (simp_all add: missingClaim_def New_def)

text \<open>An integral claim within the range of \<open>int64\<close> is written as an integer, without exponent.\<close>

lemma claimToString_integral:
  assumes "- (2 ^ 53) \<le> i" and "i \<le> 2 ^ 53" and "fl53 (of_int i) = of_int i"
  shows "claimToString N (AFloat64 (Fin (of_int i))) = Some (itoa i)"
  using assms by (simp add: claimToString_def int64_of_float_def float_of_int64_def Let_def)

text \<open>C21: claim forwarding. For a route with claim specifications \<open>specs\<close>, a request passes exactly
  when every required claim without a default is present as a scalar; then the backend sees,
  appended in the order of the configuration, one metadata pair for each claim that is present
  or has a default (the claim's text first, the default otherwise) and nothing for the rest. A
  request that fails is answered with UNAUTHENTICATED naming the first offending claim, and its
  context is unchanged.\<close>

theorem claim_forwarding:
  "let claims = (case asClaims (lookup claimsLocal) of None \<Rightarrow> [] | Some m \<Rightarrow> m);
       pairs = map claim_pair (filter (\<lambda>s. trimSpace (cf_Claim s) \<noteq> []) specs);
       text = (\<lambda>p. case claimText N claims (cp_claim p) of
                     Some t \<Rightarrow> Some t
                   | None \<Rightarrow> if cp_hasDefault p then Some (cp_defaultValue p) else None);
       res = outgoing N E (buildClaimForwarder specs) c lookup
   in (snd res = None \<longleftrightarrow> (\<forall>p \<in> set pairs. cp_required p \<longrightarrow> text p \<noteq> None)) \<and>
      (snd res = None \<longrightarrow>
         ctx_md (fst res) = ctx_md c @ map (\<lambda>p. (cp_header p, the (text p))) (filter (\<lambda>p. text p \<noteq> None) pairs) \<and>
         ctx_deadline (fst res) = ctx_deadline c) \<and>
      (\<forall>e. snd res = Some e \<longrightarrow>
         fst res = c \<and> ae_Code e = CodeUnauthenticated \<and>
         (\<exists>pre p post. pairs = pre @ p # post \<and> cp_required p \<and> text p = None \<and>
            (\<forall>q \<in> set pre. cp_required q \<longrightarrow> text q \<noteq> None) \<and>
            ae_Details e = Some [(''claim'', AString (cp_claim p))]))"
proof -
  define claims where "claims = (case asClaims (lookup claimsLocal) of None \<Rightarrow> [] | Some m \<Rightarrow> m)"
  define pairs where "pairs = map claim_pair (filter (\<lambda>s. trimSpace (cf_Claim s) \<noteq> []) specs)"
  have res: "outgoing N E (buildClaimForwarder specs) c lookup =
    (case find (blocks N claims) pairs of
       Some p \<Rightarrow> (c, Some (missingClaim E p))
     | None \<Rightarrow> (AppendToOutgoingContext c
           (map (\<lambda>p. (cp_header p, the (forwarded N claims p)))
             (filter (\<lambda>p. forwarded N claims p \<noteq> None) pairs)), None))"
    unfolding outgoing_spec Let_def claims_def pairs_def by (rule refl)
  show ?thesis
  proof (cases "find (blocks N claims) pairs")
    case None
    then have "\<forall>p \<in> set pairs. cp_required p \<longrightarrow> forwarded N claims p \<noteq> None"
      by (auto simp: find_None_iff blocks_def)
    with None show ?thesis
      by (simp only: Let_def res claims_def [symmetric] pairs_def [symmetric] forwarded_def [symmetric])
        (simp add: AppendToOutgoingContext_def)
  next
    case (Some p)
    then obtain i where i: "i < length pairs" "p = pairs ! i" "blocks N claims p"
      "\<forall>j < i. \<not> blocks N claims (pairs ! j)"
      by (auto simp: find_Some_iff)
    then have "pairs = take i pairs @ p # drop (Suc i) pairs"
      by (simp add: id_take_nth_drop)
    moreover have "\<forall>q \<in> set (take i pairs). cp_required q \<longrightarrow> forwarded N claims q \<noteq> None"
      using i by (force simp: blocks_def in_set_conv_nth)
    ultimately have ex: "\<exists>pre p' post. pairs = pre @ p' # post \<and> cp_required p' \<and> forwarded N claims p' = None \<and>
        (\<forall>q \<in> set pre. cp_required q \<longrightarrow> forwarded N claims q \<noteq> None) \<and>
        ae_Details (missingClaim E p) = Some [(''claim'', AString (cp_claim p'))]"
      using i(3) unfolding blocks_def by (metis missingClaim_sel(3))
    have "\<not> (\<forall>p \<in> set pairs. cp_required p \<longrightarrow> forwarded N claims p \<noteq> None)"
      using i by (auto simp: blocks_def)
    with ex Some show ?thesis
      by (simp only: Let_def res claims_def [symmetric] pairs_def [symmetric] forwarded_def [symmetric])
        simp
  qed
qed

definition demo_claims :: "ClaimForwardConfig list" where
  "demo_claims =
     [\<lparr>cf_Claim = ''sub'', cf_Header = ''X-User'', cf_Required = True, cf_Default = None\<rparr>,
      \<lparr>cf_Claim = ''tier'', cf_Header = [], cf_Required = True, cf_Default = Some ''free''\<rparr>,
      \<lparr>cf_Claim = '' '', cf_Header = [], cf_Required = True, cf_Default = None\<rparr>]"

definition demo_num :: num_env where
  "demo_num = \<lparr>int64_oob = (\<lambda>_. - (2 ^ 63)), formatFloat = (\<lambda>_. ''NaN'')\<rparr>"

theorem claim_forwarding_witness:
  "let res = outgoing demo_num E0 (buildClaimForwarder demo_claims) Background
               (\<lambda>_. AMapClaims [(''sub'', AString ''u1'')])
   in ctx_md (fst res) = [(''x-user'', ''u1''), (''tier'', ''free'')] \<and> ctx_deadline (fst res) = None"
proof -
  let ?res = "outgoing demo_num E0 (buildClaimForwarder demo_claims) Background
               (\<lambda>_. AMapClaims [(''sub'', AString ''u1'')])"
  have "snd ?res = None" and "ctx_md (fst ?res) = [(''x-user'', ''u1''), (''tier'', ''free'')]"
    and "ctx_deadline Background = None"
    by code_simp+
  with claim_forwarding [of "\<lambda>_. AMapClaims [(''sub'', AString ''u1'')]" demo_claims demo_num E0 Background]
  show ?thesis unfolding Let_def by metis
qed

end
