(* ===== verification/SF_Route.thy ===== *)
theory SF_Route
  imports SF_Breaker SF_Balancer SF_Claims
begin

text \<open>
  The compiled form of a gateway route: the retry policy (\<open>retry.go\<close>), the canonical RPC name and
  \<open>newProxyRoute\<close> (\<open>proxy.go\<close>), and the two package-level tables of proxy invokers and stream
  codecs keyed by that name (\<open>proxy.go\<close>, \<open>proxy_stream.go\<close>).
\<close>

section \<open>Retry policy\<close>

definition defaultRetryOn :: "code list" where
  "defaultRetryOn = [CodeUnavailable, CodeDeadlineExceeded]"

record retryPolicy =
  rp_maxAttempts :: int
  rp_perTryTimeout :: int
  rp_backoff :: int
  rp_retryOn :: "(code, unit) gomap"

definition retryCodes :: "RetryConfig \<Rightarrow> code list" where
  "retryCodes cfg =
     (if rc_RetryOn cfg = [] then defaultRetryOn
      else map toUpper (filter (\<lambda>t. t \<noteq> []) (map trimSpace (rc_RetryOn cfg))))"

definition buildRetryPolicy :: "RetryConfig option \<Rightarrow> retryPolicy option" where
  "buildRetryPolicy cfg =
     (case cfg of
        None \<Rightarrow> None
      | Some c \<Rightarrow>
          if rc_MaxAttempts c \<le> 1 then None
          else Some \<lparr>rp_maxAttempts = rc_MaxAttempts c, rp_perTryTimeout = rc_PerTryTimeout c,
                     rp_backoff = rc_Backoff c,
                     rp_retryOn = fold (\<lambda>code. AList.update code ()) (retryCodes c) []\<rparr>)"

definition retryable :: "errors_pkg \<Rightarrow> retryPolicy \<Rightarrow> go_error option \<Rightarrow> bool" where
  "retryable E p err =
     (case err of None \<Rightarrow> False | Some e \<Rightarrow> map_of (rp_retryOn p) (errorCode E e) \<noteq> None)"

lemma map_of_fold_unit:
  "map_of (fold (\<lambda>c. AList.update c ()) cs m) c \<noteq> None \<longleftrightarrow> c \<in> set cs \<or> map_of m c \<noteq> None"
  by (induction cs arbitrary: m) (auto simp: gomap)

lemma buildRetryPolicy_attempts: "buildRetryPolicy cfg = Some p \<Longrightarrow> 1 < rp_maxAttempts p"
  by (auto simp: buildRetryPolicy_def split: option.splits if_splits)

lemma retryable_codes:
  "buildRetryPolicy (Some c) = Some p \<Longrightarrow>
   retryable E p (Some e) \<longleftrightarrow> errorCode E e \<in> set (retryCodes c)"
  using map_of_fold_unit [of "retryCodes c" "[]" "errorCode E e"]
  by (auto simp: buildRetryPolicy_def retryable_def split: if_splits)

section \<open>RPC names\<close>

definition splitFullRPC :: "string \<Rightarrow> (string \<times> string) result" where
  "splitFullRPC value =
     (let v = trimSpace (trimPrefix value ''/'')
      in case split_on (CHR ''/'') v of
           [a, b] \<Rightarrow>
             if trimSpace a = [] \<or> trimSpace b = []
             then Inl (PlainError (''rpc must use /package.Service/Method format: '' @ v))
             else Inr (a, b)
         | _ \<Rightarrow> Inl (PlainError (''rpc must use /package.Service/Method format: '' @ v)))"

definition normalizeRPC :: "string \<Rightarrow> (string \<times> string) result" where
  "normalizeRPC value =
     (case splitFullRPC value of
        Inl e \<Rightarrow> Inl e
      | Inr (service, meth) \<Rightarrow> Inr (''/'' @ service @ ''/'' @ meth, service))"

definition routeLabel :: "GatewayRouteConfig \<Rightarrow> string" where
  "routeLabel cfg = (if rt_Name cfg \<noteq> [] then rt_Name cfg else if rt_Path cfg \<noteq> [] then rt_Path cfg else rt_RPC cfg)"

lemma splitFullRPC_parts:
  assumes "splitFullRPC v = Inr (a, b)"
  shows "trimSpace (trimPrefix v ''/'') = a @ ''/'' @ b \<and> CHR ''/'' \<notin> set a \<and> CHR ''/'' \<notin> set b \<and>
    trimSpace a \<noteq> [] \<and> trimSpace b \<noteq> []"
proof -
  let ?v = "trimSpace (trimPrefix v ''/'')"
  have s: "split_on (CHR ''/'') ?v = [a, b]" and n: "trimSpace a \<noteq> []" "trimSpace b \<noteq> []"
    using assms by (auto simp: splitFullRPC_def Let_def split: list.splits if_splits)
  from s have "?v = a @ ''/'' @ b" using join_split_on [of "CHR ''/''" ?v] by simp
  with s n show ?thesis
    using split_on_no_sep [of a "CHR ''/''" ?v] split_on_no_sep [of b "CHR ''/''" ?v] by auto
qed

lemma splitFullRPC_canonical:
  assumes "splitFullRPC v = Inr (a, b)"
  shows "splitFullRPC (''/'' @ a @ ''/'' @ b) = Inr (a, b)"
proof -
  let ?t = "a @ ''/'' @ b"
  from splitFullRPC_parts [OF assms] have t: "trimSpace (trimPrefix v ''/'') = ?t"
    and ns: "CHR ''/'' \<notin> set a" "CHR ''/'' \<notin> set b" and ne: "trimSpace a \<noteq> []" "trimSpace b \<noteq> []"
    by blast+
  have "trimSpace ?t = ?t" using t by (metis trimSpace_idem)
  moreover have "trimPrefix (''/'' @ ?t) ''/'' = ?t" by (rule trimPrefix_append)
  moreover have "split_on (CHR ''/'') ?t = [a, b]"
    using split_on_append_sep [OF ns(1), of b] split_on_id [OF ns(2)] by simp
  ultimately show ?thesis using ne by (simp add: splitFullRPC_def Let_def)
qed

lemma normalizeRPC_idem: "normalizeRPC v = Inr (full, svc) \<Longrightarrow> normalizeRPC full = Inr (full, svc)"
  using splitFullRPC_canonical [of v]
  by (auto simp: normalizeRPC_def split: sum.splits)

section \<open>Routes\<close>

type_synonym conn = nat

record ('i, 'c) proxyRoute =
  pr_cfg :: GatewayRouteConfig
  pr_fullRPC :: string
  pr_rpcService :: string
  pr_invoker :: "'i option"
  pr_streamCodec :: "'c option"
  pr_retry :: "retryPolicy option"
  pr_breaker :: "circuitBreaker option"
  pr_balancer :: balancer
  pr_claims :: "claimForwarder option"
  pr_conns :: "conn list"

definition routeMethod :: "GatewayRouteConfig \<Rightarrow> string" where
  "routeMethod cfg =
     (if trimSpace (rt_Method cfg) = [] then (if trimSpace (rt_Stream cfg) \<noteq> [] then ''GET'' else ''POST'')
      else rt_Method cfg)"

definition newProxyRoute :: "GatewayRouteConfig \<Rightarrow> ('i, 'c) proxyRoute result" where
  "newProxyRoute cfg =
     (if trimSpace (rt_Path cfg) = [] then Inl (PlainError ''gateway route path is required'')
      else if trimSpace (rt_RPC cfg) = [] then Inl (PlainError ''gateway route rpc is required'')
      else case normalizeRPC (rt_RPC cfg) of
             Inl e \<Rightarrow> Inl e
           | Inr (fullRPC, service) \<Rightarrow>
               if trimSpace (rt_Service cfg) = [] \<and> trimSpace (rt_Target cfg) = []
               then Inl (PlainError (''gateway route '' @ routeLabel cfg @ '' must set service or target''))
               else Inr \<lparr>pr_cfg = cfg\<lparr>rt_Method := routeMethod cfg\<rparr>, pr_fullRPC = fullRPC,
                         pr_rpcService = service, pr_invoker = None, pr_streamCodec = None,
                         pr_retry = buildRetryPolicy (rt_Retry cfg),
                         pr_breaker = newCircuitBreaker (rt_CircuitBreaker cfg),
                         pr_balancer = buildBalancer (rt_LoadBalance cfg),
                         pr_claims = buildClaimForwarder (rt_ForwardClaims cfg),
                         pr_conns = []\<rparr>)"

lemma routeMethod_nonempty [simp]: "trimSpace (routeMethod cfg) \<noteq> []"
  by (simp add: routeMethod_def trimSpace_Nil_iff is_space_def)

section \<open>Tables keyed by RPC name\<close>

text \<open>
  \<open>proxyInvokers\<close> and \<open>streamProxies\<close> are concurrent maps (\<open>sync.Map\<close>) from the canonical name;
  a nil invoker or factory is \<open>None\<close>.
\<close>

definition RegisterProxyInvoker ::
  "string \<Rightarrow> 'i option \<Rightarrow> (string, 'i) gomap \<Rightarrow> (string, 'i) gomap result" where
  "RegisterProxyInvoker rpc invoker tab =
     (case invoker of
        None \<Rightarrow> Inl (PlainError ''proxy invoker is required'')
      | Some ivk \<Rightarrow>
          (case normalizeRPC rpc of
             Inl e \<Rightarrow> Inl e
           | Inr (fullRPC, _) \<Rightarrow> Inr (AList.update fullRPC ivk tab)))"

definition MustRegisterProxyInvoker ::
  "string \<Rightarrow> 'i option \<Rightarrow> (string, 'i) gomap \<Rightarrow> (string, 'i) gomap outcome" where
  "MustRegisterProxyInvoker rpc invoker tab =
     (case RegisterProxyInvoker rpc invoker tab of Inl e \<Rightarrow> Panic (Error e) | Inr t \<Rightarrow> Ret t)"

definition lookupProxyInvoker :: "string \<Rightarrow> (string, 'i) gomap \<Rightarrow> 'i option" where
  "lookupProxyInvoker fullRPC tab = map_of tab fullRPC"

definition unregisterProxyInvoker :: "string \<Rightarrow> (string, 'i) gomap \<Rightarrow> (string, 'i) gomap" where
  "unregisterProxyInvoker rpc tab =
     (case normalizeRPC rpc of Inl _ \<Rightarrow> tab | Inr (fullRPC, _) \<Rightarrow> AList.delete fullRPC tab)"

definition streamKindBidi :: string where "streamKindBidi = ''bidi''"
definition streamKindSSE :: string where "streamKindSSE = ''sse''"

record 'f streamCodec =
  sc_kind :: string
  sc_newRecv :: 'f
  sc_newSend :: 'f

definition storeCodec ::
  "string \<Rightarrow> string \<Rightarrow> 'f \<Rightarrow> 'f \<Rightarrow> (string, 'f streamCodec) gomap \<Rightarrow> (string, 'f streamCodec) gomap result" where
  "storeCodec kind rpc recv send tab =
     (case normalizeRPC rpc of
        Inl e \<Rightarrow> Inl e
      | Inr (fullRPC, _) \<Rightarrow>
          Inr (AList.update fullRPC \<lparr>sc_kind = kind, sc_newRecv = recv, sc_newSend = send\<rparr> tab))"

definition RegisterBidiStreamProxy ::
  "string \<Rightarrow> 'f option \<Rightarrow> 'f option \<Rightarrow> (string, 'f streamCodec) gomap \<Rightarrow> (string, 'f streamCodec) gomap result" where
  "RegisterBidiStreamProxy rpc newRecv newSend tab =
     (case (newRecv, newSend) of
        (Some recv, Some send) \<Rightarrow> storeCodec streamKindBidi rpc recv send tab
      | _ \<Rightarrow> Inl (PlainError ''stream proxy requires newRecv and newSend factories''))"

definition RegisterServerStreamProxy ::
  "string \<Rightarrow> 'f option \<Rightarrow> 'f option \<Rightarrow> (string, 'f streamCodec) gomap \<Rightarrow> (string, 'f streamCodec) gomap result" where
  "RegisterServerStreamProxy rpc newReq newResp tab =
     (case (newReq, newResp) of
        (Some req, Some resp) \<Rightarrow> storeCodec streamKindSSE rpc resp req tab
      | _ \<Rightarrow> Inl (PlainError ''server stream proxy requires newReq and newResp factories''))"

definition MustRegisterBidiStreamProxy ::
  "string \<Rightarrow> 'f option \<Rightarrow> 'f option \<Rightarrow> (string, 'f streamCodec) gomap \<Rightarrow> (string, 'f streamCodec) gomap outcome" where
  "MustRegisterBidiStreamProxy rpc newRecv newSend tab =
     (case RegisterBidiStreamProxy rpc newRecv newSend tab of Inl e \<Rightarrow> Panic (Error e) | Inr t \<Rightarrow> Ret t)"

definition MustRegisterServerStreamProxy ::
  "string \<Rightarrow> 'f option \<Rightarrow> 'f option \<Rightarrow> (string, 'f streamCodec) gomap \<Rightarrow> (string, 'f streamCodec) gomap outcome" where
  "MustRegisterServerStreamProxy rpc newReq newResp tab =
     (case RegisterServerStreamProxy rpc newReq newResp tab of Inl e \<Rightarrow> Panic (Error e) | Inr t \<Rightarrow> Ret t)"

definition lookupStreamProxy :: "string \<Rightarrow> (string, 'f streamCodec) gomap \<Rightarrow> 'f streamCodec option" where
  "lookupStreamProxy fullRPC tab = map_of tab fullRPC"

definition unregisterStreamProxy :: "string \<Rightarrow> (string, 'f streamCodec) gomap \<Rightarrow> (string, 'f streamCodec) gomap" where
  "unregisterStreamProxy rpc tab =
     (case normalizeRPC rpc of Inl _ \<Rightarrow> tab | Inr (fullRPC, _) \<Rightarrow> AList.delete fullRPC tab)"

text \<open>The key of a spelling of an RPC name; spellings that are refused have no key.\<close>

definition rpc_key :: "string \<Rightarrow> string option" where
  "rpc_key rpc = (case normalizeRPC rpc of Inl _ \<Rightarrow> None | Inr (full, _) \<Rightarrow> Some full)"

interpretation rpcreg: name_registry map_of AList.update AList.delete gm_keys gm_wf "\<lambda>rpc. the (rpc_key rpc)"
  by unfold_locales

lemma Register_rpc_key:
  "RegisterProxyInvoker rpc (Some ivk) tab =
     (case rpc_key rpc of
        None \<Rightarrow> Inl (projl (normalizeRPC rpc))
      | Some k \<Rightarrow> Inr (AList.update k ivk tab))"
  by (auto simp: RegisterProxyInvoker_def rpc_key_def split: sum.splits)

lemma unregister_rpc_key:
  "unregisterProxyInvoker rpc tab = (case rpc_key rpc of None \<Rightarrow> tab | Some k \<Rightarrow> AList.delete k tab)"
  by (auto simp: unregisterProxyInvoker_def rpc_key_def split: sum.splits)

lemma rpc_key_newProxyRoute: "newProxyRoute cfg = Inr r \<Longrightarrow> rpc_key (rt_RPC cfg) = Some (pr_fullRPC r)"
  by (auto simp: newProxyRoute_def rpc_key_def split: sum.splits if_splits)

text \<open>C27: a registered invoker is found by every route that names its RPC. Canonical names are
  fixed points of \<open>normalizeRPC\<close>; an invoker registered under one spelling is what a route
  configured with any other spelling of the same RPC looks up, routes of other RPCs see what
  they saw before, and unregistering under any spelling removes it.\<close>

theorem invoker_found_by_route:
  assumes "gm_wf tab" and "RegisterProxyInvoker rpc (Some ivk) tab = Inr tab'"
    and "newProxyRoute cfg = Inr (r :: ('i, 'c) proxyRoute)"
  shows "normalizeRPC (pr_fullRPC r) = Inr (pr_fullRPC r, pr_rpcService r) \<and>
         lookupProxyInvoker (pr_fullRPC r) tab' =
           (if rpc_key rpc = rpc_key (rt_RPC cfg) then Some ivk else lookupProxyInvoker (pr_fullRPC r) tab) \<and>
         (rpc_key rpc' = rpc_key rpc \<longrightarrow>
            lookupProxyInvoker (pr_fullRPC r) (unregisterProxyInvoker rpc' tab') =
              (if rpc_key rpc = rpc_key (rt_RPC cfg) then None else lookupProxyInvoker (pr_fullRPC r) tab))"
proof -
  have k: "rpc_key (rt_RPC cfg) = Some (pr_fullRPC r)"
    using assms(3) by (rule rpc_key_newProxyRoute)
  obtain k' where k': "rpc_key rpc = Some k'" and tab': "tab' = AList.update k' ivk tab"
    using assms(2) unfolding Register_rpc_key by (auto split: option.splits)
  have "normalizeRPC (rt_RPC cfg) = Inr (pr_fullRPC r, pr_rpcService r)"
    using assms(3) by (auto simp: newProxyRoute_def split: sum.splits if_splits)
  then have "normalizeRPC (pr_fullRPC r) = Inr (pr_fullRPC r, pr_rpcService r)"
    by (rule normalizeRPC_idem)
  moreover have "lookupProxyInvoker (pr_fullRPC r) tab' =
      (if k' = pr_fullRPC r then Some ivk else lookupProxyInvoker (pr_fullRPC r) tab)"
    using rpcreg.lookup_same [OF assms(1), of rpc "rt_RPC cfg" ivk]
      rpcreg.lookup_other [OF assms(1), of rpc "rt_RPC cfg" ivk] k k' tab'
    by (simp add: lookupProxyInvoker_def)
  ultimately show ?thesis
    using k k' tab' by (simp add: unregister_rpc_key lookupProxyInvoker_def gomap)
qed

definition demo_route :: GatewayRouteConfig where
  "demo_route =
     \<lparr>rt_Name = ''get-todo'', rt_Method = '' '', rt_Path = ''/todos/:id'', rt_Service = ''todo'',
      rt_Target = [], rt_RPC = ''todo.v1.Todo/Get '', rt_Timeout = 0, rt_PoolSize = 0,
      rt_LoadBalance = ''LEAST_CONN'', rt_Stream = [], rt_Retry = None, rt_CircuitBreaker = None,
      rt_ForwardClaims = [], rt_SkipGlobalPlugins = [], rt_Plugins = []\<rparr>"

theorem invoker_found_by_route_witness:
  "lookupProxyInvoker ''/todo.v1.Todo/Get'' [(''/todo.v1.Todo/Get'', 7 :: nat)] = Some 7 \<and>
   lookupProxyInvoker ''/todo.v1.Todo/Get''
     (unregisterProxyInvoker ''/todo.v1.Todo/Get'' [(''/todo.v1.Todo/Get'', 7 :: nat)]) = None"
proof -
  let ?r = "projr (newProxyRoute demo_route) :: (nat, nat) proxyRoute"
  have reg: "RegisterProxyInvoker ''/todo.v1.Todo/Get'' (Some (7 :: nat)) [] = Inr [(''/todo.v1.Todo/Get'', 7)]"
    and r: "newProxyRoute demo_route = Inr ?r" and full: "pr_fullRPC ?r = ''/todo.v1.Todo/Get''"
    and k: "rpc_key ''/todo.v1.Todo/Get'' = rpc_key (rt_RPC demo_route)"
    by code_simp+
  from invoker_found_by_route [OF _ reg r, of "''/todo.v1.Todo/Get''"] full k show ?thesis by simp
qed

end
