(* ===== verification/SF_Dialer.thy ===== *)
theory SF_Dialer
  imports SF_Memory SF_Route
begin

text \<open>
  \<open>transport/grpcclient/client.go\<close>: the dialer that caches one client connection per target and
  resolves service names through a registry. \<open>grpc.NewClient\<close> and \<open>ClientConn.Close\<close> belong to
  the gRPC library: they are the fields of \<open>grpc_lib\<close>, acting on a world \<open>'w\<close>. A connection is a
  handle.

  \<open>DialTarget\<close> takes the mutex twice, so its two critical sections are separate definitions and a
  concurrent run may interleave them.
\<close>

record 'w grpc_lib =
  gl_NewClient :: "string \<Rightarrow> 'w \<Rightarrow> 'w \<times> conn result"
  gl_Close :: "conn \<Rightarrow> 'w \<Rightarrow> 'w \<times> go_error option"

record 'w Dialer =
  d_resolver :: "(string \<Rightarrow> 'w \<Rightarrow> 'w \<times> ServiceInstance list result) option"
  d_conns :: "(string, conn) gomap"

definition NewDialer :: "(string \<Rightarrow> 'w \<Rightarrow> 'w \<times> ServiceInstance list result) option \<Rightarrow> 'w Dialer" where
  "NewDialer resolver = \<lparr>d_resolver = resolver, d_conns = []\<rparr>"

definition dial_cached :: "string \<Rightarrow> 'w Dialer \<Rightarrow> conn option" where
  "dial_cached target d = map_of (d_conns d) target"

definition dial_store :: "string \<Rightarrow> conn \<Rightarrow> 'w Dialer \<Rightarrow> 'w Dialer" where
  "dial_store target c d = d\<lparr>d_conns := AList.update target c (d_conns d)\<rparr>"

definition DialTarget ::
  "'w grpc_lib \<Rightarrow> string \<Rightarrow> 'w Dialer \<Rightarrow> 'w \<Rightarrow> 'w Dialer \<times> 'w \<times> conn result" where
  "DialTarget lib target d w =
     (case dial_cached target d of
        Some c \<Rightarrow> (d, w, Inr c)
      | None \<Rightarrow>
          (case gl_NewClient lib target w of
             (w', Inl e) \<Rightarrow> (d, w', Inl e)
           | (w', Inr c) \<Rightarrow> (dial_store target c d, w', Inr c)))"

definition DialTargetFresh :: "'w grpc_lib \<Rightarrow> string \<Rightarrow> 'w \<Rightarrow> 'w \<times> conn result" where
  "DialTargetFresh lib target w = gl_NewClient lib target w"

definition DialService ::
  "'w grpc_lib \<Rightarrow> string \<Rightarrow> 'w Dialer \<Rightarrow> 'w \<Rightarrow> 'w Dialer \<times> 'w \<times> conn result" where
  "DialService lib serviceName d w =
     (case d_resolver d of
        None \<Rightarrow> DialTarget lib serviceName d w
      | Some resolve \<Rightarrow>
          (case resolve serviceName w of
             (w', Inl e) \<Rightarrow> (d, w', Inl e)
           | (w', Inr []) \<Rightarrow> (d, w', Inl (PlainError (''service not found: '' @ serviceName)))
           | (w', Inr (i # _)) \<Rightarrow> DialTarget lib (si_Address i @ '':'' @ itoa (si_Port i)) d w'))"

text \<open>The loop of \<open>Close\<close> over the map, with the first error met so far.\<close>

fun close_all ::
  "'w grpc_lib \<Rightarrow> (string, conn) gomap \<Rightarrow> go_error option \<Rightarrow> 'w \<Rightarrow> 'w \<times> go_error option" where
  "close_all lib [] firstErr w = (w, firstErr)"
| "close_all lib ((target, c) # rest) firstErr w =
     (case gl_Close lib c w of
        (w', err) \<Rightarrow> close_all lib rest (if err \<noteq> None \<and> firstErr = None then err else firstErr) w')"

definition Dialer_Close :: "'w grpc_lib \<Rightarrow> 'w Dialer \<Rightarrow> 'w \<Rightarrow> 'w Dialer \<times> 'w \<times> go_error option" where
  "Dialer_Close lib d w =
     (case close_all lib (d_conns d) None w of (w', err) \<Rightarrow> (d\<lparr>d_conns := []\<rparr>, w', err))"

section \<open>The dialling contract\<close>

text \<open>
  What the proxy relies on: a successful dial is remembered, so that the next dial of the same
  target returns the same connection and does not touch the world, and dials of one target leave
  the others alone.
\<close>

locale dialing =
  fixes dial :: "string \<Rightarrow> 'd \<Rightarrow> 'w \<Rightarrow> 'd \<times> 'w \<times> conn result"
    and known :: "string \<Rightarrow> 'd \<Rightarrow> conn option"
  assumes dial_known: "known t d = Some c \<Longrightarrow> dial t d w = (d, w, Inr c)"
    and dial_remembers: "dial t d w = (d', w', Inr c) \<Longrightarrow> known t d' = Some c"
    and dial_others: "dial t d w = (d', w', r) \<Longrightarrow> u \<noteq> t \<Longrightarrow> known u d' = known u d"
    and dial_failure: "dial t d w = (d', w', Inl e) \<Longrightarrow> d' = d"
begin

lemma redial: "dial t d w = (d', w', Inr c) \<Longrightarrow> dial t d' w'' = (d', w'', Inr c)"
  using dial_known dial_remembers by blast

lemma known_kept: "dial t d w = (d', w', r) \<Longrightarrow> known u d = Some c \<Longrightarrow> known u d' = Some c"
  by (cases "u = t") (simp_all add: dial_known dial_others)

end

interpretation dt: dialing "DialTarget lib" dial_cached for lib
proof unfold_locales
  fix t u c w w' r e and d d' :: "'a Dialer"
  show "dial_cached t d = Some c \<Longrightarrow> DialTarget lib t d w = (d, w, Inr c)"
    by (simp add: DialTarget_def)
  show "DialTarget lib t d w = (d', w', Inr c) \<Longrightarrow> dial_cached t d' = Some c"
    by (auto simp: DialTarget_def dial_cached_def dial_store_def gomap split: option.splits prod.splits sum.splits)
  show "DialTarget lib t d w = (d', w', r) \<Longrightarrow> u \<noteq> t \<Longrightarrow> dial_cached u d' = dial_cached u d"
    by (auto simp: DialTarget_def dial_cached_def dial_store_def gomap split: option.splits prod.splits sum.splits)
  show "DialTarget lib t d w = (d', w', Inl e) \<Longrightarrow> d' = d"
    by (auto simp: DialTarget_def split: option.splits prod.splits sum.splits)
qed

section \<open>Properties\<close>

text \<open>The resolver a dialer gets from the in-memory registry.\<close>

definition memory_resolver :: "(Registry \<times> 'w) \<Rightarrow> string \<Rightarrow> (Registry \<times> 'w) \<times> ServiceInstance list result" where
  "memory_resolver w name = (w, Inr (Resolve name (fst w)))"

text \<open>Service dialling over the in-memory registry. Dialling a service succeeds only with a
  connection to an address and port under which an instance of that name is registered at that
  moment; it fails with "service not found", changing nothing, when none is; and a second dial of the same
  unchanged service reuses the connection without creating another.\<close>

theorem dial_service_registered:
  assumes "registry_ok (fst w)" and "d_resolver d = Some (\<lambda>name w. memory_resolver w name)"
    and "DialService lib name d w = (d', w', r)"
  shows "(\<forall>c. r = Inr c \<longrightarrow>
            (\<exists>s. map_of (services (fst w)) (si_ID s) = Some s \<and> si_Name s = name \<and>
                 dial_cached (si_Address s @ '':'' @ itoa (si_Port s)) d' = Some c) \<and>
            (fst w' = fst w \<longrightarrow> DialService lib name d' w' = (d', w', Inr c))) \<and>
         ((\<nexists>s. map_of (services (fst w)) (si_ID s) = Some s \<and> si_Name s = name) \<longrightarrow>
            r = Inl (PlainError (''service not found: '' @ name)) \<and> d' = d \<and> w' = w)"
proof -
  have set_eq: "set (Resolve name (fst w)) = {s. map_of (services (fst w)) (si_ID s) = Some s \<and> si_Name s = name}"
    by (rule mr.resolve_view [OF assms(1)])
  show ?thesis
  proof (cases "Resolve name (fst w)")
    case Nil
    with assms set_eq show ?thesis
      by (auto simp: DialService_def memory_resolver_def)
  next
    case (Cons i rest)
    let ?t = "si_Address i @ '':'' @ itoa (si_Port i)"
    have i: "map_of (services (fst w)) (si_ID i) = Some i \<and> si_Name i = name"
      using set_eq Cons by auto
    have dial: "DialTarget lib ?t d w = (d', w', r)"
      using assms(2,3) Cons by (simp add: DialService_def memory_resolver_def)
    have res: "d_resolver d' = d_resolver d"
      using dial by (auto simp: DialTarget_def dial_store_def split: option.splits prod.splits sum.splits)
    have "DialService lib name d' w' = (d', w', Inr c)" if "r = Inr c" and "fst w' = fst w" for c
      using that dt.redial [OF dial [unfolded that(1)], of w'] assms(2) res Cons
      by (simp add: DialService_def memory_resolver_def)
    moreover have "dial_cached ?t d' = Some c" if "r = Inr c" for c
      using dt.dial_remembers [OF dial [unfolded that]] .
    ultimately show ?thesis using i by blast
  qed
qed

definition demo_instance :: ServiceInstance where
  "demo_instance =
     \<lparr>si_ID = ''t1'', si_Name = ''todo'', si_Version = ''v1'', si_Address = ''10.0.0.1'', si_Port = 9000,
      si_Protocol = ''grpc'', si_Tags = [], si_Metadata = []\<rparr>"

text \<open>A gRPC library that hands out the handles 0, 1, 2 and so on.\<close>

definition count_lib :: "(Registry \<times> nat) grpc_lib" where
  "count_lib = \<lparr>gl_NewClient = (\<lambda>t (r, n). ((r, n + 1), Inr n)), gl_Close = (\<lambda>c w. (w, None))\<rparr>"

theorem dial_service_registered_witness:
  "let d = NewDialer (Some (\<lambda>name w. memory_resolver w name));
       w = (Register demo_instance NewRegistry, 0);
       d' = fst (DialService count_lib ''todo'' d w)
   in DialService count_lib ''todo'' d' (fst w, 1) = (d', (fst w, 1), Inr 0)"
proof -
  let ?d = "NewDialer (Some (\<lambda>name w. memory_resolver w name)) :: (Registry \<times> nat) Dialer"
  let ?w = "(Register demo_instance NewRegistry, 0) :: Registry \<times> nat"
  have ok: "registry_ok (fst ?w)" by (simp add: registry_ok_def Register_def NewRegistry_def gm_wf_def)
  have r: "d_resolver ?d = Some (\<lambda>name w. memory_resolver w name)" by (simp add: NewDialer_def)
  have run: "DialService count_lib ''todo'' ?d ?w =
      (fst (DialService count_lib ''todo'' ?d ?w), (fst ?w, 1), Inr 0)"
    by (simp add: DialService_def NewDialer_def memory_resolver_def Resolve_def Register_def
        NewRegistry_def demo_instance_def DialTarget_def dial_cached_def count_lib_def)
  from dial_service_registered [OF ok r run] show ?thesis by (simp add: Let_def)
qed

lemma close_all_world:
  "fst (close_all lib m firstErr w) = fold (\<lambda>c w. fst (gl_Close lib c w)) (map snd m) w"
  by (induction lib m firstErr w rule: close_all.induct) (auto split: prod.splits)

text \<open>Closing the dialer closes every cached connection exactly once and forgets them all, even
  when some of them fail to close; the error returned is then an error of one of them.\<close>

theorem dialer_close_all:
  "\<exists>w' err. Dialer_Close lib d w = (d\<lparr>d_conns := []\<rparr>, w', err) \<and>
     w' = fold (\<lambda>c w. fst (gl_Close lib c w)) (map snd (d_conns d)) w \<and>
     (err = None \<longleftrightarrow>
        (\<forall>pre t c post. d_conns d = pre @ (t, c) # post \<longrightarrow>
           snd (gl_Close lib c (fold (\<lambda>c w. fst (gl_Close lib c w)) (map snd pre) w)) = None))"
proof -
  have err: "snd (close_all lib m fe w) = None \<longleftrightarrow> fe = None \<and>
      (\<forall>pre t c post. m = pre @ (t, c) # post \<longrightarrow>
           snd (gl_Close lib c (fold (\<lambda>c w. fst (gl_Close lib c w)) (map snd pre) w)) = None)" for m fe w
  proof (induction m arbitrary: fe w)
    case Nil
    then show ?case by simp
  next
    case (Cons p m)
    obtain t c where p: "p = (t, c)" by force
    obtain w1 e1 where cl: "gl_Close lib c w = (w1, e1)" by force
    have split: "(\<forall>pre t' c' post. p # m = pre @ (t', c') # post \<longrightarrow> P pre c') \<longleftrightarrow>
        P [] c \<and> (\<forall>pre t' c' post. m = pre @ (t', c') # post \<longrightarrow> P (p # pre) c')" for P
      by (auto simp: p Cons_eq_append_conv)
    show ?case
      unfolding split using Cons.IH [of _ w1] by (auto simp: p cl)
  qed
  have "close_all lib (d_conns d) None w = (fst (close_all lib (d_conns d) None w), snd (close_all lib (d_conns d) None w))"
    by simp
  with err [of "d_conns d" None w] close_all_world [of lib "d_conns d" None w] show ?thesis
    by (auto simp: Dialer_Close_def split: prod.splits)
qed

theorem dialer_close_all_witness:
  "\<exists>w' err. Dialer_Close count_lib \<lparr>d_resolver = None, d_conns = [(''a:1'', 0), (''b:2'', 1)]\<rparr> (NewRegistry, 2) =
     (\<lparr>d_resolver = None, d_conns = []\<rparr>, w', err)"
  using dialer_close_all [of count_lib "\<lparr>d_resolver = None, d_conns = [(''a:1'', 0), (''b:2'', 1)]\<rparr>" "(NewRegistry, 2)"]
  by (auto simp: dial_store_def)

text \<open>Concurrent first dials of one target leak a connection. When two callers both find the
  target missing before either stores its connection, both create one, the later store replaces
  the earlier, and the earlier connection is in no slot of the dialer any more, so \<open>Close\<close> will
  not close it.\<close>

theorem dial_race_leaks:
  assumes "dial_cached t d = None" and "c1 \<notin> set (map snd (d_conns d))"
    and "gl_NewClient lib t w = (w1, Inr c1)" and "gl_NewClient lib t w1 = (w2, Inr c2)" and "c1 \<noteq> c2"
  shows "let d1 = dial_store t c1 d; d2 = dial_store t c2 d1
         in DialTarget lib t d w = (d1, w1, Inr c1) \<and> DialTarget lib t d w1 = (dial_store t c2 d, w2, Inr c2) \<and>
            dial_cached t d2 = Some c2 \<and> c1 \<notin> set (map snd (d_conns d2))"
proof -
  have u: "AList.update t c2 (AList.update t c1 m) = AList.update t c2 m" for m :: "(string, conn) gomap"
    by (induction m) auto
  have "set (AList.update t c2 (d_conns d)) \<subseteq> insert (t, c2) (set (d_conns d))"
    by (rule set_update_subset)
  with assms show ?thesis
    by (auto simp: Let_def DialTarget_def dial_store_def dial_cached_def gomap u)
qed

theorem dial_race_leaks_witness:
  "let d1 = dial_store ''a:1'' 0 (NewDialer None); d2 = dial_store ''a:1'' 1 d1
   in dial_cached ''a:1'' d2 = Some 1 \<and> 0 \<notin> set (map snd (d_conns d2))"
  using dial_race_leaks [of "''a:1''" "NewDialer None :: (Registry \<times> nat) Dialer" 0 count_lib "(NewRegistry, 0)" "(NewRegistry, 1)"
    "(NewRegistry, 2)" 1]
  by (simp add: Let_def NewDialer_def dial_cached_def count_lib_def dial_store_def)

end
