(* ===== verification/SF_Proxy.thy ===== *)
theory SF_Proxy
  imports SF_Dialer
begin

text \<open>
  \<open>transport/gateway/proxy.go\<close>: one proxied request. The state \<open>px\<close> holds what the request shares
  with others: the route's breaker and balancer, the dialer, and a world \<open>'w\<close> (backends and
  responses). An invoker runs on the whole state, so its effect may include everything that other
  requests do while it waits; so does \<open>at_idle\<close>, the effect of the others during a backoff.
  A panic is an outcome of its own and keeps the state it left behind.
\<close>

section \<open>State and environment\<close>

record 'w px =
  px_breaker :: circuitBreaker
  px_balancer :: balancer
  px_dialer :: "'w Dialer"
  px_world :: 'w

datatype reply = Handled | Data any

type_synonym 'w invoker = "ctx \<Rightarrow> conn \<Rightarrow> 'w px \<Rightarrow> 'w px \<times> reply result outcome"

text \<open>
  What one attempt reads from its surroundings: the clock, the random draw of the balancer, and
  for the wait before it whether the request context ended first (\<open>ctx.Err()\<close>).
\<close>

record 'w attempt_env =
  at_now :: int
  at_draw :: nat
  at_abort :: "go_error option"
  at_idle :: "'w px \<Rightarrow> 'w px"

text \<open>The libraries and the request a call works with.\<close>

record 'w call_env =
  ce_lib :: "'w grpc_lib"
  ce_num :: num_env
  ce_err :: errors_pkg
  ce_locals :: "string \<Rightarrow> any"
  ce_ctx :: ctx

type_synonym ('w, 'c) route = "('w invoker, 'c) proxyRoute"

section \<open>One attempt\<close>

definition attemptTimeout :: "('i, 'c) proxyRoute \<Rightarrow> int" where
  "attemptTimeout r =
     (case pr_retry r of
        Some p \<Rightarrow> if rp_perTryTimeout p > 0 then rp_perTryTimeout p else rt_Timeout (pr_cfg r)
      | None \<Rightarrow> rt_Timeout (pr_cfg r))"

definition pickConn ::
  "('i, 'c) proxyRoute \<Rightarrow> nat \<Rightarrow> balancer \<Rightarrow> (balancer \<times> conn option \<times> releaser) outcome" where
  "pickConn r draw b =
     (case length (pr_conns r) of
        0 \<Rightarrow> Ret (b, None, NoopRelease)
      | Suc 0 \<Rightarrow> Ret (b, Some (pr_conns r ! 0), NoopRelease)
      | n \<Rightarrow>
          (case pick draw n b of
             Panic m \<Rightarrow> Panic m
           | Ret (b', idx, rel) \<Rightarrow>
               if idx < n then Ret (b', Some (pr_conns r ! idx), rel) else Panic ''index out of range''))"

definition dial :: "'w grpc_lib \<Rightarrow> GatewayRouteConfig \<Rightarrow> 'w px \<Rightarrow> 'w px \<times> conn result" where
  "dial lib cfg s =
     (case (if trimSpace (rt_Target cfg) \<noteq> [] then DialTarget lib (rt_Target cfg) (px_dialer s) (px_world s)
            else DialService lib (rt_Service cfg) (px_dialer s) (px_world s)) of
        (d, w, res) \<Rightarrow> (s\<lparr>px_dialer := d, px_world := w\<rparr>, res))"

text \<open>From the chosen connection to the invoker: \<open>claims.outgoing\<close>, then \<open>route.invoker\<close>.\<close>

definition callInvoker ::
  "'w call_env \<Rightarrow> ('w, 'c) route \<Rightarrow> ctx \<Rightarrow> conn \<Rightarrow> 'w px \<Rightarrow> 'w px \<times> reply result outcome" where
  "callInvoker ce r cx c s =
     (case outgoing (ce_num ce) (ce_err ce) (pr_claims r) cx (ce_locals ce) of
        (_, Some e) \<Rightarrow> (s, Ret (Inl e))
      | (cx', None) \<Rightarrow>
          (case pr_invoker r of
             None \<Rightarrow> (s, Panic ''nil pointer dereference'')
           | Some ivk \<Rightarrow> ivk cx' c s))"

definition invokeOnce ::
  "'w call_env \<Rightarrow> ('w, 'c) route \<Rightarrow> 'w attempt_env \<Rightarrow> 'w px \<Rightarrow> 'w px \<times> reply result outcome" where
  "invokeOnce ce r env s =
     (let cx = (if attemptTimeout r > 0 then WithTimeout (at_now env) (ce_ctx ce) (attemptTimeout r)
                else ce_ctx ce)
      in case pickConn r (at_draw env) (px_balancer s) of
           Panic m \<Rightarrow> (s, Panic m)
         | Ret (bal, cn, rel) \<Rightarrow>
             (let s1 = s\<lparr>px_balancer := bal\<rparr>;
                  (s2, res) =
                    (case cn of
                       Some c \<Rightarrow> callInvoker ce r cx c s1
                     | None \<Rightarrow>
                         (case dial (ce_lib ce) (pr_cfg r) s1 of
                            (s', Inl e) \<Rightarrow>
                              (s', Ret (Inl (WithCause (New (ce_err ce) CodeUnavailable ''grpc target unavailable'') e)))
                          | (s', Inr c) \<Rightarrow> callInvoker ce r cx c s'))
              in (s2\<lparr>px_balancer := release rel (px_balancer s2)\<rparr>, res)))"

section \<open>Retries and the breaker\<close>

definition retryAborted :: "errors_pkg \<Rightarrow> go_error \<Rightarrow> go_error" where
  "retryAborted E e = WithCause (New E CodeDeadlineExceeded ''gateway retry aborted'') e"

text \<open>The state in which attempt \<open>i\<close> starts: after the wait, if there is one.\<close>

definition waits :: "retryPolicy \<Rightarrow> nat \<Rightarrow> bool" where
  "waits p i \<longleftrightarrow> 0 < i \<and> 0 < rp_backoff p"

definition idle :: "retryPolicy \<Rightarrow> (nat \<Rightarrow> 'w attempt_env) \<Rightarrow> nat \<Rightarrow> 'w px \<Rightarrow> 'w px" where
  "idle p envs i s = (if waits p i then at_idle (envs i) s else s)"

function retryLoop ::
  "'w call_env \<Rightarrow> ('w, 'c) route \<Rightarrow> retryPolicy \<Rightarrow> (nat \<Rightarrow> 'w attempt_env) \<Rightarrow> nat \<Rightarrow> go_error option \<Rightarrow>
   'w px \<Rightarrow> 'w px \<times> reply result outcome" where
  "retryLoop ce r p envs i lastErr s =
     (if int i < rp_maxAttempts p then
        (let s1 = idle p envs i s
         in if waits p i \<and> at_abort (envs i) \<noteq> None
            then (s1, Ret (Inl (retryAborted (ce_err ce) (the (at_abort (envs i))))))
            else (case invokeOnce ce r (envs i) s1 of
                    (s2, Panic m) \<Rightarrow> (s2, Panic m)
                  | (s2, Ret (Inr reply)) \<Rightarrow> (s2, Ret (Inr reply))
                  | (s2, Ret (Inl e)) \<Rightarrow>
                      if retryable (ce_err ce) p (Some e) then retryLoop ce r p envs (i + 1) (Some e) s2
                      else (s2, Ret (Inl e))))
      else (s, Ret (case lastErr of Some e \<Rightarrow> Inl e | None \<Rightarrow> Inr (Data ANil))))"
  by pat_completeness auto
termination
  by (relation "measure (\<lambda>(ce, r, p, envs, i, lastErr, s). nat (rp_maxAttempts p - int i))") auto

declare retryLoop.simps [simp del]

definition invokeWithRetry ::
  "'w call_env \<Rightarrow> ('w, 'c) route \<Rightarrow> (nat \<Rightarrow> 'w attempt_env) \<Rightarrow> 'w px \<Rightarrow> 'w px \<times> reply result outcome" where
  "invokeWithRetry ce r envs s =
     (case pr_retry r of None \<Rightarrow> invokeOnce ce r (envs 0) s | Some p \<Rightarrow> retryLoop ce r p envs 0 None s)"

definition breakerOpenError :: "errors_pkg \<Rightarrow> string \<Rightarrow> go_error" where
  "breakerOpenError E rpc =
     WithDetails (New E CodeUnavailable ''circuit breaker open'') ''rpc'' (AString rpc)"

definition err_of :: "'a result \<Rightarrow> go_error option" where
  "err_of res = (case res of Inl e \<Rightarrow> Some e | Inr _ \<Rightarrow> None)"

text \<open>\<open>Invoke\<close> with the clock readings \<open>t0\<close> of \<open>beforeRequest\<close> and \<open>t1\<close> of \<open>afterRequest\<close>.\<close>

definition Invoke ::
  "'w call_env \<Rightarrow> ('w, 'c) route \<Rightarrow> int \<Rightarrow> int \<Rightarrow> (nat \<Rightarrow> 'w attempt_env) \<Rightarrow> 'w px \<Rightarrow>
   'w px \<times> reply result outcome" where
  "Invoke ce r t0 t1 envs s =
     (case pr_breaker r of
        None \<Rightarrow> invokeWithRetry ce r envs s
      | Some _ \<Rightarrow>
          (case beforeRequest t0 (px_breaker s) of
             (b, gen, allowed) \<Rightarrow>
               (let s1 = s\<lparr>px_breaker := b\<rparr>
                in if \<not> allowed then (s1, Ret (Inl (breakerOpenError (ce_err ce) (pr_fullRPC r))))
                   else (case invokeWithRetry ce r envs s1 of
                           (s2, Panic m) \<Rightarrow> (s2, Panic m)
                         | (s2, Ret res) \<Rightarrow>
                             (s2\<lparr>px_breaker := afterRequest t1 gen
                                    (\<not> isBreakerFailure (ce_err ce) (err_of res)) (px_breaker s2)\<rparr>,
                              Ret res)))))"

section \<open>Attempts\<close>

text \<open>The state after \<open>i\<close> attempts in a row and the result of attempt \<open>i\<close>, without the loop's tests.\<close>

fun att_state ::
  "'w call_env \<Rightarrow> ('w, 'c) route \<Rightarrow> retryPolicy \<Rightarrow> (nat \<Rightarrow> 'w attempt_env) \<Rightarrow> 'w px \<Rightarrow> nat \<Rightarrow> 'w px" where
  "att_state ce r p envs s 0 = s"
| "att_state ce r p envs s (Suc i) = fst (invokeOnce ce r (envs i) (idle p envs i (att_state ce r p envs s i)))"

definition att_res ::
  "'w call_env \<Rightarrow> ('w, 'c) route \<Rightarrow> retryPolicy \<Rightarrow> (nat \<Rightarrow> 'w attempt_env) \<Rightarrow> 'w px \<Rightarrow> nat \<Rightarrow> reply result outcome" where
  "att_res ce r p envs s i = snd (invokeOnce ce r (envs i) (idle p envs i (att_state ce r p envs s i)))"

definition retries :: "errors_pkg \<Rightarrow> retryPolicy \<Rightarrow> reply result outcome \<Rightarrow> bool" where
  "retries E p res = (case res of Ret (Inl e) \<Rightarrow> retryable E p (Some e) | _ \<Rightarrow> False)"

definition aborts :: "retryPolicy \<Rightarrow> (nat \<Rightarrow> 'w attempt_env) \<Rightarrow> nat \<Rightarrow> bool" where
  "aborts p envs i \<longleftrightarrow> waits p i \<and> at_abort (envs i) \<noteq> None"

lemma invokeOnce_att:
  "invokeOnce ce r (envs i) (idle p envs i (att_state ce r p envs s i)) =
     (att_state ce r p envs s (Suc i), att_res ce r p envs s i)"
  by (simp add: att_res_def)

text \<open>The result \<open>L\<close> of the loop is explained by \<open>k\<close> attempts.\<close>

definition retry_done ::
  "'w call_env \<Rightarrow> ('w, 'c) route \<Rightarrow> retryPolicy \<Rightarrow> (nat \<Rightarrow> 'w attempt_env) \<Rightarrow> 'w px \<Rightarrow>
   'w px \<times> reply result outcome \<Rightarrow> nat \<Rightarrow> bool" where
  "retry_done ce r p envs s L k \<longleftrightarrow>
     1 \<le> k \<and> int k \<le> rp_maxAttempts p \<and> (\<forall>j < k. \<not> aborts p envs j) \<and>
     (\<forall>j < k - 1. retries (ce_err ce) p (att_res ce r p envs s j)) \<and>
     (L = (att_state ce r p envs s k, att_res ce r p envs s (k - 1)) \<and>
        (int k = rp_maxAttempts p \<or> \<not> retries (ce_err ce) p (att_res ce r p envs s (k - 1))) \<or>
      L = (idle p envs k (att_state ce r p envs s k),
           Ret (Inl (retryAborted (ce_err ce) (the (at_abort (envs k)))))) \<and>
        int k < rp_maxAttempts p \<and> aborts p envs k \<and>
        retries (ce_err ce) p (att_res ce r p envs s (k - 1)))"

lemma retryLoop_aborted:
  assumes "int i < rp_maxAttempts p" and "aborts p envs i"
  shows "retryLoop ce r p envs i lastErr s =
    (idle p envs i s, Ret (Inl (retryAborted (ce_err ce) (the (at_abort (envs i))))))"
  using assms by (subst retryLoop.simps) (simp add: aborts_def Let_def)

lemma retryLoop_attempt:
  assumes "int i < rp_maxAttempts p" and "\<not> aborts p envs i"
  shows "retryLoop ce r p envs i lastErr (att_state ce r p envs s i) =
    (case att_res ce r p envs s i of
       Panic m \<Rightarrow> (att_state ce r p envs s (Suc i), Panic m)
     | Ret (Inr reply) \<Rightarrow> (att_state ce r p envs s (Suc i), Ret (Inr reply))
     | Ret (Inl e) \<Rightarrow>
         if retryable (ce_err ce) p (Some e) then retryLoop ce r p envs (i + 1) (Some e) (att_state ce r p envs s (Suc i))
         else (att_state ce r p envs s (Suc i), Ret (Inl e)))"
  using assms unfolding aborts_def
  by (subst retryLoop.simps) (simp only: Let_def invokeOnce_att if_True if_False prod.case simp_thms)

lemma retryLoop_retries:
  assumes "int i < rp_maxAttempts p" and "\<not> aborts p envs i" and "retries (ce_err ce) p (att_res ce r p envs s i)"
  shows "\<exists>e. att_res ce r p envs s i = Ret (Inl e) \<and>
    retryLoop ce r p envs i lastErr (att_state ce r p envs s i) =
    retryLoop ce r p envs (Suc i) (Some e) (att_state ce r p envs s (Suc i))"
  using retryLoop_attempt [OF assms(1,2), of ce r lastErr s] assms(3)
  by (auto simp: retries_def split: outcome.splits sum.splits)

lemma retryLoop_returns:
  assumes "int i < rp_maxAttempts p" and "\<not> aborts p envs i" and "\<not> retries (ce_err ce) p (att_res ce r p envs s i)"
  shows "retryLoop ce r p envs i lastErr (att_state ce r p envs s i) =
    (att_state ce r p envs s (Suc i), att_res ce r p envs s i)"
  using retryLoop_attempt [OF assms(1,2), of ce r lastErr s] assms(3)
  by (auto simp: retries_def split: outcome.splits sum.splits)

lemma retryLoop_trace:
  assumes "int i \<le> rp_maxAttempts p" and "\<forall>j < i. \<not> aborts p envs j"
    and "\<forall>j < i. retries (ce_err ce) p (att_res ce r p envs s j)"
    and "0 < i \<Longrightarrow> att_res ce r p envs s (i - 1) = Ret (Inl (the lastErr)) \<and> lastErr \<noteq> None"
    and "i = 0 \<Longrightarrow> 0 < rp_maxAttempts p"
  shows "\<exists>k. retry_done ce r p envs s (retryLoop ce r p envs i lastErr (att_state ce r p envs s i)) k"
  using assms
proof (induction "nat (rp_maxAttempts p - int i)" arbitrary: i lastErr)
  case 0
  then have i: "int i = rp_maxAttempts p" and "0 < i" by auto
  then have "retryLoop ce r p envs i lastErr (att_state ce r p envs s i) =
      (att_state ce r p envs s i, att_res ce r p envs s (i - 1))"
    using 0(5) by (subst retryLoop.simps) auto
  with 0 i \<open>0 < i\<close> have "retry_done ce r p envs s (retryLoop ce r p envs i lastErr (att_state ce r p envs s i)) i"
    unfolding retry_done_def by auto
  then show ?case ..
next
  case (Suc n)
  let ?st = "att_state ce r p envs s" and ?res = "att_res ce r p envs s"
  from Suc.hyps(2) have lt: "int i < rp_maxAttempts p" by simp
  consider (abort) "aborts p envs i" | (retry) "\<not> aborts p envs i" "retries (ce_err ce) p (?res i)"
    | (return) "\<not> aborts p envs i" "\<not> retries (ce_err ce) p (?res i)" by blast
  then show ?case
  proof cases
    case abort
    then have "0 < i" by (simp add: aborts_def waits_def)
    moreover have "retries (ce_err ce) p (?res (i - 1))" using Suc.prems(3) \<open>0 < i\<close> by simp
    ultimately have "retry_done ce r p envs s (retryLoop ce r p envs i lastErr (?st i)) i"
      using Suc.prems(2,3) lt abort retryLoop_aborted [OF lt abort] unfolding retry_done_def by auto
    then show ?thesis ..
  next
    case retry
    obtain e where "?res i = Ret (Inl e)" and
      "retryLoop ce r p envs i lastErr (?st i) = retryLoop ce r p envs (Suc i) (Some e) (?st (Suc i))"
      using retryLoop_retries [OF lt retry] by blast
    moreover have "n = nat (rp_maxAttempts p - int (Suc i))" and "int (Suc i) \<le> rp_maxAttempts p"
      using Suc.hyps(2) lt by auto
    moreover have "\<forall>j < Suc i. \<not> aborts p envs j" and "\<forall>j < Suc i. retries (ce_err ce) p (?res j)"
      using Suc.prems(2,3) retry by (auto simp: less_Suc_eq)
    ultimately show ?thesis using Suc.hyps(1) [of "Suc i" "Some e"] by simp
  next
    case return
    with Suc.prems(2,3) lt retryLoop_returns [OF lt return]
    have "retry_done ce r p envs s (retryLoop ce r p envs i lastErr (?st i)) (Suc i)"
      unfolding retry_done_def by (auto simp: less_Suc_eq)
    then show ?thesis ..
  qed
qed

text \<open>C3: retries. A call on a route with a retry policy makes \<open>k\<close> attempts, at least one and at most
  \<open>maxAttempts\<close>, each starting in the state the previous one left. All attempts but the last
  failed with a code of the policy. Either the call returns exactly what the last attempt
  returned, and then it stopped because the attempts were used up or because that result is not
  retryable (a success, a panic or another error); or the request context ended during the wait
  before the next attempt and the call fails with DEADLINE_EXCEEDED.\<close>

theorem retry_semantics:
  assumes "buildRetryPolicy cfg = Some p" and "pr_retry r = Some p"
  shows "\<exists>k \<ge> 1. int k \<le> rp_maxAttempts p \<and> (\<forall>j < k. \<not> aborts p envs j) \<and>
     (\<forall>j < k - 1. retries (ce_err ce) p (att_res ce r p envs s j)) \<and>
     (invokeWithRetry ce r envs s = (att_state ce r p envs s k, att_res ce r p envs s (k - 1)) \<and>
        (int k = rp_maxAttempts p \<or> \<not> retries (ce_err ce) p (att_res ce r p envs s (k - 1))) \<or>
      invokeWithRetry ce r envs s =
        (idle p envs k (att_state ce r p envs s k),
         Ret (Inl (retryAborted (ce_err ce) (the (at_abort (envs k)))))) \<and>
        int k < rp_maxAttempts p \<and> aborts p envs k \<and>
        retries (ce_err ce) p (att_res ce r p envs s (k - 1)))"
proof -
  have "1 < rp_maxAttempts p" using assms(1) by (rule buildRetryPolicy_attempts)
  then show ?thesis
    using retryLoop_trace [of 0 p envs ce r s None] assms(2)
    unfolding retry_done_def invokeWithRetry_def by auto
qed

section \<open>In-flight counters\<close>

lemma release_added:
  "k < length xs \<Longrightarrow> release (ReleaseAt k) (LeastConn (Some (xs[k := xs ! k + 1]))) = LeastConn (Some xs)"
  by simp

lemma dial_balancer [simp]: "px_balancer (fst (dial lib cfg s)) = px_balancer s"
  by (simp add: dial_def split: prod.splits)

definition keeps_balancer :: "('w, 'c) route \<Rightarrow> bool" where
  "keeps_balancer r \<longleftrightarrow>
     (\<forall>ivk cx c s. pr_invoker r = Some ivk \<longrightarrow> px_balancer (fst (ivk cx c s)) = px_balancer s)"

lemma callInvoker_balancer:
  "keeps_balancer r \<Longrightarrow> px_balancer (fst (callInvoker ce r cx c s)) = px_balancer s"
  by (auto simp: callInvoker_def keeps_balancer_def split: prod.splits option.splits)

text \<open>The balancer a pick leaves is restored by its release, whatever is in between.\<close>

lemma pickConn_release:
  assumes "pickConn r draw b = Ret (b', cn, rel)" and "\<forall>nxt. b \<noteq> RoundRobin nxt"
    and "\<exists>xs. b = LeastConn (Some xs) \<and> length xs = length (pr_conns r)"
  shows "release rel b' = b"
proof -
  obtain xs where b: "b = LeastConn (Some xs)" and l: "length xs = length (pr_conns r)"
    using assms(3) by blast
  show ?thesis
  proof (cases "length (pr_conns r) \<le> 1")
    case True
    with assms(1) b show ?thesis by (auto simp: pickConn_def le_Suc_eq)
  next
    case False
    then obtain m where m: "length (pr_conns r) = Suc (Suc m)"
      by (metis Suc_le_eq Suc_pred' leI less_Suc_eq_0_disj not_less_eq One_nat_def)
    obtain k where "lc_pick (Suc (Suc m)) (Some xs) = Ret (LeastConn (Some (xs[k := xs ! k + 1])), k, ReleaseAt k)"
      and "first_min xs k"
      using lc_pick_correct [of "Suc (Suc m)" "Some xs"] l m by (auto simp: fits_def)
    with assms(1) b m l release_added [of k xs] show ?thesis
      by (auto simp: pickConn_def pick_def first_min_def split: if_splits)
  qed
qed

lemma invokeOnce_balancer:
  assumes "keeps_balancer r" and "px_balancer s = LeastConn (Some xs)" and "length xs = length (pr_conns r)"
  shows "px_balancer (fst (invokeOnce ce r env s)) = LeastConn (Some xs)"
proof (cases "pickConn r (at_draw env) (px_balancer s)")
  case (Panic m)
  then show ?thesis using assms(2) by (simp add: invokeOnce_def Let_def)
next
  case (Ret t)
  obtain b cn rel where t: "t = (b, cn, rel)" by (metis prod_cases3)
  have "release rel b = LeastConn (Some xs)"
    using pickConn_release [of r "at_draw env" "px_balancer s" b cn rel] Ret t assms(2,3) by auto
  moreover have "px_balancer (fst (invokeOnce ce r env s)) = release rel b"
  proof (cases cn)
    case None
    obtain s' d where d: "dial (ce_lib ce) (pr_cfg r) (s\<lparr>px_balancer := b\<rparr>) = (s', d)" by force
    then have "px_balancer s' = b"
      using dial_balancer [of "ce_lib ce" "pr_cfg r" "s\<lparr>px_balancer := b\<rparr>"] by simp
    then show ?thesis
      using callInvoker_balancer [OF assms(1)]
      by (cases d) (simp_all add: invokeOnce_def Let_def Ret t None d case_prod_beta)
  next
    case (Some c)
    then show ?thesis
      using callInvoker_balancer [OF assms(1)]
      by (simp add: invokeOnce_def Let_def Ret t case_prod_beta)
  qed
  ultimately show ?thesis by simp
qed

lemma att_state_balancer:
  assumes "keeps_balancer r" and "\<forall>i s. px_balancer (at_idle (envs i) s) = px_balancer s"
    and "px_balancer s = LeastConn (Some xs)" and "length xs = length (pr_conns r)"
  shows "px_balancer (att_state ce r p envs s i) = LeastConn (Some xs)"
proof (induction i)
  case 0
  then show ?case using assms(3) by simp
next
  case (Suc i)
  then have "px_balancer (idle p envs i (att_state ce r p envs s i)) = LeastConn (Some xs)"
    using assms(2) by (simp add: idle_def)
  with assms(1,4) show ?case by (simp add: invokeOnce_balancer)
qed

lemma invokeWithRetry_balancer:
  assumes "keeps_balancer r" and "\<forall>i s. px_balancer (at_idle (envs i) s) = px_balancer s"
    and "px_balancer s = LeastConn (Some xs)" and "length xs = length (pr_conns r)"
  shows "px_balancer (fst (invokeWithRetry ce r envs s)) = LeastConn (Some xs)"
proof (cases "pr_retry r")
  case None
  with assms show ?thesis by (simp add: invokeWithRetry_def invokeOnce_balancer)
next
  case (Some p)
  show ?thesis
  proof (cases "0 < rp_maxAttempts p")
    case True
    then obtain k where "retry_done ce r p envs s (invokeWithRetry ce r envs s) k"
      using retryLoop_trace [of 0 p envs ce r s None] Some by (auto simp: invokeWithRetry_def)
    then show ?thesis
      using att_state_balancer [OF assms] assms(2) by (auto simp: retry_done_def idle_def)
  next
    case False
    with Some assms(3) show ?thesis by (simp add: invokeWithRetry_def retryLoop.simps)
  qed
qed

text \<open>C17: a request gives back every connection slot it takes. Whatever the outcome of a call
  (success, error, rejection by the breaker or a panic) and however many attempts it makes, it
  leaves the in-flight counters of the least-connection balancer as it found them, if nobody
  else changes them meanwhile.\<close>

theorem invoke_restores_counters:
  assumes "keeps_balancer r" and "\<forall>i s. px_balancer (at_idle (envs i) s) = px_balancer s"
    and "px_balancer s = LeastConn (Some xs)" and "length xs = length (pr_conns r)"
  shows "px_balancer (fst (Invoke ce r t0 t1 envs s)) = LeastConn (Some xs)"
proof -
  have "px_balancer (fst (invokeWithRetry ce r envs (s\<lparr>px_breaker := b\<rparr>))) = LeastConn (Some xs)" for b
    by (rule invokeWithRetry_balancer) (use assms in auto)
  with invokeWithRetry_balancer [OF assms] assms(3) show ?thesis
    by (simp add: Invoke_def Let_def case_prod_beta split: option.splits outcome.splits)
qed

section \<open>The breaker in front of the backend\<close>

lemma open_error_sel [simp]:
  "ae_Code (breakerOpenError E rpc) = CodeUnavailable"
  "ae_HTTPStatus (breakerOpenError E rpc) = HTTPStatus E CodeUnavailable"
  by (simp_all add: breakerOpenError_def New_def)

lemma Invoke_rejected:
  assumes "pr_breaker r = Some b0" and "beforeRequest t0 (px_breaker s) = (px_breaker s, g, False)"
  shows "Invoke ce r t0 t1 envs s = (s, Ret (Inl (breakerOpenError (ce_err ce) (pr_fullRPC r))))"
  using assms by (simp add: Invoke_def)

fun invoke_all ::
  "'w call_env \<Rightarrow> ('w, 'c) route \<Rightarrow> (int \<times> int \<times> (nat \<Rightarrow> 'w attempt_env)) list \<Rightarrow> 'w px \<Rightarrow> 'w px" where
  "invoke_all ce r [] s = s"
| "invoke_all ce r ((t0, t1, envs) # calls) s = invoke_all ce r calls (fst (Invoke ce r t0 t1 envs s))"

text \<open>The backend is down: every proxied call fails with an error the breaker counts.\<close>

definition backend_down :: "'w call_env \<Rightarrow> ('w, 'c) route \<Rightarrow> bool" where
  "backend_down ce r \<longleftrightarrow>
     (\<forall>envs s. \<exists>s' e. invokeWithRetry ce r envs s = (s', Ret (Inl e)) \<and>
        isBreakerFailure (ce_err ce) (Some e) \<and> px_breaker s' = px_breaker s)"

text \<open>The breaker \<open>b\<close> after \<open>i\<close> failed calls in the window that began at \<open>T\<close>.\<close>

definition after_failures :: "circuitBreaker \<Rightarrow> int \<Rightarrow> int \<Rightarrow> circuitBreaker" where
  "after_failures b T i =
     b\<lparr>counts := \<lparr>requests = i, successes = 0, failures = i\<rparr>, expiry := (if i = 0 then 0 else T + window b)\<rparr>"

lemma failing_call:
  assumes "phase b = stateClosed" and "0 \<le> i" and "i = 0 \<Longrightarrow> t0 = T" and "T \<le> t0"
    and "t0 < T + window b" and "t1 < T + window b" and "0 < T" and "0 < window b"
    and "i + 1 < minRequests b"
  shows "\<exists>b1 g. beforeRequest t0 (after_failures b T i) = (b1, g, True) \<and>
    afterRequest t1 g False b1 = after_failures b T (i + 1)"
  using assms by (auto simp: breaker_ops after_failures_def readyToTrip_def)

lemma last_failing_call:
  assumes "phase b = stateClosed" and "0 \<le> i" and "i = 0 \<Longrightarrow> t0 = T" and "T \<le> t0"
    and "t0 < T + window b" and "t1 < T + window b" and "0 < T" and "0 < window b"
    and "i + 1 = minRequests b" and "fle (failureRatio b) (Fin 1)"
  shows "\<exists>b1 g. beforeRequest t0 (after_failures b T i) = (b1, g, True) \<and>
    phase (afterRequest t1 g False b1) = stateOpen \<and>
    expiry (afterRequest t1 g False b1) = t1 + openTimeout b"
proof -
  have "float_ratio (i + 1) (i + 1) = Fin 1" using assms(2) by (intro fr.ratio_all) simp
  then show ?thesis
    using assms by (auto simp: breaker_ops after_failures_def readyToTrip_def)
qed

lemma Invoke_down:
  assumes "backend_down ce r" and "pr_breaker r = Some b0" and "beforeRequest t0 (px_breaker s) = (b1, g, True)"
  shows "px_breaker (fst (Invoke ce r t0 t1 envs s)) = afterRequest t1 g False b1"
proof -
  obtain s' e where "invokeWithRetry ce r envs (s\<lparr>px_breaker := b1\<rparr>) = (s', Ret (Inl e))"
    and "isBreakerFailure (ce_err ce) (Some e)" and "px_breaker s' = b1"
    using assms(1) unfolding backend_down_def by force
  with assms(2,3) show ?thesis by (simp add: Invoke_def err_of_def)
qed

lemma failing_calls:
  assumes "backend_down ce r" and "pr_breaker r = Some b0" and "phase b = stateClosed" and "0 < T"
    and "0 < window b" and "fle (failureRatio b) (Fin 1)"
    and "0 \<le> i" and "px_breaker s = after_failures b T i"
    and "calls \<noteq> []" and "int (length calls) = minRequests b - i"
    and "\<forall>(t0, t1, envs) \<in> set calls. T \<le> t0 \<and> t0 < T + window b \<and> t1 < T + window b"
    and "i = 0 \<Longrightarrow> fst (hd calls) = T"
  shows "phase (px_breaker (invoke_all ce r calls s)) = stateOpen \<and>
    expiry (px_breaker (invoke_all ce r calls s)) = fst (snd (last calls)) + openTimeout b"
  using assms(7-)
proof (induction calls arbitrary: i s)
  case Nil
  then show ?case by simp
next
  case (Cons c calls)
  obtain t0 t1 envs where c: "c = (t0, t1, envs)" by (metis prod_cases3)
  have T0: "i = 0 \<Longrightarrow> t0 = T" and w: "T \<le> t0" "t0 < T + window b" "t1 < T + window b"
    using Cons.prems c by auto
  show ?case
  proof (cases calls)
    case Nil
    then have "i + 1 = minRequests b" using Cons.prems(4) by simp
    from last_failing_call [OF assms(3) Cons.prems(1) T0 w assms(4,5) this assms(6)]
    obtain b1 g where "beforeRequest t0 (px_breaker s) = (b1, g, True)"
      and "phase (afterRequest t1 g False b1) = stateOpen"
      and "expiry (afterRequest t1 g False b1) = t1 + openTimeout b"
      using Cons.prems(2) by auto
    with Invoke_down [OF assms(1,2)] show ?thesis by (simp add: c Nil)
  next
    case (Cons c' calls')
    then have "i + 1 < minRequests b" using Cons.prems(4) by simp
    from failing_call [OF assms(3) Cons.prems(1) T0 w assms(4,5) this]
    have "px_breaker (fst (Invoke ce r t0 t1 envs s)) = after_failures b T (i + 1)"
      using Cons.prems(2) Invoke_down [OF assms(1,2)] by (metis (no_types))
    from Cons.IH [OF _ this] Cons Cons.prems(1,4,5) show ?thesis by (simp add: c)
  qed
qed



section \<open>Concrete calls\<close>

text \<open>A backend world that counts the calls it received, one pooled connection, and three invokers.\<close>

definition demo_ce :: "nat call_env" where
  "demo_ce =
     \<lparr>ce_lib = \<lparr>gl_NewClient = (\<lambda>t n. (n, Inr 1)), gl_Close = (\<lambda>c n. (n, None))\<rparr>, ce_num = demo_num,
      ce_err = E0, ce_locals = (\<lambda>_. ANil), ce_ctx = Background\<rparr>"

definition demo_envs :: "nat \<Rightarrow> nat attempt_env" where
  "demo_envs i = \<lparr>at_now = 0, at_draw = 0, at_abort = None, at_idle = (\<lambda>s. s)\<rparr>"

definition demo_policy :: retryPolicy where
  "demo_policy = the (buildRetryPolicy (Some \<lparr>rc_MaxAttempts = 3, rc_PerTryTimeout = 0, rc_Backoff = 0, rc_RetryOn = []\<rparr>))"

definition mk_route :: "nat invoker \<Rightarrow> retryPolicy option \<Rightarrow> conn list \<Rightarrow> (nat, unit) route" where
  "mk_route ivk rp cs =
     \<lparr>pr_cfg = demo_route, pr_fullRPC = ''/todo.v1.Todo/Get'', pr_rpcService = ''todo.v1.Todo'',
      pr_invoker = Some ivk, pr_streamCodec = None, pr_retry = rp, pr_breaker = Some demo_new,
      pr_balancer = LeastConn None, pr_claims = None, pr_conns = cs\<rparr>"

definition mk_px :: "circuitBreaker \<Rightarrow> nat px" where
  "mk_px b = \<lparr>px_breaker = b, px_balancer = LeastConn (Some [0, 0]), px_dialer = NewDialer None, px_world = 0\<rparr>"

definition flaky :: "nat invoker" where
  "flaky cx c s =
     (s\<lparr>px_world := px_world s + 1\<rparr>,
      Ret (if px_world s < 2 then Inl (New E0 CodeUnavailable ''down'') else Inr Handled))"

definition down :: "nat invoker" where
  "down cx c s = (s\<lparr>px_world := px_world s + 1\<rparr>, Ret (Inl (New E0 CodeUnavailable ''down'')))"

definition crash :: "nat invoker" where
  "crash cx c s = (s\<lparr>px_world := px_world s + 1\<rparr>, Panic ''assignment to entry in nil map'')"

lemma mk_route_sel [simp]:
  "pr_retry (mk_route ivk rp cs) = rp" "pr_breaker (mk_route ivk rp cs) = Some demo_new"
  "pr_invoker (mk_route ivk rp cs) = Some ivk" "pr_conns (mk_route ivk rp cs) = cs"
  "pr_claims (mk_route ivk rp cs) = None" "rt_Timeout (pr_cfg (mk_route ivk rp cs)) = 0"
  by (simp_all only: mk_route_def demo_route_def proxyRoute.simps GatewayRouteConfig.simps)

lemma mk_px_sel [simp]: "px_breaker (mk_px b) = b" "px_balancer (mk_px b) = LeastConn (Some [0, 0])"
  by (simp_all add: mk_px_def)

lemma demo_policy_built:
  "buildRetryPolicy (Some \<lparr>rc_MaxAttempts = 3, rc_PerTryTimeout = 0, rc_Backoff = 0, rc_RetryOn = []\<rparr>) = Some demo_policy"
  "rp_maxAttempts demo_policy = 3"
  by (simp_all add: demo_policy_def buildRetryPolicy_def)

lemma single_invokeOnce:
  "fst (invokeOnce demo_ce (mk_route ivk None [1]) env s) =
     (fst (ivk Background 1 s))\<lparr>px_balancer := px_balancer (fst (ivk Background 1 s))\<rparr> \<and>
   snd (invokeOnce demo_ce (mk_route ivk None [1]) env s) = snd (ivk Background 1 s)"
  by (simp add: invokeOnce_def attemptTimeout_def pickConn_def callInvoker_def outgoing_def demo_ce_def
      Let_def case_prod_beta)

theorem retry_semantics_witness:
  "\<exists>k \<ge> 1. int k \<le> 3 \<and> (\<forall>j < k - 1. retries E0 demo_policy
     (att_res demo_ce (mk_route flaky (Some demo_policy) [1]) demo_policy demo_envs (mk_px demo_new) j))"
proof -
  have "ce_err demo_ce = E0" by (simp add: demo_ce_def)
  with retry_semantics [OF demo_policy_built(1), of "mk_route flaky (Some demo_policy) [1]" demo_envs demo_ce
      "mk_px demo_new"]
  show ?thesis by (auto simp: demo_policy_built(2))
qed

theorem invoke_restores_counters_witness:
  "px_balancer (fst (Invoke demo_ce (mk_route crash (Some demo_policy) [1, 2]) 5 6 demo_envs (mk_px demo_new))) =
     LeastConn (Some [0, 0])"
  by (rule invoke_restores_counters) (auto simp: keeps_balancer_def crash_def demo_envs_def)



end
