(* ===== verification/SF_Bind.thy ===== *)
theory SF_Bind
  imports SF_Proxy
begin

text \<open>
  The request binding and response writing of \<open>transport/gateway/proxy.go\<close>, and the unary invokers
  built from them. The JSON codecs (\<open>encoding/json\<close> on dynamic values, \<open>protojson\<close>) of a message
  type \<open>'m\<close> are parameters, gathered in the record \<open>codecs\<close>, and so is the gRPC call; the type parameters
  \<open>Req\<close> and \<open>Resp\<close> of the invokers are \<open>'q\<close> and \<open>'p\<close>, each with its own codecs. A JSON object
  decoded into a map variable is \<open>None\<close> when the text is the JSON value null, which sets the map
  to nil.
\<close>

section \<open>Requests\<close>

text \<open>What the binding reads of a \<open>fiber.Ctx\<close>: the body, the query and the path parameters.\<close>

record http_req =
  rq_Body :: string
  rq_QueryLen :: nat
  rq_Queries :: "(string, string) gomap"
  rq_RouteParams :: "string list"
  rq_AllParams :: "(string, string) gomap"

record 'm codecs =
  cd_jsonUnmarshal :: "string \<Rightarrow> (string, any) gomap option result"
  cd_jsonMarshal :: "(string, any) gomap \<Rightarrow> string result"
  cd_protoUnmarshal :: "string \<Rightarrow> 'm \<Rightarrow> 'm result"
  cd_protoMarshal :: "'m \<Rightarrow> string result"
  cd_Reset :: "'m \<Rightarrow> 'm"

definition requestHasPayload :: "http_req \<Rightarrow> bool" where
  "requestHasPayload c \<longleftrightarrow>
     trimSpace (rq_Body c) \<noteq> [] \<or> 0 < rq_QueryLen c \<or> rq_RouteParams c \<noteq> []"

text \<open>
  The loop \<open>for key, value := range m\<close> that adds the missing keys; storing into a nil map panics.
\<close>

fun addMissing :: "(string, string) gomap \<Rightarrow> (string, any) gomap option \<Rightarrow> (string, any) gomap option outcome" where
  "addMissing [] payload = Ret payload"
| "addMissing ((key, v) # rest) payload =
     (case payload of
        None \<Rightarrow> Panic ''assignment to entry in nil map''
      | Some m \<Rightarrow>
          addMissing rest (Some (if map_of m key = None then AList.update key (AString v) m else m)))"

definition decodeBody :: "'m codecs \<Rightarrow> errors_pkg \<Rightarrow> http_req \<Rightarrow> (string, any) gomap option result" where
  "decodeBody cd E c =
     (let body = trimSpace (rq_Body c)
      in if body = [] then Inr (Some [])
         else case cd_jsonUnmarshal cd body of
                Inl e \<Rightarrow> Inl (WithCause (New E CodeInvalidArgument ''invalid json request body'') e)
              | Inr payload \<Rightarrow> Inr payload)"

definition requestPayload ::
  "'m codecs \<Rightarrow> errors_pkg \<Rightarrow> http_req \<Rightarrow> (string, any) gomap option result outcome" where
  "requestPayload cd E c =
     (case decodeBody cd E c of
        Inl e \<Rightarrow> Ret (Inl e)
      | Inr p0 \<Rightarrow>
          (case (if 0 < rq_QueryLen c then addMissing (rq_Queries c) p0 else Ret p0) of
             Panic m \<Rightarrow> Panic m
           | Ret p1 \<Rightarrow>
               (case (if rq_RouteParams c \<noteq> [] then addMissing (rq_AllParams c) p1 else Ret p1) of
                  Panic m \<Rightarrow> Panic m
                | Ret p2 \<Rightarrow> Ret (Inr p2))))"

text \<open>\<open>json.Marshal\<close> of a nil map is the text \<open>null\<close>.\<close>

definition requestPayloadJSON :: "'m codecs \<Rightarrow> errors_pkg \<Rightarrow> http_req \<Rightarrow> string result outcome" where
  "requestPayloadJSON cd E c =
     (case requestPayload cd E c of
        Panic m \<Rightarrow> Panic m
      | Ret (Inl e) \<Rightarrow> Ret (Inl e)
      | Ret (Inr payload) \<Rightarrow>
          (case (case payload of None \<Rightarrow> Inr ''null'' | Some m \<Rightarrow> cd_jsonMarshal cd m) of
             Inl e \<Rightarrow> Ret (Inl (WithCause (New E CodeInvalidArgument ''invalid request payload'') e))
           | Inr data \<Rightarrow> Ret (Inr data)))"

definition bindProtoRequest :: "'m codecs \<Rightarrow> errors_pkg \<Rightarrow> http_req \<Rightarrow> 'm \<Rightarrow> 'm result outcome" where
  "bindProtoRequest cd E c msg =
     (if \<not> requestHasPayload c then Ret (Inr msg)
      else case requestPayloadJSON cd E c of
             Panic m \<Rightarrow> Panic m
           | Ret (Inl e) \<Rightarrow> Ret (Inl e)
           | Ret (Inr data) \<Rightarrow>
               (case cd_protoUnmarshal cd data msg of
                  Inl e \<Rightarrow> Ret (Inl (WithCause (New E CodeInvalidArgument ''request does not match grpc input'') e))
                | Inr msg' \<Rightarrow> Ret (Inr msg')))"

section \<open>Responses\<close>

record http_resp =
  rs_Status :: int
  rs_ContentType :: string
  rs_Body :: string

definition dquote :: string where "dquote = [CHR 0x22]"

definition quoted :: "string \<Rightarrow> string" where "quoted s = dquote @ s @ dquote"

definition WriteSuccessJSON :: "int \<Rightarrow> string \<Rightarrow> http_resp" where
  "WriteSuccessJSON now data =
     \<lparr>rs_Status = 200, rs_ContentType = ''application/json; charset=utf-8'',
      rs_Body = ''{'' @ quoted ''code'' @ '':'' @ quoted ''OK'' @ '','' @ quoted ''message'' @ '':'' @ quoted ''ok'' @
        '','' @ quoted ''data'' @ '':'' @ data @ '','' @ quoted ''timestamp'' @ '':'' @ itoa now @ ''}''\<rparr>"

definition writeProtoSuccess :: "'m codecs \<Rightarrow> int \<Rightarrow> 'm \<Rightarrow> http_resp result" where
  "writeProtoSuccess cd now msg =
     (case cd_protoMarshal cd msg of Inl e \<Rightarrow> Inl e | Inr data \<Rightarrow> Inr (WriteSuccessJSON now data))"

section \<open>Unary invokers\<close>

text \<open>
  \<open>NewUnaryProxy\<close>: bind, call, write. The call may act on a world \<open>'w\<close>; a written response is the
  second component of the result.
\<close>

definition NewUnaryProxy ::
  "'q codecs \<Rightarrow> 'p codecs \<Rightarrow> errors_pkg \<Rightarrow> 'q \<Rightarrow> ('q \<Rightarrow> 'w \<Rightarrow> 'w \<times> 'p result) \<Rightarrow> int \<Rightarrow> http_req \<Rightarrow> 'w \<Rightarrow>
   'w \<times> (http_resp \<times> reply) result outcome" where
  "NewUnaryProxy cdq cdp E newRequest call now c w =
     (case bindProtoRequest cdq E c newRequest of
        Panic m \<Rightarrow> (w, Panic m)
      | Ret (Inl e) \<Rightarrow> (w, Ret (Inl e))
      | Ret (Inr req) \<Rightarrow>
          (case call req w of
             (w', Inl e) \<Rightarrow> (w', Ret (Inl e))
           | (w', Inr resp) \<Rightarrow>
               (case writeProtoSuccess cdp now resp of
                  Inl e \<Rightarrow> (w', Ret (Inl e))
                | Inr out \<Rightarrow> (w', Ret (Inr (out, Handled))))))"

text \<open>
  \<open>sync.Pool\<close>: \<open>Get\<close> takes a pooled message if there is one and a new one otherwise; \<open>Put\<close> adds
  one. \<open>NewUnaryCodecProxy\<close> and \<open>NewUnaryInvokeProxy\<close> take their messages from such pools and
  reset and return them in deferred calls, which also run when the body panics.
\<close>

definition pool_Get :: "'m \<Rightarrow> 'm list \<Rightarrow> 'm \<times> 'm list" where
  "pool_Get new p = (case p of [] \<Rightarrow> (new, []) | x # xs \<Rightarrow> (x, xs))"

record ('q, 'p, 'w) unary_state =
  us_req :: "'q list"
  us_resp :: "'p list"
  us_world :: 'w

text \<open>
  The body after \<open>reqPool.Get()\<close>. It returns the state with the messages still taken out, the
  messages to be put back by the deferred calls, and the result.
\<close>

definition codecBody ::
  "'p \<Rightarrow> ('q \<Rightarrow> 'q result outcome) option \<Rightarrow> ('q \<Rightarrow> 'p \<Rightarrow> 'w \<Rightarrow> 'w \<times> ('p \<times> go_error option) outcome) \<Rightarrow>
   ('p \<Rightarrow> http_resp result outcome) \<Rightarrow> 'q \<Rightarrow> ('q, 'p, 'w) unary_state \<Rightarrow>
   ('q, 'p, 'w) unary_state \<times> 'q \<times> 'p option \<times> (http_resp \<times> reply) result outcome" where
  "codecBody newResponse bind invoke write req s =
     (case (case bind of None \<Rightarrow> Ret (Inr req) | Some b \<Rightarrow> b req) of
        Panic m \<Rightarrow> (s, req, None, Panic m)
      | Ret (Inl e) \<Rightarrow> (s, req, None, Ret (Inl e))
      | Ret (Inr req') \<Rightarrow>
          (let (resp, rest) = pool_Get newResponse (us_resp s); s1 = s\<lparr>us_resp := rest\<rparr>
           in case invoke req' resp (us_world s1) of
                (w, Panic m) \<Rightarrow> (s1\<lparr>us_world := w\<rparr>, req', Some resp, Panic m)
              | (w, Ret (resp', Some e)) \<Rightarrow> (s1\<lparr>us_world := w\<rparr>, req', Some resp', Ret (Inl e))
              | (w, Ret (resp', None)) \<Rightarrow>
                  (case write resp' of
                     Panic m \<Rightarrow> (s1\<lparr>us_world := w\<rparr>, req', Some resp', Panic m)
                   | Ret (Inl e) \<Rightarrow> (s1\<lparr>us_world := w\<rparr>, req', Some resp', Ret (Inl e))
                   | Ret (Inr out) \<Rightarrow> (s1\<lparr>us_world := w\<rparr>, req', Some resp', Ret (Inr (out, Handled))))))"

text \<open>\<open>proto.Reset\<close> is one function for every message type; \<open>resetq\<close> and \<open>resetp\<close> are its two uses.\<close>

definition NewUnaryCodecProxy ::
  "('q \<Rightarrow> 'q) \<Rightarrow> ('p \<Rightarrow> 'p) \<Rightarrow> 'q \<Rightarrow> 'p \<Rightarrow> ('q \<Rightarrow> 'q result outcome) option \<Rightarrow>
   ('q \<Rightarrow> 'p \<Rightarrow> 'w \<Rightarrow> 'w \<times> ('p \<times> go_error option) outcome) \<Rightarrow> ('p \<Rightarrow> http_resp result outcome) \<Rightarrow>
   ('q, 'p, 'w) unary_state \<Rightarrow> ('q, 'p, 'w) unary_state \<times> (http_resp \<times> reply) result outcome" where
  "NewUnaryCodecProxy resetq resetp newRequest newResponse bind invoke write s =
     (let (req, rest) = pool_Get newRequest (us_req s)
      in case codecBody newResponse bind invoke write req (s\<lparr>us_req := rest\<rparr>) of
           (s1, req', resp, res) \<Rightarrow>
             (s1\<lparr>us_resp := (case resp of None \<Rightarrow> us_resp s1 | Some r \<Rightarrow> resetp r # us_resp s1),
                 us_req := resetq req' # us_req s1\<rparr>, res))"

definition NewUnaryInvokeProxy ::
  "'q codecs \<Rightarrow> 'p codecs \<Rightarrow> errors_pkg \<Rightarrow> string \<Rightarrow> 'q \<Rightarrow> 'p \<Rightarrow>
   (string \<Rightarrow> 'q \<Rightarrow> 'p \<Rightarrow> 'w \<Rightarrow> 'w \<times> ('p \<times> go_error option) outcome) \<Rightarrow> int \<Rightarrow> http_req \<Rightarrow>
   ('q, 'p, 'w) unary_state \<Rightarrow> ('q, 'p, 'w) unary_state \<times> (http_resp \<times> reply) result outcome" where
  "NewUnaryInvokeProxy cdq cdp E rpc newRequest newResponse conn_Invoke now c s =
     (case normalizeRPC rpc of
        Inl e \<Rightarrow> (s, Ret (Inl e))
      | Inr (fullRPC, _) \<Rightarrow>
          NewUnaryCodecProxy (cd_Reset cdq) (cd_Reset cdp) newRequest newResponse (Some (bindProtoRequest cdq E c))
            (conn_Invoke fullRPC) (\<lambda>resp. Ret (writeProtoSuccess cdp now resp)) s)"

section \<open>Payload precedence\<close>

lemma addMissing_Some:
  "addMissing kvs (Some m) = Ret (Some (fold (\<lambda>(k, v) m. if map_of m k = None then AList.update k (AString v) m else m) kvs m))"
  by (induction kvs arbitrary: m) auto

lemma addMissing_nil: "addMissing kvs None = (if kvs = [] then Ret None else Panic ''assignment to entry in nil map'')"
  by (cases kvs) auto

lemma fold_addMissing_lookup:
  "map_of (fold (\<lambda>(k, v) m. if map_of m k = None then AList.update k (AString v) m else m) kvs m) k =
     (case map_of m k of Some x \<Rightarrow> Some x | None \<Rightarrow> map_option AString (map_of kvs k))"
proof (induction kvs arbitrary: m)
  case Nil
  then show ?case by (simp split: option.splits)
next
  case (Cons p kvs)
  obtain a b where p: "p = (a, b)" by force
  show ?case
    by (cases "map_of m a") (simp_all add: p Cons gomap split: option.splits)
qed

lemma requestPayload_Some:
  assumes "decodeBody cd E c = Inr (Some m)"
  shows "\<exists>p. requestPayload cd E c = Ret (Inr (Some p)) \<and>
    (\<forall>k. map_of p k =
       (case map_of m k of
          Some x \<Rightarrow> Some x
        | None \<Rightarrow>
            (case (if 0 < rq_QueryLen c then map_of (rq_Queries c) k else None) of
               Some v \<Rightarrow> Some (AString v)
             | None \<Rightarrow> if rq_RouteParams c \<noteq> [] then map_option AString (map_of (rq_AllParams c) k) else None)))"
  using assms
  by (auto simp: requestPayload_def addMissing_Some fold_addMissing_lookup split: option.splits)

text \<open>C22: request binding. When the body is empty or a JSON object, the payload handed to the gRPC
  decoder has, for every field, the body's value if the body has one, else the query's, else the
  path parameter's, and no other field; an unreadable body is answered INVALID_ARGUMENT.\<close>

theorem payload_precedence:
  "(\<forall>m. (if trimSpace (rq_Body c) = [] then m = [] else cd_jsonUnmarshal cd (trimSpace (rq_Body c)) = Inr (Some m)) \<longrightarrow>
      (\<exists>p. requestPayload cd E c = Ret (Inr (Some p)) \<and>
         (\<forall>k. map_of p k =
            (case map_of m k of
               Some x \<Rightarrow> Some x
             | None \<Rightarrow>
                 (case (if 0 < rq_QueryLen c then map_of (rq_Queries c) k else None) of
                    Some v \<Rightarrow> Some (AString v)
                  | None \<Rightarrow> if rq_RouteParams c \<noteq> [] then map_option AString (map_of (rq_AllParams c) k) else None)))) ) \<and>
   (\<forall>e. trimSpace (rq_Body c) \<noteq> [] \<and> cd_jsonUnmarshal cd (trimSpace (rq_Body c)) = Inl e \<longrightarrow>
      requestPayload cd E c = Ret (Inl (WithCause (New E CodeInvalidArgument ''invalid json request body'') e)))"
proof (intro conjI allI impI)
  fix m assume "if trimSpace (rq_Body c) = [] then m = [] else cd_jsonUnmarshal cd (trimSpace (rq_Body c)) = Inr (Some m)"
  then have "decodeBody cd E c = Inr (Some m)" by (auto simp: decodeBody_def Let_def split: if_splits)
  from requestPayload_Some [OF this] show "\<exists>p. requestPayload cd E c = Ret (Inr (Some p)) \<and>
         (\<forall>k. map_of p k =
            (case map_of m k of
               Some x \<Rightarrow> Some x
             | None \<Rightarrow>
                 (case (if 0 < rq_QueryLen c then map_of (rq_Queries c) k else None) of
                    Some v \<Rightarrow> Some (AString v)
                  | None \<Rightarrow> if rq_RouteParams c \<noteq> [] then map_option AString (map_of (rq_AllParams c) k) else None)))" .
next
  fix e assume "trimSpace (rq_Body c) \<noteq> [] \<and> cd_jsonUnmarshal cd (trimSpace (rq_Body c)) = Inl e"
  then show "requestPayload cd E c = Ret (Inl (WithCause (New E CodeInvalidArgument ''invalid json request body'') e))"
    by (simp add: requestPayload_def decodeBody_def Let_def)
qed

definition demo_req :: http_req where
  "demo_req = \<lparr>rq_Body = '' '', rq_QueryLen = 1, rq_Queries = [(''id'', ''7'')], rq_RouteParams = [''id'', ''kind''],
     rq_AllParams = [(''id'', ''9''), (''kind'', ''x'')]\<rparr>"

definition demo_codecs :: "nat codecs" where
  "demo_codecs = \<lparr>cd_jsonUnmarshal = (\<lambda>s. if s = ''null'' then Inr None else Inl (PlainError ''bad json'')),
     cd_jsonMarshal = (\<lambda>m. Inr ''{}''), cd_protoUnmarshal = (\<lambda>d m. Inr (m + length d)),
     cd_protoMarshal = (\<lambda>m. Inr ''{}''), cd_Reset = (\<lambda>m. 0)\<rparr>"

theorem payload_precedence_witness:
  "\<exists>p. requestPayload demo_codecs E0 demo_req = Ret (Inr (Some p)) \<and>
     map_of p ''id'' = Some (AString ''7'') \<and> map_of p ''kind'' = Some (AString ''x'')"
proof -
  have "trimSpace (rq_Body demo_req) = []" by code_simp
  with payload_precedence [of demo_req demo_codecs E0] obtain p
    where "requestPayload demo_codecs E0 demo_req = Ret (Inr (Some p))"
      and "\<forall>k. map_of p k =
          (case (if 0 < rq_QueryLen demo_req then map_of (rq_Queries demo_req) k else None) of
             Some v \<Rightarrow> Some (AString v)
           | None \<Rightarrow> if rq_RouteParams demo_req \<noteq> [] then map_option AString (map_of (rq_AllParams demo_req) k) else None)"
    by auto
  then show ?thesis by (auto simp: demo_req_def)
qed

text \<open>A request whose body is the JSON value null panics as soon as it has a query or path
  parameter to merge: the decoder sets the payload map to nil and the merge stores into it.\<close>

theorem null_body_panics:
  assumes "trimSpace (rq_Body c) \<noteq> []" and "cd_jsonUnmarshal cd (trimSpace (rq_Body c)) = Inr None"
    and "(0 < rq_QueryLen c \<and> rq_Queries c \<noteq> []) \<or> (rq_RouteParams c \<noteq> [] \<and> rq_AllParams c \<noteq> [])"
  shows "bindProtoRequest cd E c msg = Panic ''assignment to entry in nil map''"
  using assms
  by (auto simp: bindProtoRequest_def requestHasPayload_def requestPayloadJSON_def requestPayload_def
      decodeBody_def Let_def addMissing_nil)

theorem null_body_panics_witness:
  "bindProtoRequest demo_codecs E0 (demo_req\<lparr>rq_Body := ''null''\<rparr>) 0 = Panic ''assignment to entry in nil map''"
proof (rule null_body_panics)
  have "trimSpace (rq_Body (demo_req\<lparr>rq_Body := ''null''\<rparr>)) = ''null''" by code_simp
  then show "trimSpace (rq_Body (demo_req\<lparr>rq_Body := ''null''\<rparr>)) \<noteq> []"
    and "cd_jsonUnmarshal demo_codecs (trimSpace (rq_Body (demo_req\<lparr>rq_Body := ''null''\<rparr>))) = Inr None"
    by (simp_all add: demo_codecs_def)
qed (simp add: demo_req_def)

section \<open>Pooled messages\<close>

definition pools_clean :: "'q \<Rightarrow> 'p \<Rightarrow> ('q, 'p, 'w) unary_state \<Rightarrow> bool" where
  "pools_clean rq rs s \<longleftrightarrow> set (us_req s) \<subseteq> {rq} \<and> set (us_resp s) \<subseteq> {rs}"

lemma pool_Get_clean: "set p \<subseteq> {n} \<Longrightarrow> pool_Get n p = (x, rest) \<Longrightarrow> x = n \<and> set rest \<subseteq> {n}"
  by (auto simp: pool_Get_def split: list.splits)

text \<open>What a request would do with messages made on the spot instead of pooled ones.\<close>

definition fresh_call ::
  "'q \<Rightarrow> 'p \<Rightarrow> ('q \<Rightarrow> 'q result outcome) option \<Rightarrow>
   ('q \<Rightarrow> 'p \<Rightarrow> 'w \<Rightarrow> 'w \<times> ('p \<times> go_error option) outcome) \<Rightarrow> ('p \<Rightarrow> http_resp result outcome) \<Rightarrow> 'w \<Rightarrow>
   'w \<times> (http_resp \<times> reply) result outcome" where
  "fresh_call rq rs bind invoke write w =
     (case codecBody rs bind invoke write rq \<lparr>us_req = [], us_resp = [], us_world = w\<rparr> of
        (s, _, _, res) \<Rightarrow> (us_world s, res))"

lemma pooled_call:
  assumes "\<forall>m. resetq m = rq" and "\<forall>m. resetp m = rs" and "pools_clean rq rs s"
    and "NewUnaryCodecProxy resetq resetp rq rs bind invoke write s = (s', res)"
  shows "pools_clean rq rs s' \<and> (us_world s', res) = fresh_call rq rs bind invoke write (us_world s)"
proof -
  obtain req rest where r: "pool_Get rq (us_req s) = (req, rest)" by force
  obtain resp rest' where r': "pool_Get rs (us_resp s) = (resp, rest')" by force
  have "req = rq" "set rest \<subseteq> {rq}" "resp = rs" "set rest' \<subseteq> {rs}"
    using pool_Get_clean [OF _ r] pool_Get_clean [OF _ r'] assms(3) by (auto simp: pools_clean_def)
  moreover have "set (us_resp s) \<subseteq> {rs}" using assms(3) by (simp add: pools_clean_def)
  moreover have "case NewUnaryCodecProxy resetq resetp rq rs bind invoke write s of
      (s', res) \<Rightarrow> pools_clean rq rs s' \<and> (us_world s', res) = fresh_call rq rs bind invoke write (us_world s)"
    using calculation assms(1,2)
    by (simp add: NewUnaryCodecProxy_def fresh_call_def codecBody_def r r' Let_def pools_clean_def
        pool_Get_def [of rs "[]"] split: option.split outcome.split sum.split prod.split)
  ultimately show ?thesis using assms(4) by simp
qed

text \<open>C23: pooling is invisible. The request and the response message have each their own type, pool
  and initial value \<open>rq\<close> and \<open>rs\<close>. Assume that resetting any request message gives \<open>rq\<close> and
  resetting any response message gives \<open>rs\<close>, and that the pools hold nothing else, as new and empty
  pools do. Then a request served by \<open>NewUnaryCodecProxy\<close> has exactly the effect and the result of one
  served with new messages, errors and panics included, and it leaves the pools holding nothing else
  for the next one; the same holds of \<open>NewUnaryInvokeProxy\<close> on a procedure name that is well formed.\<close>

theorem pooled_equals_fresh:
  assumes "\<forall>m. cd_Reset cdq m = rq" and "\<forall>m. cd_Reset cdp m = rs" and "pools_clean rq rs s"
    and "normalizeRPC rpc = Inr (fullRPC, svc)"
  shows "(case NewUnaryCodecProxy (cd_Reset cdq) (cd_Reset cdp) rq rs bind invoke wr s of
            (s', res) \<Rightarrow> pools_clean rq rs s' \<and> (us_world s', res) = fresh_call rq rs bind invoke wr (us_world s)) \<and>
         (case NewUnaryInvokeProxy cdq cdp E rpc rq rs conn_Invoke now c s of
            (s', res) \<Rightarrow> pools_clean rq rs s' \<and>
              (us_world s', res) = fresh_call rq rs (Some (bindProtoRequest cdq E c)) (conn_Invoke fullRPC)
                 (\<lambda>resp. Ret (writeProtoSuccess cdp now resp)) (us_world s))"
  using pooled_call [OF assms(1-3)] by (auto simp: NewUnaryInvokeProxy_def assms(4) split: prod.splits)

text \<open>The witness has numbers as requests and strings as responses; the first request panics.\<close>

definition resp_codecs :: "string codecs" where
  "resp_codecs = \<lparr>cd_jsonUnmarshal = (\<lambda>_. Inr (Some [])), cd_jsonMarshal = (\<lambda>_. Inr []),
     cd_protoUnmarshal = (\<lambda>_ m. Inr m), cd_protoMarshal = Inr, cd_Reset = (\<lambda>_. [])\<rparr>"

theorem pooled_equals_fresh_witness:
  "let run = (\<lambda>bind. NewUnaryCodecProxy (cd_Reset demo_codecs) (cd_Reset resp_codecs) 0 [] (Some bind)
                (\<lambda>q p w. (w + q, Ret (CHR ''x'' # p, None))) (\<lambda>p. Ret (writeProtoSuccess resp_codecs 0 p)));
       s1 = fst (run (\<lambda>q. Panic ''bind'') \<lparr>us_req = [], us_resp = [], us_world = 5 :: nat\<rparr>);
       r2 = run (\<lambda>q. Ret (Inr (q + 1))) s1
   in pools_clean 0 [] s1 \<and> us_world (fst r2) = 6 \<and> snd r2 = Ret (Inr (WriteSuccessJSON 0 ''x'', Handled))"
proof -
  let ?inv = "\<lambda>(q :: nat) (p :: string) (w :: nat). (w + q, Ret (CHR ''x'' # p, None :: go_error option))"
  let ?wr = "\<lambda>p. Ret (writeProtoSuccess resp_codecs 0 p) :: http_resp result outcome"
  let ?run = "\<lambda>bind. NewUnaryCodecProxy (cd_Reset demo_codecs) (cd_Reset resp_codecs) 0 [] (Some bind) ?inv ?wr"
  let ?s0 = "\<lparr>us_req = [], us_resp = [], us_world = 5 :: nat\<rparr>"
  let ?s1 = "fst (?run (\<lambda>q. Panic ''bind'') ?s0)"
  have "\<forall>m. cd_Reset demo_codecs m = 0" "\<forall>m. cd_Reset resp_codecs m = []"
    by (simp_all add: demo_codecs_def resp_codecs_def)
  note P = pooled_equals_fresh [OF this, where invoke = ?inv and wr = ?wr and E = E0 and c = demo_req and now = 0
      and conn_Invoke = "\<lambda>_. ?inv"]
  have rpc: "normalizeRPC ''a/b'' = Inr (''/a/b'', ''a'')" by code_simp
  have c1: "pools_clean 0 [] ?s1" and w1: "us_world ?s1 = 5"
    using P [OF _ rpc, where s = ?s0 and bind = "Some (\<lambda>q. Panic ''bind'')"]
    by (auto simp: pools_clean_def fresh_call_def codecBody_def split: prod.splits)
  have "(us_world (fst (?run (\<lambda>q. Ret (Inr (q + 1))) ?s1)), snd (?run (\<lambda>q. Ret (Inr (q + 1))) ?s1)) =
      fresh_call 0 [] (Some (\<lambda>q. Ret (Inr (q + 1)))) ?inv ?wr 5"
    using P [OF c1 rpc, where bind = "Some (\<lambda>q. Ret (Inr (q + 1)))"] by (simp add: w1 case_prod_beta)
  also have "\<dots> = (6, Ret (Inr (WriteSuccessJSON 0 ''x'', Handled)))"
    by (simp add: fresh_call_def codecBody_def pool_Get_def writeProtoSuccess_def resp_codecs_def)
  finally show ?thesis using c1 by (simp add: Let_def)
qed

end
