(* ===== verification/SF_Plugin.thy ===== *)
theory SF_Plugin
  imports SF_Claims
begin

text \<open>
  Package \<open>transport/gateway/plugin\<close>: the plugin registry, the typed access to plugin settings, and
  the error writer; with it the model of an HTTP request that the plugins and the gateway share.

  A \<open>fiber.Ctx\<close> is the record \<open>fctx\<close>: the request, its locals, the response so far, and a world \<open>'w\<close>
  behind the gateway. A handler takes the rest of the chain, what \<open>c.Next()\<close> runs, as its first
  argument. \<open>time.ParseDuration\<close> is a parameter.
\<close>

section \<open>Requests and handlers\<close>

datatype fbody = NoBody | JSONBody response | RawBody string

record 'w fctx =
  fc_Method :: string
  fc_Path :: string
  fc_RoutePath :: string
  fc_Header :: "string \<Rightarrow> string"
  fc_Query :: "string \<Rightarrow> string"
  fc_IP :: string
  fc_Locals :: "(string, any) gomap"
  fc_Now :: int
  fc_Status :: int
  fc_Body :: fbody
  fc_Log :: "(string \<times> string \<times> string \<times> int) list"
  fc_Metrics :: "(string \<times> string \<times> int) list"
  fc_World :: 'w

datatype hres = HOk | HErr go_error | HPanic string

type_synonym 'w cont = "'w fctx \<Rightarrow> 'w fctx \<times> hres"
type_synonym 'w handler = "'w cont \<Rightarrow> 'w cont"

text \<open>The chain of handlers in front of a last one: each gets the rest as its continuation.\<close>

definition chain :: "'w handler list \<Rightarrow> 'w handler" where
  "chain hs k = foldr (\<lambda>h k. h k) hs k"

lemma chain_simps [simp]: "chain [] k = k" "chain (h # hs) k = h (chain hs k)"
  by (simp_all add: chain_def)

lemma chain_append [simp]: "chain (hs @ gs) k = chain hs (chain gs k)"
  by (induction hs) simp_all

definition WriteError :: "errors_pkg \<Rightarrow> go_error \<Rightarrow> 'w cont" where
  "WriteError E err c =
     (c\<lparr>fc_Status := ae_HTTPStatus err, fc_Body := JSONBody (Failure E (fc_Now c) err)\<rparr>, HOk)"

lemma WriteError_sel [simp]:
  "snd (WriteError E err c) = HOk" "fc_World (fst (WriteError E err c)) = fc_World c"
  "fc_Status (fst (WriteError E err c)) = ae_HTTPStatus err"
  "fc_Log (fst (WriteError E err c)) = fc_Log c"
  by (simp_all add: WriteError_def)

section \<open>Settings\<close>

type_synonym settings = "(string, any) gomap"

text \<open>The verb \<open>%q\<close> on text whose bytes above 127 are printable.\<close>

definition hex_digit :: "nat \<Rightarrow> char" where
  "hex_digit d = (if d < 10 then char_of (48 + d) else char_of (87 + d))"

definition quote_char :: "char \<Rightarrow> string" where
  "quote_char c =
     (let n = of_char c :: nat
      in if n = 0x22 \<or> n = 0x5C then [CHR 0x5C, c]
         else if n = 7 then [CHR 0x5C, CHR ''a''] else if n = 8 then [CHR 0x5C, CHR ''b'']
         else if n = 12 then [CHR 0x5C, CHR ''f''] else if n = 10 then [CHR 0x5C, CHR ''n'']
         else if n = 13 then [CHR 0x5C, CHR ''r''] else if n = 9 then [CHR 0x5C, CHR ''t'']
         else if n = 11 then [CHR 0x5C, CHR ''v'']
         else if n < 32 \<or> n = 127 then [CHR 0x5C, CHR ''x'', hex_digit (n div 16), hex_digit (n mod 16)]
         else [c])"

definition go_quote :: "string \<Rightarrow> string" where
  "go_quote s = [CHR 0x22] @ concat (map quote_char s) @ [CHR 0x22]"

text \<open>The verb \<open>%T\<close> on a dynamic value.\<close>

definition type_name :: "any \<Rightarrow> string" where
  "type_name v =
     (case v of
        ANil \<Rightarrow> ''<nil>'' | AString _ \<Rightarrow> ''string'' | ABool _ \<Rightarrow> ''bool'' | AInt _ \<Rightarrow> ''int''
      | AInt64 _ \<Rightarrow> ''int64'' | ADuration _ \<Rightarrow> ''time.Duration'' | AFloat64 _ \<Rightarrow> ''float64'' | ANumber _ \<Rightarrow> ''json.Number''
      | AStrings _ \<Rightarrow> ''[]string'' | AList _ \<Rightarrow> ''[]interface {}''
      | AMap _ \<Rightarrow> ''map[string]interface {}'' | AMapClaims _ \<Rightarrow> ''jwt.MapClaims''
      | AAnyMap _ \<Rightarrow> ''map[interface {}]interface {}'' | AOther t \<Rightarrow> t)"

definition typeError :: "string \<Rightarrow> string \<Rightarrow> any \<Rightarrow> go_error" where
  "typeError key want got =
     PlainError (''setting '' @ go_quote key @ '': expected '' @ want @ '', got '' @ type_name got)"

text \<open>\<open>raw, ok := s[key]; !ok || raw == nil\<close>: absent and nil are the same.\<close>

definition setting :: "settings \<Rightarrow> string \<Rightarrow> any option" where
  "setting s key = (case map_of s key of None \<Rightarrow> None | Some v \<Rightarrow> if v = ANil then None else Some v)"

definition set_String :: "settings \<Rightarrow> string \<Rightarrow> string \<Rightarrow> string result" where
  "set_String s key def =
     (case setting s key of
        None \<Rightarrow> Inr def
      | Some (AString v) \<Rightarrow> Inr v
      | Some raw \<Rightarrow> Inl (typeError key ''string'' raw))"

definition set_Bool :: "settings \<Rightarrow> string \<Rightarrow> bool \<Rightarrow> bool result" where
  "set_Bool s key def =
     (case setting s key of
        None \<Rightarrow> Inr def
      | Some (ABool v) \<Rightarrow> Inr v
      | Some raw \<Rightarrow> Inl (typeError key ''bool'' raw))"

definition set_Int :: "num_env \<Rightarrow> settings \<Rightarrow> string \<Rightarrow> int \<Rightarrow> int result" where
  "set_Int N s key def =
     (case setting s key of
        None \<Rightarrow> Inr def
      | Some (AInt v) \<Rightarrow> Inr v
      | Some (AInt64 v) \<Rightarrow> Inr v
      | Some (AFloat64 v) \<Rightarrow>
          if feq v (float_of_int64 (int64_of_float N v)) then Inr (int64_of_float N v)
          else Inl (typeError key ''int'' (AFloat64 v))
      | Some raw \<Rightarrow> Inl (typeError key ''int'' raw))"

definition set_Duration :: "(string \<Rightarrow> int option) \<Rightarrow> settings \<Rightarrow> string \<Rightarrow> int \<Rightarrow> int result" where
  "set_Duration parse s key def =
     (case setting s key of
        None \<Rightarrow> Inr def
      | Some (AString v) \<Rightarrow>
          (case parse v of
             None \<Rightarrow> Inl (PlainError (''setting '' @ go_quote key @ '': invalid duration '' @ go_quote v))
           | Some d \<Rightarrow> Inr d)
      | Some (AInt v) \<Rightarrow> Inr (wrap64 (v * second))
      | Some (AInt64 v) \<Rightarrow> Inr (wrap64 (v * second))
      | Some raw \<Rightarrow> Inl (typeError key ''duration'' raw))"

fun stringItems :: "string \<Rightarrow> any list \<Rightarrow> string list result" where
  "stringItems key [] = Inr []"
| "stringItems key (AString t # items) = (case stringItems key items of Inl e \<Rightarrow> Inl e | Inr ts \<Rightarrow> Inr (t # ts))"
| "stringItems key (item # items) = Inl (typeError key ''string list'' item)"

definition set_Strings :: "settings \<Rightarrow> string \<Rightarrow> string list result" where
  "set_Strings s key =
     (case setting s key of
        None \<Rightarrow> Inr []
      | Some (AStrings v) \<Rightarrow> Inr v
      | Some (AList v) \<Rightarrow> stringItems key v
      | Some raw \<Rightarrow> Inl (typeError key ''string list'' raw))"

section \<open>The registry\<close>

text \<open>A gateway app as the list of what was mounted on it, in order; see the gateway theory.\<close>

record ('w, 'a) Plugin =
  pl_Name :: string
  pl_Handler :: "'w handler option"
  pl_Mount :: "('a \<Rightarrow> 'a result) option"

record BuildContext =
  bc_AppName :: string
  bc_Settings :: settings
  bc_HasLogger :: bool

type_synonym ('w, 'a) Factory = "BuildContext \<Rightarrow> ('w, 'a) Plugin result"

type_synonym ('w, 'a) plugin_registry = "(string, ('w, 'a) Factory) gomap"

definition plugin_Register ::
  "string \<Rightarrow> ('w, 'a) Factory option \<Rightarrow> ('w, 'a) plugin_registry \<Rightarrow> ('w, 'a) plugin_registry result" where
  "plugin_Register name factory r =
     (let normalized = toLower (trimSpace name)
      in if normalized = [] then Inl (PlainError ''plugin name is required'')
         else case factory of
                None \<Rightarrow> Inl (PlainError (''plugin '' @ normalized @ '': factory is required''))
              | Some f \<Rightarrow>
                  if map_of r normalized \<noteq> None
                  then Inl (PlainError (''plugin '' @ normalized @ '' is already registered''))
                  else Inr (AList.update normalized f r))"

definition plugin_MustRegister ::
  "string \<Rightarrow> ('w, 'a) Factory option \<Rightarrow> ('w, 'a) plugin_registry \<Rightarrow> ('w, 'a) plugin_registry outcome" where
  "plugin_MustRegister name factory r =
     (case plugin_Register name factory r of Inl e \<Rightarrow> Panic (Error e) | Inr r' \<Rightarrow> Ret r')"

text \<open>\<open>NewRegistry\<close>; the package's default registry starts as one, and \<open>Register\<close> and \<open>MustRegister\<close> of the package
  are the methods on it.\<close>

definition plugin_NewRegistry :: "('w, 'a) plugin_registry" where
  "plugin_NewRegistry = []"

definition plugin_Lookup :: "string \<Rightarrow> ('w, 'a) plugin_registry \<Rightarrow> ('w, 'a) Factory option" where
  "plugin_Lookup name r = map_of r (toLower (trimSpace name))"

definition plugin_Names :: "('w, 'a) plugin_registry \<Rightarrow> string list" where
  "plugin_Names r = sort (map fst r)"

fun plugin_Build ::
  "('w, 'a) plugin_registry \<Rightarrow> BuildContext \<Rightarrow> GatewayPluginConfig list \<Rightarrow> ('w, 'a) Plugin list result" where
  "plugin_Build r base [] = Inr []"
| "plugin_Build r base (spec # specs) =
     (if \<not> plugin_IsEnabled spec then plugin_Build r base specs
      else case plugin_Lookup (gp_Name spec) r of
             None \<Rightarrow>
               Inl (PlainError (''gateway plugin '' @ go_quote (gp_Name spec) @ '' is not registered (available: '' @
                      join '', '' (plugin_Names r) @ '')''))
           | Some factory \<Rightarrow>
               (case factory (base\<lparr>bc_Settings := gp_Config spec\<rparr>) of
                  Inl e \<Rightarrow>
                    Inl (WrapError (''gateway plugin '' @ go_quote (gp_Name spec) @ '': '' @ Error e) e)
                | Inr built \<Rightarrow>
                    (case plugin_Build r base specs of
                       Inl e \<Rightarrow> Inl e
                     | Inr rest \<Rightarrow> Inr (built\<lparr>pl_Name := toLower (trimSpace (gp_Name spec))\<rparr> # rest))))"

interpretation preg: name_registry map_of AList.update AList.delete gm_keys gm_wf normName
  by unfold_locales

section \<open>Lemmas\<close>

lemma plugin_Register_ok:
  "plugin_Register name (Some f) r = Inr r' \<Longrightarrow>
   normName name \<noteq> [] \<and> map_of r (normName name) = None \<and> r' = AList.update (normName name) f r"
  by (auto simp: plugin_Register_def normName_def Let_def split: if_splits)

lemma plugin_Build_enabled:
  "plugin_Build r base specs = plugin_Build r base (filter plugin_IsEnabled specs)"
  by (induction specs) (auto split: option.splits sum.splits)

lemma plugin_Build_cons_ok:
  assumes "plugin_IsEnabled spec"
  shows "plugin_Build r base (spec # specs) = Inr (p # ps) \<longleftrightarrow>
    (\<exists>f b. plugin_Lookup (gp_Name spec) r = Some f \<and> f (base\<lparr>bc_Settings := gp_Config spec\<rparr>) = Inr b \<and>
       p = b\<lparr>pl_Name := normName (gp_Name spec)\<rparr> \<and> plugin_Build r base specs = Inr ps)"
  using assms by (auto simp: normName_def split: option.splits sum.splits)

lemma plugin_Build_cons_nonempty:
  "plugin_IsEnabled spec \<Longrightarrow> plugin_Build r base (spec # specs) \<noteq> Inr []"
  by (auto split: option.splits sum.splits)

lemma plugin_Build_pointwise:
  assumes "plugin_Build r base specs = Inr ps"
  shows "list_all2 (\<lambda>spec p. \<exists>f b. plugin_Lookup (gp_Name spec) r = Some f \<and>
           f (base\<lparr>bc_Settings := gp_Config spec\<rparr>) = Inr b \<and> p = b\<lparr>pl_Name := normName (gp_Name spec)\<rparr>)
         (filter plugin_IsEnabled specs) ps"
  using assms
proof (induction specs arbitrary: ps)
  case Nil
  then show ?case by simp
next
  case (Cons spec specs)
  show ?case
  proof (cases "plugin_IsEnabled spec")
    case True
    then obtain p qs where ps: "ps = p # qs"
      using Cons.prems plugin_Build_cons_nonempty by (cases ps) blast+
    from Cons.prems [unfolded ps plugin_Build_cons_ok [OF True]] Cons.IH [of qs] show ?thesis
      using True by (auto simp: ps)
  next
    case False
    with Cons show ?thesis by simp
  qed
qed

text \<open>Building a plugin chain. A successful build yields exactly one plugin per enabled entry, in
  configuration order, each made by the factory registered under the entry's name (in any case
  and with any surrounding blanks) from that entry's own settings, and carrying the normalised
  name. An enabled entry with an unknown name makes the build fail, and so the gateway's start.\<close>

theorem plugin_build_order:
  "(\<forall>ps. plugin_Build r base specs = Inr ps \<longrightarrow>
      list_all2 (\<lambda>spec p. \<exists>f b. map_of r (normName (gp_Name spec)) = Some f \<and>
           f (base\<lparr>bc_Settings := gp_Config spec\<rparr>) = Inr b \<and> p = b\<lparr>pl_Name := normName (gp_Name spec)\<rparr>)
         (filter plugin_IsEnabled specs) ps) \<and>
   (\<forall>spec \<in> set specs. plugin_IsEnabled spec \<and> map_of r (normName (gp_Name spec)) = None \<longrightarrow>
      isl (plugin_Build r base specs))"
proof (intro conjI allI impI ballI)
  fix ps assume "plugin_Build r base specs = Inr ps"
  from plugin_Build_pointwise [OF this] show
    "list_all2 (\<lambda>spec p. \<exists>f b. map_of r (normName (gp_Name spec)) = Some f \<and>
           f (base\<lparr>bc_Settings := gp_Config spec\<rparr>) = Inr b \<and> p = b\<lparr>pl_Name := normName (gp_Name spec)\<rparr>)
         (filter plugin_IsEnabled specs) ps"
    by (simp add: plugin_Lookup_def normName_def)
next
  fix spec assume s: "spec \<in> set specs" and bad: "plugin_IsEnabled spec \<and> map_of r (normName (gp_Name spec)) = None"
  show "isl (plugin_Build r base specs)"
  proof (rule ccontr)
    assume "\<not> isl (plugin_Build r base specs)"
    then obtain ps where "plugin_Build r base specs = Inr ps" by (cases "plugin_Build r base specs") auto
    then have "list_all2 (\<lambda>spec p. plugin_Lookup (gp_Name spec) r \<noteq> None) (filter plugin_IsEnabled specs) ps"
      by (rule plugin_Build_pointwise [THEN list_all2_mono]) blast
    moreover obtain i where "i < length (filter plugin_IsEnabled specs)" and "filter plugin_IsEnabled specs ! i = spec"
      using s bad in_set_conv_nth [of spec "filter plugin_IsEnabled specs"] by auto
    ultimately have "plugin_Lookup (gp_Name spec) r \<noteq> None" by (auto simp: list_all2_conv_all_nth)
    with bad show False by (simp add: plugin_Lookup_def normName_def)
  qed
qed

definition demo_factory :: "(unit, unit) Factory" where
  "demo_factory ctx = Inr \<lparr>pl_Name = [], pl_Handler = Some (\<lambda>k. k), pl_Mount = None\<rparr>"

definition demo_specs :: "GatewayPluginConfig list" where
  "demo_specs = [\<lparr>gp_Name = '' JWT '', gp_Enabled = None, gp_Config = []\<rparr>,
     \<lparr>gp_Name = ''cors'', gp_Enabled = Some False, gp_Config = []\<rparr>]"

theorem plugin_build_order_witness:
  "isl (plugin_Build [(''cors'', demo_factory)] \<lparr>bc_AppName = [], bc_Settings = [], bc_HasLogger = False\<rparr> demo_specs) \<and>
   \<not> isl (plugin_Build [(''jwt'', demo_factory)] \<lparr>bc_AppName = [], bc_Settings = [], bc_HasLogger = False\<rparr> demo_specs)"
proof -
  let ?base = "\<lparr>bc_AppName = [], bc_Settings = [], bc_HasLogger = False\<rparr>"
  let ?s = "\<lparr>gp_Name = '' JWT '', gp_Enabled = None, gp_Config = []\<rparr>"
  have n: "normName (gp_Name ?s) = ''jwt''" and e: "plugin_IsEnabled ?s" by code_simp+
  have "?s \<in> set demo_specs" by (simp add: demo_specs_def)
  with plugin_build_order [of "[(''cors'', demo_factory)]" ?base demo_specs] n e
  have "isl (plugin_Build [(''cors'', demo_factory)] ?base demo_specs)" by fastforce
  moreover have "plugin_IsEnabled \<lparr>gp_Name = ''cors'', gp_Enabled = Some False, gp_Config = []\<rparr> = False"
    by code_simp
  ultimately show ?thesis
    using n e by (simp add: demo_specs_def plugin_Lookup_def normName_def demo_factory_def)
qed

text \<open>Registration. A successful registration is found under every spelling of the name and under
  no other; a second registration of the same name is refused and leaves the registry alone, so
  no plugin can be replaced.\<close>

theorem plugin_registration:
  assumes "gm_wf r" and "plugin_Register name (Some f) r = Inr r'"
  shows "plugin_Lookup other r' = (if normName other = normName name then Some f else plugin_Lookup other r) \<and>
         (normName other = normName name \<longrightarrow> isl (plugin_Register other (Some g) r')) \<and> gm_wf r' \<and>
         sorted (plugin_Names r') \<and> set (plugin_Names r') = insert (normName name) (set (plugin_Names r))"
proof -
  have ok: "normName name \<noteq> []" and r': "r' = AList.update (normName name) f r"
    using plugin_Register_ok [OF assms(2)] by blast+
  have look: "plugin_Lookup other r' = (if normName other = normName name then Some f else plugin_Lookup other r)"
    using preg.lookup_same [OF assms(1), of name other f] preg.lookup_other [OF assms(1), of name other f]
    by (cases "normName other = normName name") (simp_all add: plugin_Lookup_def normName_def [symmetric] r')
  moreover have "isl (plugin_Register other (Some g) r')" if "normName other = normName name"
    using that look ok by (auto simp: plugin_Register_def plugin_Lookup_def normName_def Let_def)
  moreover have "set (plugin_Names r') = insert (normName name) (set (plugin_Names r))"
    using gm.put_keys [OF assms(1), of "normName name" f] by (simp add: plugin_Names_def r' gm_keys_def)
  ultimately show ?thesis using assms(1) by (auto simp: r' plugin_Names_def)
qed

theorem plugin_registration_witness:
  "plugin_Lookup ''  JWT'' [(''jwt'', demo_factory)] = Some demo_factory \<and>
   isl (plugin_Register '' jwt'' (Some demo_factory) [(''jwt'', demo_factory)])"
proof -
  have n: "normName ''  JWT'' = normName ''Jwt''" "normName '' jwt'' = normName ''Jwt''" by code_simp+
  have r: "plugin_Register ''Jwt'' (Some demo_factory) [] = Inr [(''jwt'', demo_factory)]"
  proof -
    have "toLower (trimSpace ''Jwt'') = ''jwt''" by code_simp
    then show ?thesis by (simp add: plugin_Register_def)
  qed
  from plugin_registration [OF gm_wf_Nil r, of "''  JWT''" demo_factory]
    plugin_registration [OF gm_wf_Nil r, of "'' jwt''" demo_factory] n
  show ?thesis by simp
qed

end
