(* ===== verification/SF_Plugins.thy ===== *)
theory SF_Plugins
  imports SF_Plugin
begin

text \<open>
  The built-in plugins under \<open>transport/gateway/plugins\<close>: recovery, access log, CORS, rate limit, API
  key, JWT and metrics, and \<open>RegisterBuiltins\<close>. What they take from other packages is the record
  \<open>plug_lib\<close>: the JWT parser, the CORS and limiter middlewares of fiber, the Prometheus registry
  and scrape handler, \<open>time.ParseDuration\<close> and \<open>Duration.String\<close>.
\<close>

section \<open>Libraries\<close>

text \<open>What is mounted on a fiber app, in order: middleware and routes.\<close>

datatype 'w entry = Use "'w handler" | Route (en_method: string) (en_path: string) (en_handlers: "'w handler list")

type_synonym 'w app = "'w entry list"

record jwt_options =
  jo_secret :: string
  jo_algorithm :: string
  jo_issuer :: string
  jo_audience :: string
  jo_header :: string
  jo_scheme :: string

record cors_Config =
  co_AllowOrigins :: string
  co_AllowMethods :: string
  co_AllowHeaders :: string
  co_ExposeHeaders :: string
  co_AllowCredentials :: bool
  co_MaxAge :: int

text \<open>
  \<open>lb_jwtParse\<close> is \<open>jwt.ParseWithClaims\<close> with a key function returning the secret and the parser
  options made from the algorithm, the issuer and the audience (left out when empty); on success it
  gives the claims and \<open>parsed.Valid\<close>. \<open>lb_limiter\<close> is \<open>limiter.New\<close> on the limit, the expiration and
  the handler for a limit reached.
\<close>

record 'w plug_lib =
  lb_jwtParse :: "string \<Rightarrow> string \<Rightarrow> string \<Rightarrow> string \<Rightarrow> string \<Rightarrow> ((string, any) gomap \<times> bool) result"
  lb_corsDefault :: cors_Config
  lb_cors :: "cors_Config \<Rightarrow> 'w handler"
  lb_limiter :: "int \<Rightarrow> int \<Rightarrow> 'w cont \<Rightarrow> 'w handler"
  lb_promRegister :: "string \<Rightarrow> go_error option"
  lb_scrape :: "string \<Rightarrow> 'w handler"
  lb_parseDuration :: "string \<Rightarrow> int option"
  lb_durationString :: "int \<Rightarrow> string"
  lb_num :: num_env
  lb_err :: errors_pkg

type_synonym 'w plugin = "('w, 'w app) Plugin"
type_synonym 'w factory = "('w, 'w app) Factory"

definition handlerPlugin :: "'w handler \<Rightarrow> 'w plugin" where
  "handlerPlugin h = \<lparr>pl_Name = [], pl_Handler = Some h, pl_Mount = None\<rparr>"

section \<open>Recovery\<close>

definition recovery_handler :: "errors_pkg \<Rightarrow> bool \<Rightarrow> 'w handler" where
  "recovery_handler E hasLogger k c =
     (case k c of
        (c', HPanic m) \<Rightarrow>
          WriteError E (New E CodeInternal ''internal server error'')
            (if hasLogger then c'\<lparr>fc_Log := fc_Log c' @ [(''panic recovered'', fc_Method c', fc_Path c', 0)]\<rparr> else c')
      | r \<Rightarrow> r)"

definition recovery_Factory :: "'w plug_lib \<Rightarrow> 'w factory" where
  "recovery_Factory lib ctx = Inr (handlerPlugin (recovery_handler (lb_err lib) (bc_HasLogger ctx)))"

section \<open>Access log\<close>

definition accesslog_handler :: "string list \<Rightarrow> bool \<Rightarrow> 'w handler" where
  "accesslog_handler skip hasLogger k c =
     (if fc_Path c \<in> set skip then k c
      else case k c of
             (c', HPanic m) \<Rightarrow> (c', HPanic m)
           | (c', r) \<Rightarrow>
               (if hasLogger then c'\<lparr>fc_Log := fc_Log c' @ [(''request'', fc_Method c', fc_Path c', fc_Status c')]\<rparr> else c', r))"

definition accesslog_Factory :: "'w plug_lib \<Rightarrow> 'w factory" where
  "accesslog_Factory lib ctx =
     (case set_Strings (bc_Settings ctx) ''skip_paths'' of
        Inl e \<Rightarrow> Inl e
      | Inr skip \<Rightarrow> Inr (handlerPlugin (accesslog_handler skip (bc_HasLogger ctx))))"

section \<open>CORS\<close>

definition joinedSetting :: "settings \<Rightarrow> string \<Rightarrow> string \<Rightarrow> string result" where
  "joinedSetting s key def =
     (case set_Strings s key of Inl e \<Rightarrow> Inl e | Inr xs \<Rightarrow> Inr (if xs \<noteq> [] then join '','' xs else def))"

definition cors_buildConfig :: "'w plug_lib \<Rightarrow> settings \<Rightarrow> cors_Config result" where
  "cors_buildConfig lib s =
     (let d = lb_corsDefault lib
      in case joinedSetting s ''allow_origins'' (co_AllowOrigins d) of
           Inl e \<Rightarrow> Inl e
         | Inr origins \<Rightarrow>
      (case joinedSetting s ''allow_methods'' (co_AllowMethods d) of
         Inl e \<Rightarrow> Inl e
       | Inr methods \<Rightarrow>
      (case joinedSetting s ''allow_headers'' (co_AllowHeaders d) of
         Inl e \<Rightarrow> Inl e
       | Inr headers \<Rightarrow>
      (case joinedSetting s ''expose_headers'' (co_ExposeHeaders d) of
         Inl e \<Rightarrow> Inl e
       | Inr expose \<Rightarrow>
      (case set_Bool s ''allow_credentials'' False of
         Inl e \<Rightarrow> Inl e
       | Inr credentials \<Rightarrow>
           if credentials \<and> origins = ''*''
           then Inl (PlainError (''allow_credentials requires explicit allow_origins, not '' @ go_quote ''*''))
           else (case set_Int (lb_num lib) s ''max_age'' 0 of
                   Inl e \<Rightarrow> Inl e
                 | Inr maxAge \<Rightarrow>
                     Inr \<lparr>co_AllowOrigins = origins, co_AllowMethods = methods, co_AllowHeaders = headers,
                          co_ExposeHeaders = expose, co_AllowCredentials = credentials, co_MaxAge = maxAge\<rparr>))))))"

definition cors_Factory :: "'w plug_lib \<Rightarrow> 'w factory" where
  "cors_Factory lib ctx =
     (case cors_buildConfig lib (bc_Settings ctx) of Inl e \<Rightarrow> Inl e | Inr cfg \<Rightarrow> Inr (handlerPlugin (lb_cors lib cfg)))"

section \<open>Rate limit\<close>

definition minute :: int where "minute = 60 * second"

definition ratelimit_Factory :: "'w plug_lib \<Rightarrow> 'w factory" where
  "ratelimit_Factory lib ctx =
     (case set_Int (lb_num lib) (bc_Settings ctx) ''max'' 100 of
        Inl e \<Rightarrow> Inl e
      | Inr mx \<Rightarrow>
          if mx \<le> 0 then Inl (PlainError (''max must be positive, got '' @ itoa mx))
          else case set_Duration (lb_parseDuration lib) (bc_Settings ctx) ''window'' minute of
                 Inl e \<Rightarrow> Inl e
               | Inr window \<Rightarrow>
                   if window \<le> 0 then Inl (PlainError (''window must be positive, got '' @ lb_durationString lib window))
                   else Inr (handlerPlugin (lb_limiter lib mx window
                               (WriteError (lb_err lib) (New (lb_err lib) CodeRateLimited ''rate limit exceeded'')))))"

section \<open>API key\<close>

text \<open>\<open>subtle.ConstantTimeCompare\<close> returns 1 exactly on equal contents.\<close>

definition matchesAny :: "string \<Rightarrow> string list \<Rightarrow> bool" where
  "matchesAny candidate keys \<longleftrightarrow> (if candidate = [] then False else list_ex (\<lambda>key. candidate = key) keys)"

definition apikey_candidate :: "string \<Rightarrow> string \<Rightarrow> 'w fctx \<Rightarrow> string" where
  "apikey_candidate header query c =
     (if fc_Header c header = [] \<and> query \<noteq> [] then fc_Query c query else fc_Header c header)"

definition apikey_handler :: "errors_pkg \<Rightarrow> string list \<Rightarrow> string \<Rightarrow> string \<Rightarrow> 'w handler" where
  "apikey_handler E keys header query k c =
     (if \<not> matchesAny (apikey_candidate header query c) keys
      then WriteError E (New E CodeUnauthenticated ''invalid api key'') c
      else k c)"

definition apikey_Factory :: "'w plug_lib \<Rightarrow> 'w factory" where
  "apikey_Factory lib ctx =
     (case set_Strings (bc_Settings ctx) ''keys'' of
        Inl e \<Rightarrow> Inl e
      | Inr keys \<Rightarrow>
          if keys = [] then Inl (PlainError ''at least one key is required'')
          else case set_String (bc_Settings ctx) ''header'' ''X-API-Key'' of
                 Inl e \<Rightarrow> Inl e
               | Inr header \<Rightarrow>
                   (case set_String (bc_Settings ctx) ''query'' [] of
                      Inl e \<Rightarrow> Inl e
                    | Inr query \<Rightarrow> Inr (handlerPlugin (apikey_handler (lb_err lib) keys header query))))"

section \<open>JWT\<close>

definition ClaimsLocal :: string where "ClaimsLocal = ''jwt_claims''"

definition allowedAlgorithms :: "string list" where "allowedAlgorithms = [''HS256'', ''HS384'', ''HS512'']"

definition jwt_buildOptions :: "settings \<Rightarrow> jwt_options result" where
  "jwt_buildOptions s =
     (case set_String s ''secret'' [] of
        Inl e \<Rightarrow> Inl e
      | Inr secret \<Rightarrow>
          if secret = [] then Inl (PlainError ''secret is required'')
          else
      (case set_String s ''algorithm'' ''HS256'' of
         Inl e \<Rightarrow> Inl e
       | Inr alg \<Rightarrow>
          if toUpper alg \<notin> set allowedAlgorithms
          then Inl (PlainError (''unsupported algorithm '' @ go_quote (toUpper alg) @ '' (supported: HS256, HS384, HS512)''))
          else
      (case set_String s ''issuer'' [] of
         Inl e \<Rightarrow> Inl e
       | Inr issuer \<Rightarrow>
      (case set_String s ''audience'' [] of
         Inl e \<Rightarrow> Inl e
       | Inr audience \<Rightarrow>
      (case set_String s ''header'' ''Authorization'' of
         Inl e \<Rightarrow> Inl e
       | Inr header \<Rightarrow>
      (case set_String s ''scheme'' ''Bearer'' of
         Inl e \<Rightarrow> Inl e
       | Inr scheme \<Rightarrow>
           Inr \<lparr>jo_secret = secret, jo_algorithm = toUpper alg, jo_issuer = issuer, jo_audience = audience,
                jo_header = header, jo_scheme = scheme\<rparr>))))))"

definition extractToken :: "'w fctx \<Rightarrow> string \<Rightarrow> string \<Rightarrow> string option" where
  "extractToken c header scheme =
     (let raw = trimSpace (fc_Header c header); prefix = scheme @ '' ''
      in if raw = [] then None
         else if scheme = [] then Some raw
         else if length raw \<le> length prefix \<or> \<not> equalFold (take (length prefix) raw) prefix then None
         else Some (trimSpace (drop (length prefix) raw)))"

definition jwt_verify :: "'w plug_lib \<Rightarrow> jwt_options \<Rightarrow> string \<Rightarrow> (string, any) gomap option" where
  "jwt_verify lib opt token =
     (case lb_jwtParse lib (jo_secret opt) (jo_algorithm opt) (jo_issuer opt) (jo_audience opt) token of
        Inl e \<Rightarrow> None
      | Inr (claims, valid) \<Rightarrow> if valid then Some claims else None)"

definition jwt_handler :: "'w plug_lib \<Rightarrow> jwt_options \<Rightarrow> 'w handler" where
  "jwt_handler lib opt k c =
     (case extractToken c (jo_header opt) (jo_scheme opt) of
        None \<Rightarrow> WriteError (lb_err lib) (New (lb_err lib) CodeUnauthenticated ''missing bearer token'') c
      | Some token \<Rightarrow>
          (case jwt_verify lib opt token of
             None \<Rightarrow> WriteError (lb_err lib) (New (lb_err lib) CodeUnauthenticated ''invalid token'') c
           | Some claims \<Rightarrow> k (c\<lparr>fc_Locals := AList.update ClaimsLocal (AMapClaims claims) (fc_Locals c)\<rparr>)))"

definition jwt_Factory :: "'w plug_lib \<Rightarrow> 'w factory" where
  "jwt_Factory lib ctx =
     (case jwt_buildOptions (bc_Settings ctx) of
        Inl e \<Rightarrow> Inl e
      | Inr opt \<Rightarrow> Inr (handlerPlugin (jwt_handler lib opt)))"

section \<open>Metrics\<close>

definition metrics_handler :: "'w handler" where
  "metrics_handler k c =
     (case k c of
        (c', HPanic m) \<Rightarrow> (c', HPanic m)
      | (c', r) \<Rightarrow> (c'\<lparr>fc_Metrics := fc_Metrics c' @ [(fc_Method c', fc_RoutePath c', fc_Status c')]\<rparr>, r))"

definition metrics_Factory :: "'w plug_lib \<Rightarrow> 'w factory" where
  "metrics_Factory lib ctx =
     (case set_String (bc_Settings ctx) ''path'' ''/metrics'' of
        Inl e \<Rightarrow> Inl e
      | Inr path \<Rightarrow>
          (case set_String (bc_Settings ctx) ''namespace'' ''gateway'' of
             Inl e \<Rightarrow> Inl e
           | Inr namespace \<Rightarrow>
               (case lb_promRegister lib namespace of
                  Some e \<Rightarrow> Inl e
                | None \<Rightarrow>
                    Inr \<lparr>pl_Name = [], pl_Handler = Some metrics_handler,
                         pl_Mount = Some (\<lambda>app. Inr (app @ [Route ''GET'' path [lb_scrape lib namespace]]))\<rparr>)))"

section \<open>Registration\<close>

definition builtins :: "'w plug_lib \<Rightarrow> (string \<times> 'w factory) list" where
  "builtins lib =
     [(''recovery'', recovery_Factory lib), (''access_log'', accesslog_Factory lib), (''cors'', cors_Factory lib),
      (''rate_limit'', ratelimit_Factory lib), (''api_key'', apikey_Factory lib), (''jwt'', jwt_Factory lib),
      (''metrics'', metrics_Factory lib)]"

fun registerAll :: "(string \<times> 'w factory) list \<Rightarrow> ('w, 'w app) plugin_registry \<Rightarrow> ('w, 'w app) plugin_registry outcome" where
  "registerAll [] r = Ret r"
| "registerAll ((n, f) # nfs) r =
     (case plugin_MustRegister n (Some f) r of Panic m \<Rightarrow> Panic m | Ret r' \<Rightarrow> registerAll nfs r')"

definition RegisterBuiltins :: "'w plug_lib \<Rightarrow> ('w, 'w app) plugin_registry \<Rightarrow> ('w, 'w app) plugin_registry outcome" where
  "RegisterBuiltins lib r = registerAll (builtins lib) r"

section \<open>Gates and observers\<close>

text \<open>
  An authentication plugin is a gate: on requests that pass it hands the request on, on others it
  answers itself and the rest of the chain does not run. An observer runs the rest of the chain
  once, on the request as it is, and touches only the response.
\<close>

locale gate =
  fixes h :: "'w handler"
    and pass :: "'w fctx \<Rightarrow> bool"
    and prep :: "'w fctx \<Rightarrow> 'w fctx"
    and deny :: "'w fctx \<Rightarrow> 'w fctx"
  assumes admit: "pass c \<Longrightarrow> h k c = k (prep c)"
    and block: "\<not> pass c \<Longrightarrow> h k c = (deny c, HOk)"
    and deny_world: "fc_World (deny c) = fc_World c"
begin

lemma blocked_world: "\<not> pass c \<Longrightarrow> fc_World (fst (chain (h # hs) k c)) = fc_World c"
  by (simp add: block deny_world)

lemma reached: "fc_World (fst (chain (h # hs) k c)) \<noteq> fc_World c \<Longrightarrow> pass c"
  using blocked_world by blast

end

definition observer :: "'w handler \<Rightarrow> bool" where
  "observer h \<longleftrightarrow> (\<forall>k c. fc_World (fst (h k c)) = fc_World (fst (k c)))"

lemma chain_observers:
  "list_all observer hs \<Longrightarrow> fc_World (fst (chain hs k c)) = fc_World (fst (k c))"
  by (induction hs) (auto simp: observer_def)

lemma observer_recovery [simp]: "observer (recovery_handler E l)"
  by (auto simp: observer_def recovery_handler_def split: prod.splits hres.splits)

lemma observer_accesslog [simp]: "observer (accesslog_handler skip l)"
  by (auto simp: observer_def accesslog_handler_def split: prod.splits hres.splits)

lemma observer_metrics [simp]: "observer metrics_handler"
  by (auto simp: observer_def metrics_handler_def split: prod.splits hres.splits)

definition apikey_deny :: "errors_pkg \<Rightarrow> 'w fctx \<Rightarrow> 'w fctx" where
  "apikey_deny E c = fst (WriteError E (New E CodeUnauthenticated ''invalid api key'') c)"

interpretation akg: gate "apikey_handler E keys header query"
  "\<lambda>c. matchesAny (apikey_candidate header query c) keys" "\<lambda>c. c" "apikey_deny E" for E keys header query
  by unfold_locales (simp_all add: apikey_handler_def apikey_deny_def prod_eq_iff)

definition jwt_claims_of :: "'w plug_lib \<Rightarrow> jwt_options \<Rightarrow> 'w fctx \<Rightarrow> (string, any) gomap option" where
  "jwt_claims_of lib opt c =
     (case extractToken c (jo_header opt) (jo_scheme opt) of None \<Rightarrow> None | Some t \<Rightarrow> jwt_verify lib opt t)"

definition with_claims :: "(string, any) gomap \<Rightarrow> 'w fctx \<Rightarrow> 'w fctx" where
  "with_claims claims c = c\<lparr>fc_Locals := AList.update ClaimsLocal (AMapClaims claims) (fc_Locals c)\<rparr>"

definition jwt_deny :: "'w plug_lib \<Rightarrow> jwt_options \<Rightarrow> 'w fctx \<Rightarrow> 'w fctx" where
  "jwt_deny lib opt c =
     fst (WriteError (lb_err lib)
       (New (lb_err lib) CodeUnauthenticated
         (if extractToken c (jo_header opt) (jo_scheme opt) = None then ''missing bearer token'' else ''invalid token'')) c)"

interpretation jwg: gate "jwt_handler lib opt" "\<lambda>c. jwt_claims_of lib opt c \<noteq> None"
  "\<lambda>c. with_claims (the (jwt_claims_of lib opt c)) c" "jwt_deny lib opt" for lib opt
proof unfold_locales
  fix c k
  show "jwt_claims_of lib opt c \<noteq> None \<Longrightarrow>
      jwt_handler lib opt k c = k (with_claims (the (jwt_claims_of lib opt c)) c)"
    by (auto simp: jwt_handler_def jwt_claims_of_def with_claims_def split: option.splits)
  show "\<not> jwt_claims_of lib opt c \<noteq> None \<Longrightarrow> jwt_handler lib opt k c = (jwt_deny lib opt c, HOk)"
    by (auto simp: jwt_handler_def jwt_claims_of_def jwt_deny_def prod_eq_iff split: option.splits)
  show "fc_World (jwt_deny lib opt c) = fc_World c" by (simp add: jwt_deny_def)
qed

section \<open>Properties\<close>

text \<open>C12: no unauthenticated request reaches a backend. In a chain of observing plugins (recovery,
  access log, metrics), then the JWT or the API key plugin, then anything, a request changes the
  world behind the gateway only if its token verifies under the configured secret, algorithm,
  issuer and audience, respectively only if it presents one of the configured keys; then the rest
  of the chain sees the verified claims under the key the claim forwarder reads.\<close>

theorem auth_gates_backend:
  assumes "list_all observer obs"
  shows "(fc_World (fst (chain (obs @ jwt_handler lib opt # rest) k c)) \<noteq> fc_World c \<longrightarrow>
            (\<exists>t claims. extractToken c (jo_header opt) (jo_scheme opt) = Some t \<and> jwt_verify lib opt t = Some claims \<and>
               fc_World (fst (chain (obs @ jwt_handler lib opt # rest) k c)) =
               fc_World (fst (chain rest k (with_claims claims c))) \<and>
               map_of (fc_Locals (with_claims claims c)) claimsLocal = Some (AMapClaims claims))) \<and>
         (fc_World (fst (chain (obs @ apikey_handler E keys header query # rest) k c)) \<noteq> fc_World c \<longrightarrow>
            (\<exists>key \<in> set keys. key \<noteq> [] \<and> key = apikey_candidate header query c))"
proof (intro conjI impI)
  have obs: "fc_World (fst (chain (obs @ hs) k c)) = fc_World (fst (chain hs k c))" for hs
    using chain_observers [OF assms] by simp
  assume ne: "fc_World (fst (chain (obs @ jwt_handler lib opt # rest) k c)) \<noteq> fc_World c"
  then have "jwt_claims_of lib opt c \<noteq> None" using jwg.reached obs by metis
  then obtain t claims where "extractToken c (jo_header opt) (jo_scheme opt) = Some t" "jwt_verify lib opt t = Some claims"
    "jwt_claims_of lib opt c = Some claims"
    by (auto simp: jwt_claims_of_def split: option.splits)
  then show "\<exists>t claims. extractToken c (jo_header opt) (jo_scheme opt) = Some t \<and> jwt_verify lib opt t = Some claims \<and>
      fc_World (fst (chain (obs @ jwt_handler lib opt # rest) k c)) = fc_World (fst (chain rest k (with_claims claims c))) \<and>
      map_of (fc_Locals (with_claims claims c)) claimsLocal = Some (AMapClaims claims)"
    using obs [of "jwt_handler lib opt # rest"] jwg.admit [of lib opt c "chain rest k"]
    by (auto simp: with_claims_def gomap ClaimsLocal_def claimsLocal_def)
next
  have obs: "fc_World (fst (chain (obs @ hs) k c)) = fc_World (fst (chain hs k c))" for hs
    using chain_observers [OF assms] by simp
  assume "fc_World (fst (chain (obs @ apikey_handler E keys header query # rest) k c)) \<noteq> fc_World c"
  then have "matchesAny (apikey_candidate header query c) keys" using akg.reached obs by metis
  then show "\<exists>key \<in> set keys. key \<noteq> [] \<and> key = apikey_candidate header query c"
    by (auto simp: matchesAny_def list_ex_iff split: if_splits)
qed

definition demo_fctx :: "nat fctx" where
  "demo_fctx =
     \<lparr>fc_Method = ''GET'', fc_Path = ''/todos'', fc_RoutePath = ''/todos'',
      fc_Header = (\<lambda>h. if h = ''X-API-Key'' then ''k1'' else '' bearer good''),
      fc_Query = (\<lambda>_. []), fc_IP = ''10.0.0.9'', fc_Locals = [], fc_Now = 0, fc_Status = 200, fc_Body = NoBody,
      fc_Log = [], fc_Metrics = [], fc_World = 0\<rparr>"

text \<open>A library whose JWT parser accepts the one token \<open>good\<close>.\<close>

definition demo_cors :: cors_Config where
  "demo_cors = \<lparr>co_AllowOrigins = ''*'', co_AllowMethods = ''GET,POST'', co_AllowHeaders = [], co_ExposeHeaders = [],
     co_AllowCredentials = False, co_MaxAge = 0\<rparr>"

definition demo_lib :: "nat plug_lib" where
  "demo_lib =
     \<lparr>lb_jwtParse = (\<lambda>sec alg iss aud t. if t = ''good'' then Inr ([(''sub'', AString ''u1'')], True)
                                        else Inl (PlainError ''signature is invalid'')),
      lb_corsDefault = demo_cors, lb_cors = (\<lambda>_ k. k), lb_limiter = (\<lambda>_ _ _ k. k), lb_promRegister = (\<lambda>_. None),
      lb_scrape = (\<lambda>_ k. k), lb_parseDuration = (\<lambda>_. None), lb_durationString = itoa, lb_num = demo_num, lb_err = E0\<rparr>"

definition demo_jwt :: jwt_options where
  "demo_jwt = \<lparr>jo_secret = ''s3cret'', jo_algorithm = ''HS256'', jo_issuer = [], jo_audience = [],
     jo_header = ''Authorization'', jo_scheme = ''Bearer''\<rparr>"

definition bump :: "nat cont" where "bump c = (c\<lparr>fc_World := fc_World c + 1\<rparr>, HOk)"

theorem auth_gates_backend_witness:
  "(\<exists>t claims. extractToken demo_fctx ''Authorization'' ''Bearer'' = Some t \<and> jwt_verify demo_lib demo_jwt t = Some claims) \<and>
   (\<exists>key \<in> set [''k1'', ''k2'']. key \<noteq> [] \<and> key = apikey_candidate ''X-API-Key'' [] demo_fctx)"
proof -
  let ?obs = "[recovery_handler E0 True, metrics_handler]"
  have "fc_World (fst (chain (?obs @ apikey_handler E0 [''k1'', ''k2''] ''X-API-Key'' [] # []) bump demo_fctx)) \<noteq> fc_World demo_fctx"
    and "fc_World (fst (chain (?obs @ jwt_handler demo_lib demo_jwt # []) bump demo_fctx)) \<noteq> fc_World demo_fctx"
    and "jo_header demo_jwt = ''Authorization''" and "jo_scheme demo_jwt = ''Bearer''"
    by code_simp+
  with auth_gates_backend [of ?obs demo_lib demo_jwt "[]" bump demo_fctx E0 "[''k1'', ''k2'']" "''X-API-Key''" "[]"]
  show ?thesis by simp blast
qed

text \<open>The recovery plugin contains panics. Whatever the rest of the chain does, a chain that
  starts with recovery never panics; a panic is answered with the INTERNAL failure envelope and
  status 500, and every other result is passed through unchanged.\<close>

theorem recovery_contains_panics:
  "case chain hs k c of
     (c', HPanic m) \<Rightarrow>
       snd (chain (recovery_handler E l # hs) k c) = HOk \<and>
       fc_Status (fst (chain (recovery_handler E l # hs) k c)) = HTTPStatus E CodeInternal \<and>
       (\<exists>now. fc_Body (fst (chain (recovery_handler E l # hs) k c)) =
          JSONBody (Failure E now (New E CodeInternal ''internal server error'')))
   | r \<Rightarrow> chain (recovery_handler E l # hs) k c = r"
  by (auto simp: recovery_handler_def WriteError_def split: prod.splits hres.splits)

text \<open>What the security plugins refuse to start with. A JWT plugin that builds has a non-empty
  secret and one of the three HMAC algorithms; an API key plugin that builds has at least one key;
  a rate limiter that builds has a positive limit and a positive window; a CORS plugin that builds
  does not combine credentials with the origin \<open>*\<close>.\<close>

theorem plugin_settings_safe:
  "(\<forall>opt. jwt_buildOptions s = Inr opt \<longrightarrow> jo_secret opt \<noteq> [] \<and> jo_algorithm opt \<in> {''HS256'', ''HS384'', ''HS512''}) \<and>
   (\<forall>p. apikey_Factory lib \<lparr>bc_AppName = a, bc_Settings = s, bc_HasLogger = l\<rparr> = Inr p \<longrightarrow>
      (\<exists>keys header query. keys \<noteq> [] \<and> p = handlerPlugin (apikey_handler (lb_err lib) keys header query))) \<and>
   (\<forall>p. ratelimit_Factory lib \<lparr>bc_AppName = a, bc_Settings = s, bc_HasLogger = l\<rparr> = Inr p \<longrightarrow>
      (\<exists>m w reached. 0 < m \<and> 0 < w \<and> p = handlerPlugin (lb_limiter lib m w reached))) \<and>
   (\<forall>cfg. cors_buildConfig lib s = Inr cfg \<longrightarrow> \<not> (co_AllowCredentials cfg \<and> co_AllowOrigins cfg = ''*''))"
proof (intro conjI allI impI)
  fix opt assume "jwt_buildOptions s = Inr opt"
  then show "jo_secret opt \<noteq> []" and "jo_algorithm opt \<in> {''HS256'', ''HS384'', ''HS512''}"
    by (auto simp: jwt_buildOptions_def allowedAlgorithms_def split: sum.splits if_splits)
next
  fix p assume "apikey_Factory lib \<lparr>bc_AppName = a, bc_Settings = s, bc_HasLogger = l\<rparr> = Inr p"
  then show "\<exists>keys header query. keys \<noteq> [] \<and> p = handlerPlugin (apikey_handler (lb_err lib) keys header query)"
    by (auto simp: apikey_Factory_def split: sum.splits if_splits)
next
  fix p assume "ratelimit_Factory lib \<lparr>bc_AppName = a, bc_Settings = s, bc_HasLogger = l\<rparr> = Inr p"
  then show "\<exists>m w reached. 0 < m \<and> 0 < w \<and> p = handlerPlugin (lb_limiter lib m w reached)"
    by (auto simp: ratelimit_Factory_def not_le split: sum.splits if_splits)
next
  fix cfg assume "cors_buildConfig lib s = Inr cfg"
  then show "\<not> (co_AllowCredentials cfg \<and> co_AllowOrigins cfg = ''*'')"
    by (auto simp: cors_buildConfig_def Let_def split: sum.splits if_splits)
qed

theorem plugin_settings_safe_witness:
  "jo_secret (projr (jwt_buildOptions [(''secret'', AString ''s3cret'')])) \<noteq> []"
proof -
  have "jwt_buildOptions [(''secret'', AString ''s3cret'')] =
      Inr (projr (jwt_buildOptions [(''secret'', AString ''s3cret'')]))"
    by code_simp
  with plugin_settings_safe [of "[(''secret'', AString ''s3cret'')]"] show ?thesis by blast
qed

lemma registerAll_ok:
  assumes "gm_wf r" and "distinct (map (normName \<circ> fst) nfs)" and "\<forall>(n, f) \<in> set nfs. normName n \<noteq> [] \<and> map_of r (normName n) = None"
  shows "registerAll nfs r = Ret (fold (\<lambda>(n, f). AList.update (normName n) f) nfs r)"
  using assms
proof (induction nfs arbitrary: r)
  case Nil
  then show ?case by simp
next
  case (Cons p nfs)
  obtain n f where p: "p = (n, f)" by force
  have reg: "plugin_MustRegister n (Some f) r = Ret (AList.update (normName n) f r)"
    using Cons.prems(3) p by (simp add: plugin_MustRegister_def plugin_Register_def normName_def Let_def)
  have "\<forall>(m, g) \<in> set nfs. normName m \<noteq> [] \<and> map_of (AList.update (normName n) f r) (normName m) = None"
    using Cons.prems(2,3) p by (force simp: gomap)
  with Cons.IH [of "AList.update (normName n) f r"] Cons.prems(1,2) reg p show ?case by simp
qed

lemma builtin_names: "map (normName \<circ> fst) (builtins lib) =
    [''recovery'', ''access_log'', ''cors'', ''rate_limit'', ''api_key'', ''jwt'', ''metrics'']"
proof -
  have "normName ''recovery'' = ''recovery''" "normName ''access_log'' = ''access_log''" "normName ''cors'' = ''cors''"
    "normName ''rate_limit'' = ''rate_limit''" "normName ''api_key'' = ''api_key''" "normName ''jwt'' = ''jwt''"
    "normName ''metrics'' = ''metrics''"
    by code_simp+
  then show ?thesis by (simp add: builtins_def)
qed

text \<open>The built-in plugins register without a panic on a new registry, and each is then found
  under every spelling of its name.\<close>

theorem builtins_available:
  "\<exists>r. RegisterBuiltins lib [] = Ret r \<and>
     (\<forall>(n, f) \<in> set (builtins lib). \<forall>m. normName m = normName n \<longrightarrow> plugin_Lookup m r = Some f)"
proof -
  let ?r = "fold (\<lambda>(n, f). AList.update (normName n) f) (builtins lib) []"
  have d: "distinct (map (normName \<circ> fst) (builtins lib))" by (simp add: builtin_names)
  have "[] \<notin> set (map (normName \<circ> fst) (builtins lib))" by (simp add: builtin_names)
  then have "\<forall>(n, f) \<in> set (builtins lib). normName n \<noteq> [] \<and> map_of [] (normName n) = None"
    by (auto simp: image_iff)
  from registerAll_ok [OF gm_wf_Nil d this] have reg: "RegisterBuiltins lib [] = Ret ?r"
    by (simp add: RegisterBuiltins_def)
  have "plugin_Lookup m ?r = Some f" if "(n, f) \<in> set (builtins lib)" and "normName m = normName n" for n f m
    using preg.bulk_lookup [OF gm_wf_Nil d that(1), of m] that(2)
    by (simp add: plugin_Lookup_def normName_def [symmetric])
  with reg show ?thesis by blast
qed

theorem builtins_available_witness:
  "\<exists>r. RegisterBuiltins demo_lib [] = Ret r \<and> plugin_Lookup '' JWT '' r = Some (jwt_Factory demo_lib)"
proof -
  have "normName '' JWT '' = normName ''jwt''" by code_simp
  moreover have "(''jwt'', jwt_Factory demo_lib) \<in> set (builtins demo_lib)" by (simp add: builtins_def)
  ultimately show ?thesis using builtins_available [of demo_lib] by blast
qed

end
