(* ===== verification/SF_Gateway.thy ===== *)
theory SF_Gateway
  imports SF_Bind SF_Plugins
begin

text \<open>
  \<open>transport/gateway/gateway.go\<close>, \<open>plugin_chain.go\<close> and \<open>pluginskip.go\<close>: how a gateway is assembled
  from its configuration and how one request is answered. The fiber app is the ordered list of
  what was mounted on it; the router that dispatches over that list, \<open>fiber.RoutePatternMatch\<close>, the
  request id middleware and the WebSocket upgrade are parameters in the record \<open>gw_env\<close>, together
  with the tables of invokers, codecs and plugin factories. The log lines of mounting are left out.
\<close>

section \<open>Skipping global plugins\<close>

definition skipAllPlugins :: string where "skipAllPlugins = ''*''"

record routePluginSkip =
  sk_method :: string
  sk_pattern :: string
  sk_all :: bool
  sk_names :: "string list"

definition skip_of :: "GatewayRouteConfig \<Rightarrow> routePluginSkip" where
  "skip_of cfg =
     (let ns = map (\<lambda>n. toLower (trimSpace n)) (rt_SkipGlobalPlugins cfg)
      in \<lparr>sk_method = toUpper (trimSpace (rt_Method cfg)), sk_pattern = rt_Path cfg,
          sk_all = (skipAllPlugins \<in> set ns),
          sk_names = filter (\<lambda>n. n \<noteq> skipAllPlugins \<and> n \<noteq> []) ns\<rparr>)"

definition registerPluginSkip :: "GatewayRouteConfig \<Rightarrow> routePluginSkip list \<Rightarrow> routePluginSkip list" where
  "registerPluginSkip cfg skips =
     (if rt_SkipGlobalPlugins cfg = [] then skips
      else if \<not> sk_all (skip_of cfg) \<and> sk_names (skip_of cfg) = [] then skips
      else skips @ [skip_of cfg])"

text \<open>\<open>matches\<close> stands for \<open>fiber.RoutePatternMatch(path, pattern)\<close>.\<close>

definition skipsGlobalPlugin ::
  "(string \<Rightarrow> string \<Rightarrow> bool) \<Rightarrow> routePluginSkip list \<Rightarrow> string \<Rightarrow> 'w fctx \<Rightarrow> bool" where
  "skipsGlobalPlugin matches skips name c =
     list_ex (\<lambda>skip. (sk_method skip = [] \<or> sk_method skip = fc_Method c) \<and>
                     (sk_all skip \<or> name \<in> set (sk_names skip)) \<and> matches (fc_Path c) (sk_pattern skip)) skips"

definition wrapGlobalPlugin ::
  "(string \<Rightarrow> string \<Rightarrow> bool) \<Rightarrow> routePluginSkip list \<Rightarrow> string \<Rightarrow> 'w handler \<Rightarrow> 'w handler" where
  "wrapGlobalPlugin matches skips name h =
     (if name = [] then h else (\<lambda>k c. if skipsGlobalPlugin matches skips name c then k c else h k c))"

section \<open>Assembly\<close>

record ('w, 'i, 'f, 'v) gw_env =
  ge_err :: errors_pkg
  ge_plugins :: "('w, 'w app) plugin_registry"
  ge_invokers :: "(string, 'i) gomap"
  ge_codecs :: "(string, 'f streamCodec) gomap"
  ge_lib :: "'v grpc_lib"
  ge_matches :: "string \<Rightarrow> string \<Rightarrow> bool"
  ge_requestid :: "'w handler"
  ge_isUpgrade :: "'w fctx \<Rightarrow> bool"
  ge_unary :: "('i, 'f streamCodec) proxyRoute \<Rightarrow> 'w handler"
  ge_sse :: "('i, 'f streamCodec) proxyRoute \<Rightarrow> 'w handler"
  ge_ws :: "('i, 'f streamCodec) proxyRoute \<Rightarrow> 'w handler"

record ('w, 'i, 'f) Gateway =
  g_app :: "'w app option"
  g_routes :: "('i, 'f streamCodec) proxyRoute list"
  g_skips :: "routePluginSkip list"
  g_address :: string

definition pluginBuildContext :: "Config \<Rightarrow> BuildContext" where
  "pluginBuildContext cfg = \<lparr>bc_AppName = app_Name (c_App cfg), bc_Settings = [], bc_HasLogger = True\<rparr>"

fun mountAll :: "('w, 'w app) Plugin list \<Rightarrow> 'w app \<Rightarrow> 'w app result" where
  "mountAll [] app = Inr app"
| "mountAll (p # ps) app =
     (case pl_Mount p of
        None \<Rightarrow> mountAll ps app
      | Some m \<Rightarrow> (case m app of Inl e \<Rightarrow> Inl e | Inr app' \<Rightarrow> mountAll ps app'))"

text \<open>
  The wrapped handlers consult \<open>g.globalSkips\<close> when a request arrives, after all routes have been
  mounted; \<open>skips\<close> is that later value.
\<close>

definition globalUses ::
  "(string \<Rightarrow> string \<Rightarrow> bool) \<Rightarrow> routePluginSkip list \<Rightarrow> ('w, 'w app) Plugin list \<Rightarrow> 'w entry list" where
  "globalUses matches skips built =
     concat (map (\<lambda>p. case pl_Handler p of None \<Rightarrow> [] | Some h \<Rightarrow> [Use (wrapGlobalPlugin matches skips (pl_Name p) h)]) built)"

definition mountGlobalPlugins ::
  "('w, 'i, 'f, 'v) gw_env \<Rightarrow> Config \<Rightarrow> routePluginSkip list \<Rightarrow> 'w app \<Rightarrow> 'w app result" where
  "mountGlobalPlugins env cfg skips app =
     (case plugin_Build (ge_plugins env) (pluginBuildContext cfg) (gw_Plugins (c_Gateway cfg)) of
        Inl e \<Rightarrow> Inl e
      | Inr built \<Rightarrow>
          (case mountAll built app of
             Inl e \<Rightarrow> Inl e
           | Inr app' \<Rightarrow> Inr (app' @ globalUses (ge_matches env) skips built)))"

fun collectHandlers :: "('w, 'w app) Plugin list \<Rightarrow> 'w app \<Rightarrow> ('w app \<times> 'w handler list) result" where
  "collectHandlers [] app = Inr (app, [])"
| "collectHandlers (p # ps) app =
     (case (case pl_Mount p of None \<Rightarrow> Inr app | Some m \<Rightarrow> m app) of
        Inl e \<Rightarrow> Inl e
      | Inr app1 \<Rightarrow>
          (case collectHandlers ps app1 of
             Inl e \<Rightarrow> Inl e
           | Inr (app2, hs) \<Rightarrow> Inr (app2, (case pl_Handler p of None \<Rightarrow> hs | Some h \<Rightarrow> h # hs))))"

definition buildRoutePlugins ::
  "('w, 'i, 'f, 'v) gw_env \<Rightarrow> Config \<Rightarrow> GatewayRouteConfig \<Rightarrow> 'w app \<Rightarrow> ('w app \<times> 'w handler list) result" where
  "buildRoutePlugins env cfg routeCfg app =
     (case plugin_Build (ge_plugins env) (pluginBuildContext cfg) (rt_Plugins routeCfg) of
        Inl e \<Rightarrow> Inl e
      | Inr built \<Rightarrow> collectHandlers built app)"

definition isStream :: "GatewayRouteConfig \<Rightarrow> bool" where
  "isStream cfg \<longleftrightarrow> trimSpace (rt_Stream cfg) \<noteq> []"

text \<open>Attach the registered stream codec or invoker to a compiled route.\<close>

definition bindRoute ::
  "('w, 'i, 'f, 'v) gw_env \<Rightarrow> GatewayRouteConfig \<Rightarrow> ('i, 'f streamCodec) proxyRoute \<Rightarrow>
   ('i, 'f streamCodec) proxyRoute result" where
  "bindRoute env routeCfg route =
     (let rpc = AString (pr_fullRPC route); failed = (\<lambda>m. New (ge_err env) CodeFailedPrecondition m)
      in if isStream routeCfg then
           (case lookupStreamProxy (pr_fullRPC route) (ge_codecs env) of
              None \<Rightarrow> Inl (WithDetails (failed ''grpc stream proxy is not registered'') ''rpc'' rpc)
            | Some codec \<Rightarrow>
                (let kind = toLower (trimSpace (rt_Stream routeCfg))
                 in if kind \<noteq> sc_kind codec
                    then Inl (WithDetails (WithDetails (WithDetails (failed ''gateway stream kind mismatch'')
                               ''rpc'' rpc) ''configured'' (AString kind)) ''registered'' (AString (sc_kind codec)))
                    else Inr (route\<lparr>pr_streamCodec := Some codec\<rparr>)))
         else
           (case lookupProxyInvoker (pr_fullRPC route) (ge_invokers env) of
              None \<Rightarrow> Inl (WithDetails (failed ''grpc proxy invoker is not registered'') ''rpc'' rpc)
            | Some ivk \<Rightarrow> Inr (route\<lparr>pr_invoker := Some ivk\<rparr>)))"

fun dialPool :: "'v grpc_lib \<Rightarrow> string \<Rightarrow> nat \<Rightarrow> 'v \<Rightarrow> 'v \<times> conn list result" where
  "dialPool lib target 0 v = (v, Inr [])"
| "dialPool lib target (Suc n) v =
     (case DialTargetFresh lib target v of
        (v1, Inl e) \<Rightarrow> (v1, Inl e)
      | (v1, Inr c) \<Rightarrow>
          (case dialPool lib target n v1 of
             (v2, Inl e) \<Rightarrow> (v2, Inl e)
           | (v2, Inr cs) \<Rightarrow> (v2, Inr (c # cs))))"

definition poolSize :: "GatewayRouteConfig \<Rightarrow> nat" where
  "poolSize cfg = (if rt_PoolSize cfg \<le> 0 then 1 else nat (rt_PoolSize cfg))"

definition connectRoute ::
  "('w, 'i, 'f, 'v) gw_env \<Rightarrow> ('i, 'f streamCodec) proxyRoute \<Rightarrow> 'v \<Rightarrow> 'v \<times> ('i, 'f streamCodec) proxyRoute result" where
  "connectRoute env route v =
     (if trimSpace (rt_Target (pr_cfg route)) \<noteq> [] then
        (case dialPool (ge_lib env) (rt_Target (pr_cfg route)) (poolSize (pr_cfg route)) v of
           (v', Inl e) \<Rightarrow> (v', Inl (WithCause (New (ge_err env) CodeUnavailable ''grpc target unavailable'') e))
         | (v', Inr cs) \<Rightarrow> (v', Inr (route\<lparr>pr_conns := cs\<rparr>)))
      else (v, Inr route))"

definition errUpgradeRequired :: go_error where "errUpgradeRequired = Sentinel ''Upgrade Required''"

definition upgradeGuard :: "('w fctx \<Rightarrow> bool) \<Rightarrow> 'w handler" where
  "upgradeGuard up k c = (if up c then k c else (c, HErr errUpgradeRequired))"

definition mountStreamRoute ::
  "('w, 'i, 'f, 'v) gw_env \<Rightarrow> ('i, 'f streamCodec) proxyRoute \<Rightarrow> 'w handler list \<Rightarrow> 'w entry" where
  "mountStreamRoute env route hs =
     Route ''GET'' (rt_Path (pr_cfg route)) (upgradeGuard (ge_isUpgrade env) # hs @ [ge_ws env route])"

definition mountSSERoute ::
  "('w, 'i, 'f, 'v) gw_env \<Rightarrow> ('i, 'f streamCodec) proxyRoute \<Rightarrow> 'w handler list \<Rightarrow> 'w entry" where
  "mountSSERoute env route hs =
     Route (toUpper (rt_Method (pr_cfg route))) (rt_Path (pr_cfg route)) (hs @ [ge_sse env route])"

definition routeEntry ::
  "('w, 'i, 'f, 'v) gw_env \<Rightarrow> GatewayRouteConfig \<Rightarrow> ('i, 'f streamCodec) proxyRoute \<Rightarrow> 'w handler list \<Rightarrow> 'w entry" where
  "routeEntry env routeCfg route hs =
     (if isStream routeCfg then
        (if map_option sc_kind (pr_streamCodec route) = Some streamKindSSE then mountSSERoute env route hs
         else mountStreamRoute env route hs)
      else Route (toUpper (rt_Method (pr_cfg route))) (rt_Path (pr_cfg route)) (hs @ [ge_unary env route]))"

text \<open>One iteration of the loop of \<open>mountConfiguredRoutes\<close>, on the app, the gateway and the world.\<close>

definition mountRoute ::
  "('w, 'i, 'f, 'v) gw_env \<Rightarrow> Config \<Rightarrow> GatewayRouteConfig \<Rightarrow> 'w app \<times> ('w, 'i, 'f) Gateway \<times> 'v \<Rightarrow>
   ('w app \<times> ('w, 'i, 'f) Gateway \<times> 'v) \<times> go_error option" where
  "mountRoute env cfg routeCfg st =
     (case st of (app, g, v) \<Rightarrow>
        (case newProxyRoute routeCfg of
           Inl e \<Rightarrow> ((app, g, v), Some e)
         | Inr route0 \<Rightarrow>
             (let g1 = g\<lparr>g_skips := registerPluginSkip (pr_cfg route0) (g_skips g)\<rparr>
              in case bindRoute env routeCfg route0 of
                   Inl e \<Rightarrow> ((app, g1, v), Some e)
                 | Inr route1 \<Rightarrow>
                     (case connectRoute env route1 v of
                        (v1, Inl e) \<Rightarrow> ((app, g1, v1), Some e)
                      | (v1, Inr route) \<Rightarrow>
                          (let g2 = g1\<lparr>g_routes := g_routes g1 @ [route]\<rparr>
                           in case buildRoutePlugins env cfg routeCfg app of
                                Inl e \<Rightarrow> ((app, g2, v1), Some e)
                              | Inr (app1, hs) \<Rightarrow> ((app1 @ [routeEntry env routeCfg route hs], g2, v1), None))))))"

fun mountConfiguredRoutes ::
  "('w, 'i, 'f, 'v) gw_env \<Rightarrow> Config \<Rightarrow> GatewayRouteConfig list \<Rightarrow> 'w app \<times> ('w, 'i, 'f) Gateway \<times> 'v \<Rightarrow>
   ('w app \<times> ('w, 'i, 'f) Gateway \<times> 'v) \<times> go_error option" where
  "mountConfiguredRoutes env cfg [] st = (st, None)"
| "mountConfiguredRoutes env cfg (r # rs) st =
     (case mountRoute env cfg r st of
        (st', Some e) \<Rightarrow> (st', Some e)
      | (st', None) \<Rightarrow> mountConfiguredRoutes env cfg rs st')"

definition healthHandler :: "'w handler" where
  "healthHandler k c =
     (c\<lparr>fc_Status := 200, fc_Body := JSONBody (Success (fc_Now c) (AMap [(''status'', AString ''ok'')]))\<rparr>, HOk)"

text \<open>The package's \<open>init\<close> fills the default plugin registry.\<close>

definition gateway_init :: "'w plug_lib \<Rightarrow> ('w, 'w app) plugin_registry outcome" where
  "gateway_init lib = RegisterBuiltins lib plugin_NewRegistry"

definition gateway_New :: "('w, 'i, 'f) Gateway" where
  "gateway_New = \<lparr>g_app = None, g_routes = [], g_skips = [], g_address = []\<rparr>"

text \<open>
  The list \<open>g.globalSkips\<close> after the loop of \<open>mountConfiguredRoutes\<close>: every route adds its skips, with its method
  filled in. The wrapped global plugins read the field when a request arrives, which is after \<open>Init\<close>;
  \<open>gateway_assembly\<close> below shows that the list they are given here is the field the gateway ends up with.
\<close>

definition globalSkips :: "Config \<Rightarrow> ('w, 'i, 'f) Gateway \<Rightarrow> routePluginSkip list" where
  "globalSkips cfg g =
     fold (\<lambda>r. registerPluginSkip (r\<lparr>rt_Method := routeMethod r\<rparr>)) (gw_Routes (c_Gateway cfg)) (g_skips g)"

text \<open>
  \<open>Init\<close>: when it fails, the app it leaves (never served) is given as it was before the failing
  group of mounts. \<open>custom\<close> are the \<open>RouteFunc\<close>s given to \<open>New\<close>, as functions on the app. fiber's \<open>Add\<close> panics
  when a route is configured with a method fiber does not know; an app is a list of entries here and
  takes every method.
\<close>

definition gateway_Init ::
  "('w, 'i, 'f, 'v) gw_env \<Rightarrow> Config \<Rightarrow> ('w app \<Rightarrow> 'w app) list \<Rightarrow>
   ('w, 'i, 'f) Gateway \<Rightarrow> 'v \<Rightarrow> ('w, 'i, 'f) Gateway \<times> 'v \<times> go_error option" where
  "gateway_Init env cfg custom g v =
     (let g0 = g\<lparr>g_address := Address (gw_ListenIP (c_Gateway cfg)) (gw_Port (c_Gateway cfg))\<rparr>;
          app0 = [Use (ge_requestid env), Route ''GET'' ''/health'' [healthHandler]]
      in case mountGlobalPlugins env cfg (globalSkips cfg g) app0 of
           Inl e \<Rightarrow> (g0\<lparr>g_app := Some app0\<rparr>, v, Some e)
         | Inr app1 \<Rightarrow>
             (case mountConfiguredRoutes env cfg (gw_Routes (c_Gateway cfg)) (app1, g0, v) of
                ((app2, g2, v2), Some e) \<Rightarrow> (g2\<lparr>g_app := Some app2\<rparr>, v2, Some e)
              | ((app2, g2, v2), None) \<Rightarrow> (g2\<lparr>g_app := Some (fold (\<lambda>f a. f a) custom app2)\<rparr>, v2, None)))"

section \<open>Requests and shutdown\<close>

text \<open>\<open>Handle\<close>: \<open>run\<close> is the \<open>HandlerFunc\<close>, here on the context it is given and the request. The context of
  \<open>c.UserContext()\<close> is the background context, since nothing under \<open>src\<close> calls \<open>SetUserContext\<close>.\<close>

definition handle_ctx :: "'w fctx \<Rightarrow> ctx" where
  "handle_ctx c =
     (case map_of (fc_Locals c) ''deadline'' of
        Some (ADuration d) \<Rightarrow> if d > 0 then WithTimeout (fc_Now c) Background d else Background
      | _ \<Rightarrow> Background)"

definition appError_of :: "errors_pkg \<Rightarrow> go_error \<Rightarrow> go_error" where
  "appError_of E err =
     (case err of AppError _ _ _ _ _ _ \<Rightarrow> err
      | _ \<Rightarrow> (case FromGRPCError E (Some err) of Some ae \<Rightarrow> ae | None \<Rightarrow> New E CodeInternal []))"

definition Handle ::
  "errors_pkg \<Rightarrow> (ctx \<Rightarrow> 'w fctx \<Rightarrow> 'w fctx \<times> reply result outcome) \<Rightarrow> 'w handler" where
  "Handle E run k c =
     (case run (handle_ctx c) c of
        (c', Panic m) \<Rightarrow> (c', HPanic m)
      | (c', Ret (Inl err)) \<Rightarrow>
          (let ae = appError_of E err
           in (c'\<lparr>fc_Status := ae_HTTPStatus ae, fc_Body := JSONBody (Failure E (fc_Now c') ae)\<rparr>, HOk))
      | (c', Ret (Inr Handled)) \<Rightarrow> (c', HOk)
      | (c', Ret (Inr (Data d))) \<Rightarrow> (c'\<lparr>fc_Status := 200, fc_Body := JSONBody (Success (fc_Now c') d)\<rparr>, HOk))"

definition writeProxyError :: "errors_pkg \<Rightarrow> go_error \<Rightarrow> 'w cont" where
  "writeProxyError E err c = WriteError E (appError_of E err) c"

text \<open>\<open>Stop\<close>: the error of the shutdown first, then the first error of a close.\<close>

fun closeConns :: "'v grpc_lib \<Rightarrow> conn list \<Rightarrow> go_error option \<Rightarrow> 'v \<Rightarrow> 'v \<times> go_error option" where
  "closeConns lib [] err v = (v, err)"
| "closeConns lib (c # cs) err v =
     (case gl_Close lib c v of (v', e) \<Rightarrow> closeConns lib cs (if err = None \<and> e \<noteq> None then e else err) v')"

text \<open>\<open>info\<close> logs the address, if there is a logger; \<open>listen\<close> starts the goroutine that serves the app and
  ignores what \<open>Listen\<close> returns.\<close>

definition gateway_Start ::
  "(string \<Rightarrow> 'v \<Rightarrow> 'v) option \<Rightarrow> (string \<Rightarrow> 'v \<Rightarrow> 'v) \<Rightarrow> ('w, 'i, 'f) Gateway \<Rightarrow> 'v \<Rightarrow> 'v \<times> go_error option" where
  "gateway_Start info listen g v =
     (listen (g_address g) (case info of None \<Rightarrow> v | Some emit \<Rightarrow> emit (g_address g) v), None)"

definition gateway_Stop ::
  "'v grpc_lib \<Rightarrow> ('v \<Rightarrow> 'v \<times> go_error option) \<Rightarrow> ('w, 'i, 'f) Gateway \<Rightarrow> 'v \<Rightarrow> 'v \<times> go_error option" where
  "gateway_Stop lib shutdown g v =
     (case shutdown v of (v', err) \<Rightarrow> closeConns lib (concat (map pr_conns (g_routes g))) err v')"

definition gateway_Health :: "('w, 'i, 'f) Gateway \<Rightarrow> go_error option" where
  "gateway_Health g = (if g_app g = None then Some (PlainError ''gateway is not initialized'') else None)"

definition BindBody :: "errors_pkg \<Rightarrow> ('q \<Rightarrow> 't result) \<Rightarrow> 'q \<Rightarrow> 't result" where
  "BindBody E bodyParser q =
     (case bodyParser q of
        Inl e \<Rightarrow> Inl (WithCause (New E CodeInvalidArgument ''invalid request body'') e)
      | Inr r \<Rightarrow> Inr r)"

definition BindQuery :: "errors_pkg \<Rightarrow> ('q \<Rightarrow> 't result) \<Rightarrow> 'q \<Rightarrow> 't result" where
  "BindQuery E queryParser q =
     (case queryParser q of
        Inl e \<Rightarrow> Inl (WithCause (New E CodeInvalidArgument ''invalid query'') e)
      | Inr r \<Rightarrow> Inr r)"

section \<open>Assembly: lemmas\<close>

definition appends :: "('w app \<Rightarrow> 'w app result) \<Rightarrow> bool" where
  "appends m \<longleftrightarrow> (\<forall>app app'. m app = Inr app' \<longrightarrow> (\<exists>x. app' = app @ x))"

text \<open>A plugin's \<open>Mount\<close> registers routes of its own: it adds to the app.\<close>

definition mounts_append :: "('w, 'w app) plugin_registry \<Rightarrow> bool" where
  "mounts_append r \<longleftrightarrow> (\<forall>n f ctx p m. map_of r n = Some f \<and> f ctx = Inr p \<and> pl_Mount p = Some m \<longrightarrow> appends m)"

lemma built_appends:
  assumes "mounts_append r" and "plugin_Build r base specs = Inr ps" and "p \<in> set ps" and "pl_Mount p = Some m"
  shows "appends m"
proof -
  obtain i where i: "i < length ps" "ps ! i = p" using assms(3) by (auto simp: in_set_conv_nth)
  let ?spec = "filter plugin_IsEnabled specs ! i"
  obtain f b where
    "plugin_Lookup (gp_Name ?spec) r = Some f" "f (base\<lparr>bc_Settings := gp_Config ?spec\<rparr>) = Inr b"
    "p = b\<lparr>pl_Name := normName (gp_Name ?spec)\<rparr>"
    using list_all2_nthD2 [OF plugin_Build_pointwise [OF assms(2)] i(1)] unfolding i(2) by blast
  with assms(1,4) show ?thesis unfolding mounts_append_def plugin_Lookup_def by fastforce
qed

lemma mountAll_appends:
  assumes "\<forall>p \<in> set ps. \<forall>m. pl_Mount p = Some m \<longrightarrow> appends m" and "mountAll ps app = Inr app'"
  shows "\<exists>x. app' = app @ x"
  using assms
proof (induction ps arbitrary: app)
  case Nil
  then show ?case by simp
next
  case (Cons p ps)
  show ?case
  proof (cases "pl_Mount p")
    case None
    with Cons show ?thesis by simp
  next
    case (Some m)
    with Cons.prems obtain app1 where m: "m app = Inr app1" and "mountAll ps app1 = Inr app'"
      by (auto split: sum.splits)
    with Cons obtain y where "app' = app1 @ y" by fastforce
    moreover obtain x where "app1 = app @ x"
      using Cons.prems(1) Some m by (fastforce simp: appends_def)
    ultimately show ?thesis by simp
  qed
qed

lemma collectHandlers_appends:
  assumes "\<forall>p \<in> set ps. \<forall>m. pl_Mount p = Some m \<longrightarrow> appends m" and "collectHandlers ps app = Inr (app', hs)"
  shows "(\<exists>x. app' = app @ x) \<and> hs = List.map_filter pl_Handler ps"
  using assms
proof (induction ps arbitrary: app hs)
  case Nil
  then show ?case by (simp add: List.map_filter_simps)
next
  case (Cons p ps)
  from Cons.prems(2) obtain app1 hs1 where
    m: "(case pl_Mount p of None \<Rightarrow> Inr app | Some m \<Rightarrow> m app) = Inr app1"
    and c: "collectHandlers ps app1 = Inr (app', hs1)" and hs: "hs = (case pl_Handler p of None \<Rightarrow> hs1 | Some h \<Rightarrow> h # hs1)"
    by (auto split: sum.splits prod.splits)
  have ih: "(\<exists>x. app' = app1 @ x) \<and> hs1 = List.map_filter pl_Handler ps"
    using Cons.IH [OF _ c] Cons.prems(1) by simp
  have "\<exists>x. app1 = app @ x"
    using m Cons.prems(1) by (auto simp: appends_def split: option.splits)
  with ih hs show ?case
    by (auto simp: List.map_filter_simps split: option.splits)
qed

lemma dialPool_length: "dialPool lib target n v = (v', Inr cs) \<Longrightarrow> length cs = n"
proof (induction n arbitrary: v cs)
  case 0
  then show ?case by simp
next
  case (Suc n)
  then show ?case by (auto split: prod.splits sum.splits)
qed

text \<open>What a mounted route is, given its configuration.\<close>

definition route_ready ::
  "('w, 'i, 'f, 'v) gw_env \<Rightarrow> GatewayRouteConfig \<Rightarrow> ('i, 'f streamCodec) proxyRoute \<Rightarrow> bool" where
  "route_ready env cfg route \<longleftrightarrow>
     pr_cfg route = cfg\<lparr>rt_Method := routeMethod cfg\<rparr> \<and>
     rpc_key (rt_RPC cfg) = Some (pr_fullRPC route) \<and>
     (if isStream cfg
      then \<exists>codec. pr_streamCodec route = Some codec \<and> map_of (ge_codecs env) (pr_fullRPC route) = Some codec \<and>
             sc_kind codec = toLower (trimSpace (rt_Stream cfg))
      else pr_invoker route \<noteq> None \<and> pr_invoker route = map_of (ge_invokers env) (pr_fullRPC route)) \<and>
     length (pr_conns route) = (if trimSpace (rt_Target cfg) = [] then 0 else poolSize cfg) \<and>
     pr_balancer route = buildBalancer (rt_LoadBalance cfg)"

lemma newProxyRoute_ready:
  "newProxyRoute cfg = Inr r \<Longrightarrow>
   pr_cfg r = cfg\<lparr>rt_Method := routeMethod cfg\<rparr> \<and> rpc_key (rt_RPC cfg) = Some (pr_fullRPC r) \<and> pr_conns r = [] \<and>
   pr_balancer r = buildBalancer (rt_LoadBalance cfg)"
  by (auto simp: newProxyRoute_def rpc_key_def split: sum.splits if_splits)

lemma bindRoute_ready:
  assumes "bindRoute env cfg r0 = Inr r1"
  shows "pr_cfg r1 = pr_cfg r0 \<and> pr_fullRPC r1 = pr_fullRPC r0 \<and> pr_conns r1 = pr_conns r0 \<and>
    pr_balancer r1 = pr_balancer r0 \<and>
    (if isStream cfg
     then \<exists>codec. pr_streamCodec r1 = Some codec \<and> map_of (ge_codecs env) (pr_fullRPC r1) = Some codec \<and>
            sc_kind codec = toLower (trimSpace (rt_Stream cfg))
     else pr_invoker r1 \<noteq> None \<and> pr_invoker r1 = map_of (ge_invokers env) (pr_fullRPC r1))"
  using assms
  by (auto simp: bindRoute_def lookupStreamProxy_def lookupProxyInvoker_def Let_def split: if_splits option.splits)

lemma connectRoute_ready:
  assumes "connectRoute env r1 v = (v', Inr r2)" and "pr_conns r1 = []"
  shows "\<exists>cs. r2 = r1\<lparr>pr_conns := cs\<rparr> \<and>
    length cs = (if trimSpace (rt_Target (pr_cfg r1)) = [] then 0 else poolSize (pr_cfg r1))"
proof (cases "trimSpace (rt_Target (pr_cfg r1)) = []")
  case True
  with assms show ?thesis by (intro exI [of _ "[]"]) (auto simp: connectRoute_def)
next
  case False
  with assms show ?thesis
    by (auto simp: connectRoute_def split: prod.splits sum.splits dest: dialPool_length)
qed

lemma mountRoute_ok:
  assumes "mountRoute env cfg r (app, g, v) = ((app', g', v'), None)" and "mounts_append (ge_plugins env)"
  shows "\<exists>route hs x. route_ready env r route \<and> g_routes g' = g_routes g @ [route] \<and>
    app' = app @ x @ [routeEntry env r route hs] \<and>
    g_skips g' = registerPluginSkip (r\<lparr>rt_Method := routeMethod r\<rparr>) (g_skips g)"
proof -
  from assms(1) obtain r0 r1 route app1 hs where r0: "newProxyRoute r = Inr r0" and r1: "bindRoute env r r0 = Inr r1"
    and r2: "connectRoute env r1 v = (v', Inr route)" and b: "buildRoutePlugins env cfg r app = Inr (app1, hs)"
    and app': "app' = app1 @ [routeEntry env r route hs]"
    and g': "g' = g\<lparr>g_skips := registerPluginSkip (pr_cfg r0) (g_skips g), g_routes := g_routes g @ [route]\<rparr>"
    by (auto simp: mountRoute_def Let_def split: sum.splits prod.splits)
  note n = newProxyRoute_ready [OF r0] and bd = bindRoute_ready [OF r1]
  then obtain cs where "route = r1\<lparr>pr_conns := cs\<rparr>" and
    "length cs = (if trimSpace (rt_Target (pr_cfg r1)) = [] then 0 else poolSize (pr_cfg r1))"
    using connectRoute_ready [OF r2] by auto
  with n bd have ready: "route_ready env r route"
    unfolding route_ready_def poolSize_def by (cases "isStream r") (auto, metis)
  obtain ps where "plugin_Build (ge_plugins env) (pluginBuildContext cfg) (rt_Plugins r) = Inr ps"
    and "collectHandlers ps app = Inr (app1, hs)"
    using b by (auto simp: buildRoutePlugins_def split: sum.splits)
  then obtain x where "app1 = app @ x"
    using collectHandlers_appends [of ps app app1 hs] built_appends [OF assms(2)] by blast
  with ready app' g' n show ?thesis by auto
qed

lemma mountConfiguredRoutes_ok:
  assumes "mountConfiguredRoutes env cfg rs (app, g, v) = ((app', g', v'), None)" and "mounts_append (ge_plugins env)"
  shows "\<exists>routes x. list_all2 (route_ready env) rs routes \<and> g_routes g' = g_routes g @ routes \<and> app' = app @ x \<and>
    list_all2 (\<lambda>r route. \<exists>hs. routeEntry env r route hs \<in> set x) rs routes \<and>
    g_skips g' = fold (\<lambda>r. registerPluginSkip (r\<lparr>rt_Method := routeMethod r\<rparr>)) rs (g_skips g)"
  using assms(1)
proof (induction rs arbitrary: app g v)
  case Nil
  then show ?case by simp
next
  case (Cons r rs)
  then obtain app1 g1 v1 where m: "mountRoute env cfg r (app, g, v) = ((app1, g1, v1), None)"
    and rest: "mountConfiguredRoutes env cfg rs (app1, g1, v1) = ((app', g', v'), None)"
    by (auto split: prod.splits option.splits)
  from mountRoute_ok [OF m assms(2)] obtain route hs x where
    1: "route_ready env r route" "g_routes g1 = g_routes g @ [route]" "app1 = app @ x @ [routeEntry env r route hs]"
      "g_skips g1 = registerPluginSkip (r\<lparr>rt_Method := routeMethod r\<rparr>) (g_skips g)" by blast
  from Cons.IH [OF rest] obtain routes y where
    2: "list_all2 (route_ready env) rs routes" "g_routes g' = g_routes g1 @ routes" "app' = app1 @ y"
      "list_all2 (\<lambda>r route. \<exists>hs. routeEntry env r route hs \<in> set y) rs routes"
      "g_skips g' = fold (\<lambda>r. registerPluginSkip (r\<lparr>rt_Method := routeMethod r\<rparr>)) rs (g_skips g1)" by blast
  have "list_all2 (\<lambda>r route. \<exists>hs. routeEntry env r route hs \<in> set (x @ [routeEntry env r0 route0 hs0] @ y)) rs routes" for r0 route0 hs0
    by (rule list_all2_mono [OF 2(4)]) auto
  with 1 2 show ?case
    by (intro exI [of _ "route # routes"] exI [of _ "x @ [routeEntry env r route hs] @ y"]) auto
qed

text \<open>What a successful \<open>Init\<close> leaves.\<close>

lemma gateway_assembly:
  assumes "gateway_Init env cfg custom gateway_New v = (g, v', None)"
    and "mounts_append (ge_plugins env)" and "\<forall>f \<in> set custom. \<forall>a. \<exists>x. f a = a @ x"
  shows "\<exists>built mounts routes rest.
    plugin_Build (ge_plugins env) (pluginBuildContext cfg) (gw_Plugins (c_Gateway cfg)) = Inr built \<and>
    mountAll built [Use (ge_requestid env), Route ''GET'' ''/health'' [healthHandler]] =
      Inr ([Use (ge_requestid env), Route ''GET'' ''/health'' [healthHandler]] @ mounts) \<and>
    g_app g = Some ([Use (ge_requestid env), Route ''GET'' ''/health'' [healthHandler]] @ mounts @
                    globalUses (ge_matches env) (g_skips g) built @ rest) \<and>
    g_routes g = routes \<and>
    list_all2 (\<lambda>r route. route_ready env r route \<and> (\<exists>hs. routeEntry env r route hs \<in> set rest))
      (gw_Routes (c_Gateway cfg)) routes \<and>
    g_skips g = fold (\<lambda>r. registerPluginSkip (r\<lparr>rt_Method := routeMethod r\<rparr>)) (gw_Routes (c_Gateway cfg)) []"
proof -
  let ?app0 = "[Use (ge_requestid env), Route ''GET'' ''/health'' [healthHandler]]"
  let ?g0 = "gateway_New\<lparr>g_address := Address (gw_ListenIP (c_Gateway cfg)) (gw_Port (c_Gateway cfg))\<rparr>"
  from assms(1) obtain app1 app2 g2 where 1: "mountGlobalPlugins env cfg (globalSkips cfg (gateway_New :: ('a, 'b, 'c) Gateway)) ?app0 = Inr app1"
    and 2: "mountConfiguredRoutes env cfg (gw_Routes (c_Gateway cfg)) (app1, ?g0, v) = ((app2, g2, v'), None)"
    and g: "g = g2\<lparr>g_app := Some (fold (\<lambda>f a. f a) custom app2)\<rparr>"
    by (auto simp: gateway_Init_def Let_def split: sum.splits prod.splits option.splits)
  from 1 obtain built appm where b: "plugin_Build (ge_plugins env) (pluginBuildContext cfg) (gw_Plugins (c_Gateway cfg)) = Inr built"
    and am: "mountAll built ?app0 = Inr appm" and app1: "app1 = appm @ globalUses (ge_matches env) (globalSkips cfg (gateway_New :: ('a, 'b, 'c) Gateway)) built"
    by (auto simp: mountGlobalPlugins_def split: sum.splits)
  then obtain mounts where appm: "appm = ?app0 @ mounts"
    using mountAll_appends [of built ?app0 appm] built_appends [OF assms(2)] by blast
  from mountConfiguredRoutes_ok [OF 2 assms(2)] obtain routes x where
    3: "list_all2 (route_ready env) (gw_Routes (c_Gateway cfg)) routes" "g_routes g2 = routes" "app2 = app1 @ x"
      "list_all2 (\<lambda>r route. \<exists>hs. routeEntry env r route hs \<in> set x) (gw_Routes (c_Gateway cfg)) routes"
      "g_skips g2 = fold (\<lambda>r. registerPluginSkip (r\<lparr>rt_Method := routeMethod r\<rparr>)) (gw_Routes (c_Gateway cfg)) []"
    by (auto simp: gateway_New_def)
  have "\<exists>y. fold (\<lambda>f a. f a) custom a = a @ y" for a
    using assms(3) by (induction custom arbitrary: a) (auto, metis append.assoc)
  then obtain y where y: "fold (\<lambda>f a. f a) custom app2 = app2 @ y" by blast
  have "list_all2 (\<lambda>r route. route_ready env r route \<and> (\<exists>hs. routeEntry env r route hs \<in> set (x @ y)))
      (gw_Routes (c_Gateway cfg)) routes"
    using 3(1,4) by (auto simp: list_all2_conv_all_nth)
  moreover have "globalSkips cfg (gateway_New :: ('a, 'b, 'c) Gateway) = g_skips g"
    using 3(5) by (simp add: globalSkips_def g gateway_New_def)
  ultimately show ?thesis using b g app1 am appm y 3
    by (intro exI [of _ built] exI [of _ mounts] exI [of _ routes] exI [of _ "x @ y"]) auto
qed

section \<open>Properties\<close>

text \<open>C13: a gateway that starts is completely wired. If \<open>Init\<close> succeeds, the app holds, in this order,
  the request id middleware, the health endpoint, the plugins' own endpoints, the global plugins in
  configuration order and then every configured route, so no configured route is reachable before
  a global plugin. Every configured route carries the invoker or the stream codec registered for
  its RPC (a codec of the configured kind) and a pool of exactly the configured size if it has a
  target; and the skip lists the gateway ends up with, which the wrapped global plugins consult on
  every request, are those of the configuration.\<close>

theorem gateway_wired:
  assumes "gateway_Init env cfg custom gateway_New v = (g, v', None)"
    and "mounts_append (ge_plugins env)" and "\<forall>f \<in> set custom. \<forall>a. \<exists>x. f a = a @ x"
  shows "\<exists>built mounts routes rest.
    plugin_Build (ge_plugins env) (pluginBuildContext cfg) (gw_Plugins (c_Gateway cfg)) = Inr built \<and>
    g_app g = Some ([Use (ge_requestid env), Route ''GET'' ''/health'' [healthHandler]] @ mounts @
                    globalUses (ge_matches env) (g_skips g) built @ rest) \<and>
    g_routes g = routes \<and>
    list_all2 (\<lambda>r route. route_ready env r route \<and> (\<exists>hs. routeEntry env r route hs \<in> set rest))
      (gw_Routes (c_Gateway cfg)) routes \<and>
    g_skips g = fold (\<lambda>r. registerPluginSkip (r\<lparr>rt_Method := routeMethod r\<rparr>)) (gw_Routes (c_Gateway cfg)) []"
  using gateway_assembly [OF assms] by blast

definition demo_gw_env :: "(nat, nat, nat, nat) gw_env" where
  "demo_gw_env =
     \<lparr>ge_err = E0, ge_plugins = [(''jwt'', jwt_Factory demo_lib), (''recovery'', recovery_Factory demo_lib)],
      ge_invokers = [(''/todo.v1.Todo/Get'', 7)], ge_codecs = [],
      ge_lib = \<lparr>gl_NewClient = (\<lambda>t n. (n + 1, Inr n)), gl_Close = (\<lambda>c n. (n, None))\<rparr>,
      ge_matches = (\<lambda>path pat. path = pat \<or> (path = ''/users/me'' \<and> pat = ''/users/:id'')),
      ge_requestid = (\<lambda>k. k), ge_isUpgrade = (\<lambda>_. False), ge_unary = (\<lambda>r k. k), ge_sse = (\<lambda>r k. k), ge_ws = (\<lambda>r k. k)\<rparr>"

definition demo_pooled :: GatewayRouteConfig where
  "demo_pooled = demo_route\<lparr>rt_Target := ''todo:9000'', rt_PoolSize := 3\<rparr>"

definition demo_gw_cfg :: Config where
  "demo_gw_cfg = Default\<lparr>c_Gateway := (c_Gateway Default)\<lparr>gw_Plugins := [], gw_Routes := [demo_pooled]\<rparr>\<rparr>"

lemma demo_gw_append: "mounts_append (ge_plugins demo_gw_env)"
  by (auto simp: mounts_append_def demo_gw_env_def recovery_Factory_def jwt_Factory_def handlerPlugin_def
      split: if_splits sum.splits)

lemma demo_gw_env_sel [simp]:
  "ge_invokers demo_gw_env = [(''/todo.v1.Todo/Get'', 7)]"
  "gl_NewClient (ge_lib demo_gw_env) t n = (n + 1, Inr n)"
  by (simp_all add: demo_gw_env_def)

lemma demo_gw_mount:
  "\<exists>app' g' v'. mountRoute (demo_gw_env\<lparr>ge_plugins := ps\<rparr>) cfg demo_pooled (app, g, v) = ((app', g', v'), None) \<and>
     g_skips g' = g_skips g"
proof -
  have "\<exists>r :: (nat, nat streamCodec) proxyRoute. newProxyRoute demo_pooled = Inr r \<and> pr_fullRPC r = ''/todo.v1.Todo/Get'' \<and>
      rt_Target (pr_cfg r) = ''todo:9000'' \<and> poolSize (pr_cfg r) = 3"
    by (rule exI [of _ "projr (newProxyRoute demo_pooled)"], intro conjI; code_simp)
  then obtain r0 :: "(nat, nat streamCodec) proxyRoute" where r0: "newProxyRoute demo_pooled = Inr r0"
    "pr_fullRPC r0 = ''/todo.v1.Todo/Get''" "rt_Target (pr_cfg r0) = ''todo:9000''" "poolSize (pr_cfg r0) = 3"
    by blast
  have d: "trimSpace ''todo:9000'' = ''todo:9000''" "isStream demo_pooled = False" "rt_Plugins demo_pooled = []"
    "rt_SkipGlobalPlugins demo_pooled = []"
    by code_simp+
  have "bindRoute (demo_gw_env\<lparr>ge_plugins := ps\<rparr>) demo_pooled r0 = Inr (r0\<lparr>pr_invoker := Some 7\<rparr>)"
    using r0 d by (simp add: bindRoute_def lookupProxyInvoker_def)
  moreover have "\<exists>v1 r. connectRoute (demo_gw_env\<lparr>ge_plugins := ps\<rparr>) (r0\<lparr>pr_invoker := Some 7\<rparr>) v = (v1, Inr r)"
    using r0 d by (simp add: connectRoute_def DialTargetFresh_def numeral_3_eq_3)
  moreover have "buildRoutePlugins (demo_gw_env\<lparr>ge_plugins := ps\<rparr>) cfg demo_pooled app = Inr (app, [])"
    using d by (simp add: buildRoutePlugins_def)
  moreover have "registerPluginSkip (pr_cfg r0) (g_skips g) = g_skips g"
    using newProxyRoute_ready [OF r0(1)] d(4) by (simp add: registerPluginSkip_def)
  ultimately show ?thesis using r0(1) by (auto simp: mountRoute_def Let_def)
qed

theorem gateway_wired_witness:
  "length (g_routes (fst (gateway_Init demo_gw_env demo_gw_cfg [] gateway_New 0))) = 1"
proof -
  have c: "gw_Plugins (c_Gateway demo_gw_cfg) = []" "gw_Routes (c_Gateway demo_gw_cfg) = [demo_pooled]"
    by (simp_all add: demo_gw_cfg_def)
  have self: "demo_gw_env\<lparr>ge_plugins := ge_plugins demo_gw_env\<rparr> = demo_gw_env" by simp
  have m: "mountGlobalPlugins demo_gw_env demo_gw_cfg skips a = Inr a" for skips a
    by (simp add: mountGlobalPlugins_def c globalUses_def)
  obtain app' g' v' where "mountRoute demo_gw_env demo_gw_cfg demo_pooled
      ([Use (ge_requestid demo_gw_env), Route ''GET'' ''/health'' [healthHandler]],
       gateway_New\<lparr>g_address := Address (gw_ListenIP (c_Gateway demo_gw_cfg)) (gw_Port (c_Gateway demo_gw_cfg))\<rparr>, 0) =
      ((app', g', v'), None)"
    using demo_gw_mount [of "ge_plugins demo_gw_env", unfolded self] by blast
  then have e: "gateway_Init demo_gw_env demo_gw_cfg [] gateway_New 0 = (g'\<lparr>g_app := Some app'\<rparr>, v', None)"
    by (simp add: gateway_Init_def m c)
  have "length (gw_Routes (c_Gateway demo_gw_cfg)) = length (g_routes g')"
    by (rule exE [OF gateway_wired [OF e demo_gw_append]]) (auto dest: list_all2_lengthD)
  with c e show ?thesis by simp
qed

section \<open>Skip lists\<close>

lemma sk_skip_of [simp]:
  "sk_method (skip_of cfg) = toUpper (trimSpace (rt_Method cfg))" "sk_pattern (skip_of cfg) = rt_Path cfg"
  "sk_all (skip_of cfg) \<longleftrightarrow> (\<exists>s \<in> set (rt_SkipGlobalPlugins cfg). normName s = ''*'')"
  "set (sk_names (skip_of cfg)) = {n \<in> normName ` set (rt_SkipGlobalPlugins cfg). n \<noteq> ''*'' \<and> n \<noteq> []}"
  by (force simp: skip_of_def Let_def normName_def skipAllPlugins_def)+

lemma skips_append:
  "skipsGlobalPlugin m (registerPluginSkip cfg skips) name c \<longleftrightarrow>
     skipsGlobalPlugin m skips name c \<or>
     (rt_SkipGlobalPlugins cfg \<noteq> [] \<and> skipsGlobalPlugin m [skip_of cfg] name c)"
  by (auto simp: registerPluginSkip_def skipsGlobalPlugin_def simp del: sk_skip_of)

lemma skips_fold:
  "skipsGlobalPlugin m (fold registerPluginSkip cfgs skips) name c \<longleftrightarrow>
     skipsGlobalPlugin m skips name c \<or>
     (\<exists>cfg \<in> set cfgs. rt_SkipGlobalPlugins cfg \<noteq> [] \<and> skipsGlobalPlugin m [skip_of cfg] name c)"
  by (induction cfgs arbitrary: skips) (auto simp: skips_append)

lemma skip_of_applies:
  assumes "name \<noteq> []" and "name \<noteq> ''*''"
  shows "rt_SkipGlobalPlugins cfg \<noteq> [] \<and> skipsGlobalPlugin m [skip_of cfg] name c \<longleftrightarrow>
      (\<exists>s \<in> set (rt_SkipGlobalPlugins cfg). normName s = ''*'' \<or> normName s = name) \<and>
      (trimSpace (rt_Method cfg) = [] \<or> toUpper (trimSpace (rt_Method cfg)) = fc_Method c) \<and> m (fc_Path c) (rt_Path cfg)"
  using assms by (auto simp: skipsGlobalPlugin_def toUpper_def)

text \<open>When a global plugin is skipped. With the skip lists of the configured routes \<open>cfgs\<close>, the
  wrapped plugin named \<open>name\<close> is bypassed for a request exactly when some configured route lists
  that name, in any spelling, or \<open>*\<close>, has the request's method, and has a path pattern that matches
  the request's path; on every other request the plugin itself runs.\<close>

theorem skip_exactly_when_configured:
  assumes "normName name = name" and "name \<noteq> []" and "name \<noteq> ''*''"
  shows "wrapGlobalPlugin m (fold registerPluginSkip cfgs []) name h k c =
    (if \<exists>cfg \<in> set cfgs. (\<exists>s \<in> set (rt_SkipGlobalPlugins cfg). normName s = ''*'' \<or> normName s = name) \<and>
          (trimSpace (rt_Method cfg) = [] \<or> toUpper (trimSpace (rt_Method cfg)) = fc_Method c) \<and>
          m (fc_Path c) (rt_Path cfg)
     then k c else h k c)"
proof -
  have "skipsGlobalPlugin m (fold registerPluginSkip cfgs []) name c \<longleftrightarrow>
      (\<exists>cfg \<in> set cfgs. (\<exists>s \<in> set (rt_SkipGlobalPlugins cfg). normName s = ''*'' \<or> normName s = name) \<and>
          (trimSpace (rt_Method cfg) = [] \<or> toUpper (trimSpace (rt_Method cfg)) = fc_Method c) \<and>
          m (fc_Path c) (rt_Path cfg))"
    unfolding skips_fold skip_of_applies [OF assms(2,3)] by (simp add: skipsGlobalPlugin_def)
  with assms(2) show ?thesis by (simp add: wrapGlobalPlugin_def)
qed

definition public_route :: GatewayRouteConfig where
  "public_route = demo_route\<lparr>rt_Method := ''GET'', rt_Path := ''/users/:id'', rt_SkipGlobalPlugins := ['' JWT '']\<rparr>"

lemma public_route_sel [simp]:
  "rt_Method public_route = ''GET''" "rt_Path public_route = ''/users/:id''"
  "rt_SkipGlobalPlugins public_route = ['' JWT '']"
  by (simp_all add: public_route_def)

theorem skip_exactly_when_configured_witness:
  "wrapGlobalPlugin (ge_matches demo_gw_env) (fold registerPluginSkip [public_route] []) ''jwt''
     (jwt_handler demo_lib demo_jwt) bump (demo_fctx\<lparr>fc_Path := ''/users/:id''\<rparr>) =
   bump (demo_fctx\<lparr>fc_Path := ''/users/:id''\<rparr>)"
proof -
  have n: "normName ''jwt'' = ''jwt''" "normName '' JWT '' = ''jwt''" "toUpper (trimSpace ''GET'') = ''GET''" by code_simp+
  show ?thesis
    using skip_exactly_when_configured [of "''jwt''" "ge_matches demo_gw_env" "[public_route]" "jwt_handler demo_lib demo_jwt" bump
        "demo_fctx\<lparr>fc_Path := ''/users/:id''\<rparr>"] n
    by (simp add: demo_gw_env_def demo_fctx_def)
qed

text \<open>A public route opens a protected one. The skip list of a route applies to every request its
  pattern matches, also when the request is served by another, more specific route that does not
  skip anything: if the pattern of the public route matches the path, an unauthenticated request
  for the protected route gets past the global JWT plugin to the rest of the chain.\<close>

theorem skip_leaks_to_other_route:
  assumes "public \<in> set cfgs" and "\<exists>s \<in> set (rt_SkipGlobalPlugins public). normName s = ''jwt''"
    and "rt_SkipGlobalPlugins protected = []" and "protected \<in> set cfgs"
    and "toUpper (trimSpace (rt_Method public)) = fc_Method c"
    and "fc_Path c = rt_Path protected" and "m (rt_Path protected) (rt_Path public)"
  shows "wrapGlobalPlugin m (fold registerPluginSkip cfgs []) ''jwt'' (jwt_handler lib opt) k c = k c"
proof -
  have "skipsGlobalPlugin m [skip_of public] ''jwt'' c" and "rt_SkipGlobalPlugins public \<noteq> []"
    using assms(2,5-7) by (force simp: skipsGlobalPlugin_def)+
  with assms(1) have "skipsGlobalPlugin m (fold registerPluginSkip cfgs []) ''jwt'' c"
    unfolding skips_fold by blast
  then show ?thesis by (simp add: wrapGlobalPlugin_def)
qed

theorem skip_leaks_to_other_route_witness:
  "wrapGlobalPlugin (ge_matches demo_gw_env)
     (fold registerPluginSkip [public_route, demo_route\<lparr>rt_Method := ''GET'', rt_Path := ''/users/me''\<rparr>] []) ''jwt''
     (jwt_handler demo_lib demo_jwt) bump (demo_fctx\<lparr>fc_Path := ''/users/me'', fc_Header := (\<lambda>_. [])\<rparr>) =
   bump (demo_fctx\<lparr>fc_Path := ''/users/me'', fc_Header := (\<lambda>_. [])\<rparr>)"
proof -
  have n: "normName '' JWT '' = ''jwt''" "toUpper (trimSpace ''GET'') = ''GET''" by code_simp+
  show ?thesis
    by (rule skip_leaks_to_other_route [where public = public_route
          and protected = "demo_route\<lparr>rt_Method := ''GET'', rt_Path := ''/users/me''\<rparr>"])
      (simp_all add: n demo_gw_env_def demo_fctx_def demo_route_def)
qed

section \<open>Shutdown\<close>

lemma closeConns_world: "fst (closeConns lib cs err v) = fold (\<lambda>c v. fst (gl_Close lib c v)) cs v"
  by (induction cs arbitrary: err v) (auto split: prod.splits)

lemma closeConns_keeps: "snd (closeConns lib cs (Some e) v) = Some e"
  by (induction cs arbitrary: v) (auto split: prod.splits)

text \<open>Shutdown. \<open>Stop\<close> closes every pooled connection of every configured route, each once and in
  order, even when the server's shutdown or an earlier close failed; the error of the shutdown
  takes precedence.\<close>

theorem stop_closes_every_pool:
  "fst (gateway_Stop lib shutdown g v) =
     fold (\<lambda>c v. fst (gl_Close lib c v)) (concat (map pr_conns (g_routes g))) (fst (shutdown v)) \<and>
   (\<forall>e. snd (shutdown v) = Some e \<longrightarrow> snd (gateway_Stop lib shutdown g v) = Some e)"
  by (auto simp: gateway_Stop_def closeConns_world closeConns_keeps split: prod.splits)

theorem stop_closes_every_pool_witness:
  "snd (gateway_Stop (ge_lib demo_gw_env) (\<lambda>v. (v, Some ErrCacheMiss)) (gateway_New :: (nat, nat, nat) Gateway) 0) = Some ErrCacheMiss"
  using stop_closes_every_pool [of "ge_lib demo_gw_env" "\<lambda>v. (v, Some ErrCacheMiss)" "gateway_New :: (nat, nat, nat) Gateway" 0]
  by simp

section \<open>Answers\<close>

lemma appError_of_AppError: "is_AppError (appError_of E err)"
  by (cases err) (auto simp: appError_of_def FromGRPCError_def New_def split: option.splits prod.splits)

end
