(* ===== verification/SF_Stream.thy ===== *)
theory SF_Stream
  imports SF_Gateway
begin

text \<open>
  \<open>transport/gateway/proxy_stream.go\<close>: WebSocket and server-sent-event bridges to gRPC streams.

  \<open>proxyBidi\<close> runs two goroutines; it is a step relation whose state holds the position of each, the
  channel that carries the encoding, the flags both sides can see (context cancelled, socket
  closed), the frames and messages so far and the first error the errgroup has recorded. The
  environment is explicit: frames and messages that have arrived and are not read yet, a client that
  has gone and a stream that is over. \<open>ReadMessage\<close> and \<open>RecvMsg\<close> block: a read returns a frame that has
  arrived, and an error only if the socket was closed by the other pump or the client has gone and
  nothing is left to read; a receive returns a message that has arrived, and an error only if the
  context is cancelled or the stream is over and nothing is left. What is buffered may still be
  delivered after a close or a cancellation. \<open>SendMsg\<close> and \<open>WriteMessage\<close> return, with any result;
  a \<open>SendMsg\<close> that fails aborts the stream, as its documentation says.
\<close>

section \<open>Frames\<close>

definition TextMessage :: int where "TextMessage = 1"
definition BinaryMessage :: int where "BinaryMessage = 2"

text \<open>The four codec functions of the protobuf library, for one message type \<open>'m\<close>.\<close>

record 'm wire =
  wi_protoUnmarshal :: "byte list \<Rightarrow> 'm result"
  wi_jsonUnmarshal :: "byte list \<Rightarrow> 'm result"
  wi_protoMarshal :: "'m \<Rightarrow> byte list result"
  wi_jsonMarshal :: "'m \<Rightarrow> byte list result"

definition unmarshalWSFrame :: "'m wire \<Rightarrow> bool \<Rightarrow> byte list \<Rightarrow> 'm result" where
  "unmarshalWSFrame wi binary data = (if binary then wi_protoUnmarshal wi data else wi_jsonUnmarshal wi data)"

definition marshalWSFrame :: "'m wire \<Rightarrow> bool \<Rightarrow> 'm \<Rightarrow> (int \<times> byte list) result" where
  "marshalWSFrame wi binary msg =
     (if binary then (case wi_protoMarshal wi msg of Inl e \<Rightarrow> Inl e | Inr d \<Rightarrow> Inr (BinaryMessage, d))
      else (case wi_jsonMarshal wi msg of Inl e \<Rightarrow> Inl e | Inr d \<Rightarrow> Inr (TextMessage, d)))"

definition EOF :: go_error where "EOF = Sentinel ''EOF''"

text \<open>\<open>websocket.IsCloseError\<close> looks at the error itself, \<open>errors.Is\<close> also at what it wraps.\<close>

definition isNormalStreamClose :: "go_error \<Rightarrow> bool" where
  "isNormalStreamClose err =
     (errors_Is err ''EOF'' \<or> (case err of CloseError code _ \<Rightarrow> code \<in> {1000, 1001, 1005} | _ \<Rightarrow> False))"

section \<open>The two pumps\<close>

datatype client_pc = CRead | CReturn go_error | CEnd
datatype server_pc = SWait | SRecv | SClose "go_error option" | SReturn "go_error option" | SEnd

record 'm bidi =
  bd_cl :: client_pc
  bd_sv :: server_pc
  bd_binary :: bool
  bd_enc :: "bool option"
  bd_svbin :: bool
  bd_ctx :: bool
  bd_closed :: bool
  bd_gone :: bool
  bd_over :: bool
  bd_inbox :: "(int \<times> byte list) list"
  bd_msgs :: "'m list"
  bd_read :: "(int \<times> byte list) list"
  bd_sent :: "'m list"
  bd_recv :: "'m list"
  bd_out :: "(int \<times> byte list) list"
  bd_err :: "go_error option"

definition bidi_init :: "'m bidi" where
  "bidi_init = \<lparr>bd_cl = CRead, bd_sv = SWait, bd_binary = False, bd_enc = None, bd_svbin = False, bd_ctx = False,
     bd_closed = False, bd_gone = False, bd_over = False, bd_inbox = [], bd_msgs = [], bd_read = [], bd_sent = [], bd_recv = [], bd_out = [], bd_err = None\<rparr>"

definition badFrame :: "errors_pkg \<Rightarrow> go_error \<Rightarrow> go_error" where
  "badFrame E e = WithCause (New E CodeInvalidArgument ''stream frame does not match grpc input'') e"

text \<open>
  The client pump after \<open>ReadMessage\<close> returned a frame: the first frame fixes the encoding. \<open>snd_err\<close>
  is what \<open>SendMsg\<close> returns if it is called. A frame is the first one if none was read before.
\<close>

definition client_frame :: "errors_pkg \<Rightarrow> 'm wire \<Rightarrow> int \<times> byte list \<Rightarrow> go_error option \<Rightarrow> 'm bidi \<Rightarrow> 'm bidi" where
  "client_frame E wi f snd_err s =
     (let first = (bd_read s = []);
          binary = (if first then fst f = BinaryMessage else bd_binary s);
          s1 = s\<lparr>bd_read := bd_read s @ [f], bd_binary := binary,
                 bd_enc := (if first then Some binary else bd_enc s)\<rparr>
      in case unmarshalWSFrame wi binary (snd f) of
           Inl e \<Rightarrow> s1\<lparr>bd_ctx := True, bd_cl := CReturn (badFrame E e)\<rparr>
         | Inr m \<Rightarrow>
             (case snd_err of
                Some e \<Rightarrow> s1\<lparr>bd_over := True, bd_cl := CReturn e\<rparr>
              | None \<Rightarrow> s1\<lparr>bd_sent := bd_sent s1 @ [m]\<rparr>))"

text \<open>The server pump after \<open>RecvMsg\<close> returned a message; \<open>wr_err\<close> is what \<open>WriteMessage\<close> returns.\<close>

definition server_msg :: "'m wire \<Rightarrow> 'm \<Rightarrow> go_error option \<Rightarrow> 'm bidi \<Rightarrow> 'm bidi" where
  "server_msg wi m wr_err s =
     (let s1 = s\<lparr>bd_recv := bd_recv s @ [m]\<rparr>
      in case marshalWSFrame wi (bd_svbin s) m of
           Inl e \<Rightarrow> s1\<lparr>bd_sv := SClose (Some e)\<rparr>
         | Inr f \<Rightarrow>
             (case wr_err of
                Some e \<Rightarrow> s1\<lparr>bd_sv := SClose (Some e)\<rparr>
              | None \<Rightarrow> s1\<lparr>bd_out := bd_out s1 @ [f]\<rparr>))"

text \<open>\<open>errgroup.Group\<close> keeps the first error that is not nil.\<close>

definition record_err :: "go_error option \<Rightarrow> 'm bidi \<Rightarrow> 'm bidi" where
  "record_err e s = s\<lparr>bd_err := (if bd_err s = None then e else bd_err s)\<rparr>"

text \<open>
  The steps of the two goroutines. Closing the socket, which the server pump defers, is what lets
  \<open>ReadMessage\<close> fail; cancelling the context is what lets \<open>RecvMsg\<close> fail and the wait for the encoding end.
\<close>

inductive bidi_pump :: "errors_pkg \<Rightarrow> 'm wire \<Rightarrow> 'm bidi \<Rightarrow> 'm bidi \<Rightarrow> bool" for E wi where
  read_frame: "bd_cl s = CRead \<Longrightarrow> bd_inbox s = f # fs \<Longrightarrow>
    bidi_pump E wi s (client_frame E wi f snd_err (s\<lparr>bd_inbox := fs\<rparr>))"
| read_error: "bd_cl s = CRead \<Longrightarrow> bd_closed s \<or> bd_gone s \<and> bd_inbox s = [] \<Longrightarrow>
    bidi_pump E wi s (s\<lparr>bd_ctx := True, bd_cl := CReturn e\<rparr>)"
| client_returns: "bd_cl s = CReturn e \<Longrightarrow> bidi_pump E wi s (record_err (Some e) (s\<lparr>bd_cl := CEnd\<rparr>))"
| get_encoding: "bd_sv s = SWait \<Longrightarrow> bd_enc s = Some b \<Longrightarrow>
    bidi_pump E wi s (s\<lparr>bd_enc := None, bd_svbin := b, bd_sv := SRecv\<rparr>)"
| cancelled: "bd_sv s = SWait \<Longrightarrow> bd_ctx s \<Longrightarrow> bidi_pump E wi s (s\<lparr>bd_sv := SClose None\<rparr>)"
| recv_message: "bd_sv s = SRecv \<Longrightarrow> bd_msgs s = m # ms \<Longrightarrow>
    bidi_pump E wi s (server_msg wi m wr_err (s\<lparr>bd_msgs := ms\<rparr>))"
| recv_error: "bd_sv s = SRecv \<Longrightarrow> bd_ctx s \<or> bd_over s \<and> bd_msgs s = [] \<Longrightarrow>
    bidi_pump E wi s (s\<lparr>bd_sv := SClose (Some e)\<rparr>)"
| deferred_close: "bd_sv s = SClose r \<Longrightarrow> bidi_pump E wi s (s\<lparr>bd_closed := True, bd_sv := SReturn r\<rparr>)"
| server_returns: "bd_sv s = SReturn r \<Longrightarrow> bidi_pump E wi s (record_err r (s\<lparr>bd_sv := SEnd\<rparr>))"

text \<open>What the client and the backend do on their own, and the bridge with both.\<close>

inductive bidi_env :: "'m bidi \<Rightarrow> 'm bidi \<Rightarrow> bool" where
  frame_arrives: "bidi_env s (s\<lparr>bd_inbox := bd_inbox s @ [f]\<rparr>)"
| client_leaves: "bidi_env s (s\<lparr>bd_gone := True\<rparr>)"
| message_arrives: "bidi_env s (s\<lparr>bd_msgs := bd_msgs s @ [m]\<rparr>)"
| stream_ends: "bidi_env s (s\<lparr>bd_over := True\<rparr>)"

inductive bidi_step :: "errors_pkg \<Rightarrow> 'm wire \<Rightarrow> 'm bidi \<Rightarrow> 'm bidi \<Rightarrow> bool" for E wi where
  by_pump: "bidi_pump E wi s t \<Longrightarrow> bidi_step E wi s t"
| by_env: "bidi_env s t \<Longrightarrow> bidi_step E wi s t"

inductive_cases bidi_pumpE: "bidi_pump E wi s t"
inductive_cases bidi_envE: "bidi_env s t"

definition bidi_done :: "'m bidi \<Rightarrow> bool" where
  "bidi_done s \<longleftrightarrow> bd_cl s = CEnd \<and> bd_sv s = SEnd"

definition proxyBidi_result :: "'m bidi \<Rightarrow> go_error option" where
  "proxyBidi_result s =
     (case bd_err s of None \<Rightarrow> None | Some e \<Rightarrow> if isNormalStreamClose e then None else Some e)"

section \<open>Opening a bidirectional stream\<close>

text \<open>
  \<open>InvokeStream\<close>: \<open>newStream\<close> is \<open>conn.NewStream\<close> and \<open>bridge\<close> the run of \<open>proxyBidi\<close> on the stream; both
  act on the shared state. The release is deferred, so it also runs after a panic.
\<close>

definition streamCall ::
  "'w call_env \<Rightarrow> ('w, 'c) route \<Rightarrow> (ctx \<Rightarrow> conn \<Rightarrow> 'w px \<Rightarrow> 'w px \<times> 's result) \<Rightarrow>
   ('s \<Rightarrow> 'w px \<Rightarrow> 'w px \<times> go_error option outcome) \<Rightarrow> conn \<Rightarrow> 'w px \<Rightarrow> 'w px \<times> go_error option outcome" where
  "streamCall ce r newStream bridge c s =
     (case outgoing (ce_num ce) (ce_err ce) (pr_claims r) (ce_ctx ce) (ce_locals ce) of
        (_, Some e) \<Rightarrow> (s, Ret (Some e))
      | (cx, None) \<Rightarrow>
          (case newStream cx c s of
             (s1, Inl e) \<Rightarrow> (s1, Ret (Some (WithCause (New (ce_err ce) CodeUnavailable ''grpc stream unavailable'') e)))
           | (s1, Inr st) \<Rightarrow> bridge st s1))"

definition InvokeStream ::
  "'w call_env \<Rightarrow> ('w, 'c) route \<Rightarrow> (ctx \<Rightarrow> conn \<Rightarrow> 'w px \<Rightarrow> 'w px \<times> 's result) \<Rightarrow>
   ('s \<Rightarrow> 'w px \<Rightarrow> 'w px \<times> go_error option outcome) \<Rightarrow> nat \<Rightarrow> 'w px \<Rightarrow> 'w px \<times> go_error option outcome" where
  "InvokeStream ce r newStream bridge draw s =
     (case pickConn r draw (px_balancer s) of
        Panic m \<Rightarrow> (s, Panic m)
      | Ret (bal, cn, rel) \<Rightarrow>
          (let s1 = s\<lparr>px_balancer := bal\<rparr>;
               (s2, res) =
                 (case cn of
                    Some c \<Rightarrow> streamCall ce r newStream bridge c s1
                  | None \<Rightarrow>
                      (case dial (ce_lib ce) (pr_cfg r) s1 of
                         (s', Inl e) \<Rightarrow>
                           (s', Ret (Some (WithCause (New (ce_err ce) CodeUnavailable ''grpc target unavailable'') e)))
                       | (s', Inr c) \<Rightarrow> streamCall ce r newStream bridge c s'))
           in (s2\<lparr>px_balancer := release rel (px_balancer s2)\<rparr>, res)))"

section \<open>Server-sent events\<close>

datatype 's sse = SSEFail go_error | SSEOpen 's releaser

text \<open>
  \<open>InvokeServerStream\<close> up to the start of the body writer. \<open>bind\<close> is the result of
  \<open>bindProtoRequest\<close>, \<open>sendMsg\<close> the one request sent. Every error path releases the connection
  slot itself; the body writer does it otherwise, and a panic on the way leaves it taken.
\<close>

definition sseCall ::
  "'w call_env \<Rightarrow> ('w, 'c) route \<Rightarrow> 'm result outcome \<Rightarrow> (ctx \<Rightarrow> conn \<Rightarrow> 'w px \<Rightarrow> 'w px \<times> 's result) \<Rightarrow>
   ('s \<Rightarrow> 'm \<Rightarrow> 'w px \<Rightarrow> 'w px \<times> go_error option) \<Rightarrow> releaser \<Rightarrow> conn \<Rightarrow> 'w px \<Rightarrow> 'w px \<times> 's sse outcome" where
  "sseCall ce r bind newStream sendMsg rel c s =
     (let E = ce_err ce; fail = (\<lambda>s e. (s\<lparr>px_balancer := release rel (px_balancer s)\<rparr>, Ret (SSEFail e)))
      in case bind of
           Panic m \<Rightarrow> (s, Panic m)
         | Ret (Inl e) \<Rightarrow> fail s e
         | Ret (Inr req) \<Rightarrow>
             (case outgoing (ce_num ce) E (pr_claims r) Background (ce_locals ce) of
                (_, Some e) \<Rightarrow> fail s e
              | (cx, None) \<Rightarrow>
                  (case newStream cx c s of
                     (s1, Inl e) \<Rightarrow> fail s1 (WithCause (New E CodeUnavailable ''grpc stream unavailable'') e)
                   | (s1, Inr st) \<Rightarrow>
                       (case sendMsg st req s1 of
                          (s2, Some e) \<Rightarrow> fail s2 (the (FromGRPCError E (Some e)))
                        | (s2, None) \<Rightarrow> (s2, Ret (SSEOpen st rel))))))"

definition InvokeServerStream ::
  "'w call_env \<Rightarrow> ('w, 'c) route \<Rightarrow> 'm result outcome \<Rightarrow> (ctx \<Rightarrow> conn \<Rightarrow> 'w px \<Rightarrow> 'w px \<times> 's result) \<Rightarrow>
   ('s \<Rightarrow> 'm \<Rightarrow> 'w px \<Rightarrow> 'w px \<times> go_error option) \<Rightarrow> nat \<Rightarrow> 'w px \<Rightarrow> 'w px \<times> 's sse outcome" where
  "InvokeServerStream ce r bind newStream sendMsg draw s =
     (case pickConn r draw (px_balancer s) of
        Panic m \<Rightarrow> (s, Panic m)
      | Ret (bal, cn, rel) \<Rightarrow>
          (let s1 = s\<lparr>px_balancer := bal\<rparr>
           in case cn of
                Some c \<Rightarrow> sseCall ce r bind newStream sendMsg rel c s1
              | None \<Rightarrow>
                  (case dial (ce_lib ce) (pr_cfg r) s1 of
                     (s', Inl e) \<Rightarrow>
                       (s'\<lparr>px_balancer := release rel (px_balancer s')\<rparr>,
                        Ret (SSEFail (WithCause (New (ce_err ce) CodeUnavailable ''grpc target unavailable'') e)))
                   | (s', Inr c) \<Rightarrow> sseCall ce r bind newStream sendMsg rel c s')))"

text \<open>
  The body writer: each round receives a message, encodes it and writes one event. A round is what
  the stream, the encoder and the connection did: the encoded message or an error, then whether
  the write and the flush succeeded. The writer stops at the first failure and always releases.
\<close>

fun ssePump :: "(string result \<times> bool \<times> bool) list \<Rightarrow> string" where
  "ssePump [] = []"
| "ssePump ((Inl e, _, _) # rounds) = []"
| "ssePump ((Inr data, written, flushed) # rounds) =
     (if \<not> written then []
      else ''data: '' @ data @ [CHR 0x0A, CHR 0x0A] @ (if flushed then ssePump rounds else []))"

definition sseFinish :: "'s sse outcome \<Rightarrow> 'w px \<Rightarrow> 'w px" where
  "sseFinish res s =
     (case res of Ret (SSEOpen st rel) \<Rightarrow> s\<lparr>px_balancer := release rel (px_balancer s)\<rparr> | _ \<Rightarrow> s)"

definition setSSEHeaders :: "(string, string) gomap \<Rightarrow> (string, string) gomap" where
  "setSSEHeaders h =
     fold (\<lambda>(k, v). AList.update k v)
       [(''Content-Type'', ''text/event-stream''), (''Cache-Control'', ''no-cache''), (''Connection'', ''keep-alive''),
        (''X-Accel-Buffering'', ''no'')] h"

section \<open>The bridge: invariants\<close>

definition bidi_ok :: "'m wire \<Rightarrow> 'm bidi \<Rightarrow> bool" where
  "bidi_ok wi s \<longleftrightarrow>
     (bd_read s \<noteq> [] \<longrightarrow> bd_binary s = (fst (hd (bd_read s)) = BinaryMessage)) \<and>
     (\<forall>b. bd_enc s = Some b \<longrightarrow> bd_read s \<noteq> [] \<and> b = bd_binary s) \<and>
     (bd_sv s = SRecv \<or> bd_recv s \<noteq> [] \<longrightarrow> bd_read s \<noteq> [] \<and> bd_svbin s = bd_binary s) \<and>
     map Inr (bd_sent s) = map (unmarshalWSFrame wi (bd_binary s) \<circ> snd) (take (length (bd_sent s)) (bd_read s)) \<and>
     length (bd_read s) \<le> length (bd_sent s) + (if bd_cl s = CRead then 0 else 1) \<and>
     map Inr (bd_out s) = map (marshalWSFrame wi (bd_svbin s)) (take (length (bd_out s)) (bd_recv s)) \<and>
     length (bd_recv s) \<le> length (bd_out s) + (if bd_sv s = SRecv then 0 else 1) \<and>
     (bd_ctx s \<longrightarrow> bd_cl s \<noteq> CRead) \<and>
     (bd_sv s \<noteq> SRecv \<and> bd_sv s \<noteq> SWait \<and> (\<forall>r. bd_sv s \<noteq> SClose r) \<longleftrightarrow> bd_closed s) \<and>
     (bd_sv s = SWait \<longrightarrow> bd_recv s = [] \<and> (bd_read s \<noteq> [] \<longrightarrow> bd_enc s \<noteq> None)) \<and>
     (bd_cl s \<noteq> CRead \<longrightarrow> bd_ctx s \<or> bd_over s \<and> bd_read s \<noteq> [])"

lemma bidi_ok_lengths:
  assumes "bidi_ok wi s"
  shows "length (bd_sent s) \<le> length (bd_read s)" and "length (bd_out s) \<le> length (bd_recv s)"
proof -
  have "length (map Inr (bd_sent s) :: 'a result list) = min (length (bd_sent s)) (length (bd_read s))"
    using assms unfolding bidi_ok_def by (metis (no_types, lifting) length_map length_take min.commute)
  then show "length (bd_sent s) \<le> length (bd_read s)" by simp
  have "length (map Inr (bd_out s) :: (int \<times> byte list) result list) = min (length (bd_out s)) (length (bd_recv s))"
    using assms unfolding bidi_ok_def by (metis (no_types, lifting) length_map length_take min.commute)
  then show "length (bd_out s) \<le> length (bd_recv s)" by simp
qed

lemma bidi_init_ok: "bidi_ok wi bidi_init"
  by (simp add: bidi_ok_def bidi_init_def)

lemma client_frame_ok:
  assumes ok: "bidi_ok wi s" and cl: "bd_cl s = CRead"
  shows "bidi_ok wi (client_frame E wi f snd_err s)"
proof -
  define b where "b = (if bd_read s = [] then fst f = BinaryMessage else bd_binary s)"
  have len: "length (bd_sent s) = length (bd_read s)"
    using ok cl bidi_ok_lengths(1) [OF ok] by (simp add: bidi_ok_def)
  have dec: "map Inr (bd_sent s) = map (unmarshalWSFrame wi b \<circ> snd) (bd_read s)"
    using ok len by (auto simp: bidi_ok_def b_def)
  have hd: "b = (fst (hd (bd_read s @ [f])) = BinaryMessage)"
    using ok by (cases "bd_read s") (auto simp: bidi_ok_def b_def)
  have sv: "bd_sv s = SRecv \<or> bd_recv s \<noteq> [] \<Longrightarrow> bd_svbin s = b"
    using ok by (auto simp: bidi_ok_def b_def)
  show ?thesis
  proof (cases "unmarshalWSFrame wi b (snd f)")
    case (Inl e)
    then show ?thesis
      using ok cl len dec hd sv
      by (auto simp: client_frame_def Let_def b_def [symmetric] bidi_ok_def split: if_splits)
  next
    case (Inr m)
    then have "map Inr (bd_sent s @ [m]) = map (unmarshalWSFrame wi b \<circ> snd) (bd_read s @ [f])"
      using dec by simp
    with Inr show ?thesis
      using ok cl len dec hd sv
      by (cases snd_err) (auto simp: client_frame_def Let_def b_def [symmetric] bidi_ok_def split: if_splits)
  qed
qed

lemma server_msg_ok:
  assumes ok: "bidi_ok wi s" and sv: "bd_sv s = SRecv"
  shows "bidi_ok wi (server_msg wi m wr_err s)"
proof -
  have len: "length (bd_out s) = length (bd_recv s)"
    using ok sv bidi_ok_lengths(2) [OF ok] by (simp add: bidi_ok_def)
  then have enc: "map Inr (bd_out s) = map (marshalWSFrame wi (bd_svbin s)) (bd_recv s)"
    using ok by (simp add: bidi_ok_def)
  show ?thesis
    using ok sv len enc
    by (cases "marshalWSFrame wi (bd_svbin s) m"; cases wr_err) (simp_all add: server_msg_def Let_def bidi_ok_def)
qed

lemma bidi_ok_env [simp]:
  "bidi_ok wi (s\<lparr>bd_inbox := fs\<rparr>) = bidi_ok wi s" "bidi_ok wi (s\<lparr>bd_msgs := ms\<rparr>) = bidi_ok wi s"
  "bidi_ok wi (s\<lparr>bd_gone := g\<rparr>) = bidi_ok wi s"
  by (simp_all add: bidi_ok_def)

lemma bidi_ok_over: "bidi_ok wi s \<Longrightarrow> bidi_ok wi (s\<lparr>bd_over := True\<rparr>)"
  unfolding bidi_ok_def by simp blast

lemma bidi_pump_ok: "bidi_pump E wi s t \<Longrightarrow> bidi_ok wi s \<Longrightarrow> bidi_ok wi t"
proof (induction rule: bidi_pump.induct)
  case (read_frame s f fs snd_err)
  then show ?case by (intro client_frame_ok) simp_all
next
  case (recv_message s m ms wr_err)
  then show ?case by (intro server_msg_ok) simp_all
next
  case (client_returns s e)
  then show ?case by (auto simp: bidi_ok_def record_err_def)
next
  case (server_returns s r)
  then show ?case by (auto simp: bidi_ok_def record_err_def)
qed (auto simp: bidi_ok_def)

lemma bidi_env_ok: "bidi_env s t \<Longrightarrow> bidi_ok wi s \<Longrightarrow> bidi_ok wi t"
  by (erule bidi_envE) (simp_all add: bidi_ok_over)

lemma bidi_step_ok: "bidi_step E wi s t \<Longrightarrow> bidi_ok wi s \<Longrightarrow> bidi_ok wi t"
  by (auto elim!: bidi_step.cases intro: bidi_pump_ok bidi_env_ok)

interpretation bidm: machine "\<lambda>s. s = bidi_init" "bidi_step E wi" "bidi_ok wi" for E wi
  by unfold_locales (auto simp: bidi_init_ok intro: bidi_step_ok)

text \<open>C5: the bridge relays faithfully. In every state a bridge can reach, whatever the interleaving
  of its two directions: the messages sent to the backend are the decodings of the client's frames
  in order, at most the last frame missing; the frames written to the client are the encodings of
  the backend's messages in order, at most the last message missing; nothing is written before the
  client's first frame; and every frame written has the type of that first frame.\<close>

theorem bidi_relays:
  assumes "(bidi_step E wi)\<^sup>*\<^sup>* bidi_init s"
  shows "let b = (fst (hd (bd_read s)) = BinaryMessage) in
     map Inr (bd_sent s) = map (unmarshalWSFrame wi (bd_binary s) \<circ> snd) (take (length (bd_sent s)) (bd_read s)) \<and>
     length (bd_read s) \<le> length (bd_sent s) + 1 \<and>
     map Inr (bd_out s) = map (marshalWSFrame wi b) (take (length (bd_out s)) (bd_recv s)) \<and>
     length (bd_recv s) \<le> length (bd_out s) + 1 \<and>
     (bd_out s \<noteq> [] \<longrightarrow> bd_read s \<noteq> [] \<and> bd_binary s = b) \<and>
     (\<forall>f \<in> set (bd_out s). fst f = (if b then BinaryMessage else TextMessage))"
proof -
  have ok: "bidi_ok wi s" using bidm.inv_reachable [OF refl assms] .
  let ?b = "fst (hd (bd_read s)) = BinaryMessage"
  have len: "length (bd_out s) \<le> length (bd_recv s)" by (rule bidi_ok_lengths [OF ok])
  have b: "bd_recv s \<noteq> [] \<Longrightarrow> bd_read s \<noteq> [] \<and> bd_svbin s = ?b \<and> bd_binary s = ?b"
    using ok by (auto simp: bidi_ok_def)
  have enc: "map Inr (bd_out s) = map (marshalWSFrame wi ?b) (take (length (bd_out s)) (bd_recv s))"
    using ok b by (cases "bd_recv s") (auto simp: bidi_ok_def)
  have "fst f = (if ?b then BinaryMessage else TextMessage)" if "f \<in> set (bd_out s)" for f
  proof -
    have "Inr f \<in> set (map (marshalWSFrame wi ?b) (take (length (bd_out s)) (bd_recv s)))"
      using that by (simp add: enc [symmetric])
    then show ?thesis by (auto simp: marshalWSFrame_def split: sum.splits if_splits)
  qed
  moreover have "bd_out s \<noteq> [] \<longrightarrow> bd_read s \<noteq> [] \<and> bd_binary s = ?b"
  proof
    assume "bd_out s \<noteq> []"
    with len have "bd_recv s \<noteq> []" by auto
    with b show "bd_read s \<noteq> [] \<and> bd_binary s = ?b" by blast
  qed
  moreover have "length (bd_read s) \<le> length (bd_sent s) + 1" and "length (bd_recv s) \<le> length (bd_out s) + 1"
    using ok by (auto simp: bidi_ok_def split: if_splits)
  ultimately show ?thesis using ok enc unfolding Let_def bidi_ok_def by blast
qed

section \<open>The bridge: shutdown\<close>

fun client_left :: "client_pc \<Rightarrow> nat" where
  "client_left CRead = 2" | "client_left (CReturn e) = 1" | "client_left CEnd = 0"

fun server_left :: "server_pc \<Rightarrow> nat" where
  "server_left SWait = 4" | "server_left SRecv = 3" | "server_left (SClose r) = 2" | "server_left (SReturn r) = 1"
| "server_left SEnd = 0"

definition bidi_left :: "'m bidi \<Rightarrow> nat" where
  "bidi_left s = client_left (bd_cl s) + server_left (bd_sv s)"

text \<open>What the pumps can still do on their own: the frames and messages to drain, then their ends.\<close>

definition bidi_work :: "'m bidi \<Rightarrow> nat" where
  "bidi_work s = length (bd_inbox s) + length (bd_msgs s) + bidi_left s"

definition ending :: "'m bidi \<Rightarrow> bool" where
  "ending s \<longleftrightarrow> bd_gone s \<or> bd_ctx s \<or> bd_closed s \<or> bd_over s \<and> bd_read s \<noteq> []"

lemma client_frame_work:
  "bidi_work (client_frame E wi f e s) \<le> bidi_work s" if "bd_cl s = CRead"
  using that by (auto simp: client_frame_def bidi_work_def bidi_left_def Let_def split: sum.splits option.splits)

lemma server_msg_work:
  "bidi_work (server_msg wi m e s) \<le> bidi_work s" if "bd_sv s = SRecv"
  using that by (auto simp: server_msg_def bidi_work_def bidi_left_def Let_def split: sum.splits option.splits)

lemma bidi_pump_work:
  assumes "bidi_pump E wi s t"
  shows "bidi_work t < bidi_work s"
  using assms
proof (cases rule: bidi_pump.cases)
  case (read_frame f fs snd_err)
  then show ?thesis using client_frame_work [of "s\<lparr>bd_inbox := fs\<rparr>" E wi f snd_err] by (simp add: bidi_work_def bidi_left_def)
next
  case (recv_message m ms wr_err)
  then show ?thesis using server_msg_work [of "s\<lparr>bd_msgs := ms\<rparr>" wi m wr_err] by (simp add: bidi_work_def bidi_left_def)
qed (auto simp: bidi_work_def bidi_left_def record_err_def)

lemma bidi_run_bounded: "(bidi_pump E wi ^^ n) s t \<Longrightarrow> n + bidi_work t \<le> bidi_work s"
proof (induction n arbitrary: t)
  case (Suc n)
  then obtain u where u: "(bidi_pump E wi ^^ n) s u" and step: "bidi_pump E wi u t" by auto
  from Suc.IH [OF u] bidi_pump_work [OF step] show ?case by linarith
qed simp

lemma ending_step: "bidi_pump E wi s t \<Longrightarrow> ending s \<Longrightarrow> ending t"
  by (erule bidi_pump.cases)
     (auto simp: ending_def record_err_def client_frame_def server_msg_def Let_def split: sum.splits option.splits)

lemma ending_run: "(bidi_pump E wi)\<^sup>*\<^sup>* s t \<Longrightarrow> ending s \<Longrightarrow> ending t"
  by (induction rule: rtranclp_induct) (auto intro: ending_step)

lemma pumps_reach: "(bidi_pump E wi)\<^sup>*\<^sup>* s t \<Longrightarrow> (bidi_step E wi)\<^sup>*\<^sup>* s t"
  by (induction rule: rtranclp_induct) (auto intro: by_pump rtranclp.rtrancl_into_rtrancl)

text \<open>The state of a bridge that can only wait: the client pump blocks in \<open>ReadMessage\<close> on an open socket
  with a live client, the server pump in \<open>RecvMsg\<close> on a live stream, or for the first frame.\<close>

definition bidi_idle :: "'m bidi \<Rightarrow> bool" where
  "bidi_idle s \<longleftrightarrow> bd_cl s = CRead \<and> bd_inbox s = [] \<and> \<not> bd_gone s \<and> \<not> bd_closed s \<and> \<not> bd_ctx s \<and>
     (bd_sv s = SWait \<and> bd_read s = [] \<or> bd_sv s = SRecv \<and> bd_msgs s = [] \<and> \<not> bd_over s)"

lemma client_blocked:
  assumes "\<nexists>t. bidi_pump E wi s t"
  shows "bd_cl s = CEnd \<or> bd_cl s = CRead \<and> bd_inbox s = [] \<and> \<not> bd_gone s \<and> \<not> bd_closed s"
proof (cases "bd_cl s")
  case CRead
  then show ?thesis
    using assms read_frame [of s _ _ E wi] read_error [of s E wi] by (cases "bd_inbox s") blast+
next
  case (CReturn e)
  then show ?thesis using assms client_returns by blast
qed simp

lemma server_blocked:
  assumes "\<nexists>t. bidi_pump E wi s t"
  shows "bd_sv s = SEnd \<or> \<not> bd_ctx s \<and> (bd_sv s = SWait \<and> bd_enc s = None \<or> bd_sv s = SRecv \<and> bd_msgs s = [] \<and> \<not> bd_over s)"
proof (cases "bd_sv s")
  case SWait
  then show ?thesis using assms get_encoding [of s _ E wi] cancelled [of s E wi] by (cases "bd_enc s") blast+
next
  case SRecv
  then show ?thesis using assms recv_message [of s _ _ E wi] recv_error [of s E wi] by (cases "bd_msgs s") blast+
next
  case (SClose r)
  then show ?thesis using assms deferred_close by blast
next
  case (SReturn r)
  then show ?thesis using assms server_returns by blast
qed simp

lemma bidi_ok_ends:
  assumes "bidi_ok wi s"
  shows "bd_sv s = SEnd \<longrightarrow> bd_closed s" and "bd_sv s = SWait \<longrightarrow> bd_read s \<noteq> [] \<longrightarrow> bd_enc s \<noteq> None"
    and "bd_cl s \<noteq> CRead \<longrightarrow> bd_ctx s \<or> bd_over s \<and> bd_read s \<noteq> []"
  using assms unfolding bidi_ok_def by (simp_all, force)

lemma bidi_blocked:
  assumes "bidi_ok wi s" and "\<nexists>t. bidi_pump E wi s t"
  shows "bidi_done s \<or> bidi_idle s"
  using client_blocked [OF assms(2)] server_blocked [OF assms(2)] bidi_ok_ends [OF assms(1)]
  unfolding bidi_done_def bidi_idle_def by (cases "bd_cl s") auto

lemma bidi_idle_blocked: "bidi_ok wi s \<Longrightarrow> bidi_idle s \<Longrightarrow> \<not> bidi_pump E wi s t"
  by (auto simp: bidi_idle_def bidi_ok_def elim!: bidi_pumpE)

text \<open>C6: a bridge that begins to close finishes. Take any reachable state in which the client has
  gone, the context is cancelled, the socket is closed, or the stream is over after a first frame.
  If nothing more arrives, the two goroutines take at most as many steps as there are frames and
  messages left to read, plus six; and when no further step is possible both have returned, so
  \<open>g.Wait\<close> returns. A read fails only on a closed socket or a client that has gone, a receive only
  on a cancelled context or a stream that is over, so this rests on the \<open>cancel\<close> of the one pump and
  the deferred \<open>Close\<close> of the other. Before any of these events the bridge can be blocked without
  having returned, as it is when it starts.\<close>

theorem bidi_closes:
  assumes "(bidi_step E wi)\<^sup>*\<^sup>* bidi_init s"
    and "bd_gone s \<or> bd_ctx s \<or> bd_closed s \<or> bd_over s \<and> bd_read s \<noteq> []"
  shows "(\<forall>n t. (bidi_pump E wi ^^ n) s t \<longrightarrow> n \<le> length (bd_inbox s) + length (bd_msgs s) + 6) \<and>
         (\<forall>t. (bidi_pump E wi)\<^sup>*\<^sup>* s t \<and> (\<nexists>u. bidi_pump E wi t u) \<longrightarrow> bidi_done t) \<and>
         (\<nexists>u. bidi_pump E wi bidi_init u) \<and> \<not> bidi_done (bidi_init :: 'm bidi)"
proof (intro conjI allI impI)
  have "bidi_left s \<le> 6"
    by (cases "bd_cl s"; cases "bd_sv s") (auto simp: bidi_left_def)
  then show "n \<le> length (bd_inbox s) + length (bd_msgs s) + 6" if "(bidi_pump E wi ^^ n) s t" for n t
    using bidi_run_bounded [OF that] by (simp add: bidi_work_def)
  show "bidi_done t" if "(bidi_pump E wi)\<^sup>*\<^sup>* s t \<and> (\<nexists>u. bidi_pump E wi t u)" for t
  proof -
    have "bidi_ok wi t" using bidm.inv_reachable [OF refl rtranclp_trans [OF assms(1) pumps_reach]] that by blast
    then have "bidi_done t \<or> bidi_idle t" using that bidi_blocked by blast
    moreover have "ending t" using that assms(2) ending_run unfolding ending_def by blast
    ultimately show ?thesis by (auto simp: ending_def bidi_idle_def)
  qed
  show "\<nexists>u. bidi_pump E wi bidi_init u"
    using bidi_idle_blocked [OF bidi_init_ok] by (auto simp: bidi_idle_def bidi_init_def)
qed (simp add: bidi_done_def bidi_init_def)

text \<open>A backend that ends the stream before the client has spoken is not noticed: the server pump
  waits for the encoding of the first frame, so the bridge stays open until the client moves.\<close>

theorem bidi_early_end_unnoticed:
  "\<exists>s. (bidi_step E wi)\<^sup>*\<^sup>* bidi_init s \<and> bd_over s \<and> (\<nexists>t. bidi_pump E wi s t) \<and> \<not> bidi_done s"
proof -
  let ?s = "bidi_init\<lparr>bd_over := True\<rparr> :: 'a bidi"
  have run: "(bidi_step E wi)\<^sup>*\<^sup>* bidi_init ?s" by (rule r_into_rtranclp, rule by_env, rule stream_ends)
  have "bidi_idle ?s" by (simp add: bidi_idle_def bidi_init_def)
  then have "\<nexists>t. bidi_pump E wi ?s t" using bidi_idle_blocked bidm.inv_reachable [OF refl run] by blast
  with run show ?thesis by (auto simp: bidi_done_def bidi_init_def)
qed

text \<open>A bridge after one text frame, and the run in which the client then closes normally.\<close>

definition after_hello :: "'m \<Rightarrow> byte list \<Rightarrow> 'm bidi" where
  "after_hello m d = bidi_init\<lparr>bd_read := [(TextMessage, d)], bd_sent := [m], bd_sv := SRecv\<rparr>"

lemma hello_run:
  assumes "wi_jsonUnmarshal wi d = Inr m"
  shows "(bidi_step E wi)\<^sup>*\<^sup>* bidi_init (after_hello m d)"
proof -
  let ?s0 = "bidi_init\<lparr>bd_inbox := [(TextMessage, d)]\<rparr>"
  let ?s1 = "client_frame E wi (TextMessage, d) None (?s0\<lparr>bd_inbox := []\<rparr>)"
  have s1: "?s1 = bidi_init\<lparr>bd_read := [(TextMessage, d)], bd_enc := Some False, bd_sent := [m]\<rparr>"
    using assms by (simp add: client_frame_def bidi_init_def unmarshalWSFrame_def TextMessage_def BinaryMessage_def)
  have "bidi_step E wi bidi_init ?s0"
    using frame_arrives [of bidi_init "(TextMessage, d)"] by (intro by_env) (simp add: bidi_init_def)
  moreover have "bidi_step E wi ?s0 ?s1" by (rule by_pump, rule read_frame) (simp_all add: bidi_init_def)
  moreover have "bidi_step E wi ?s1 (?s1\<lparr>bd_enc := None, bd_svbin := False, bd_sv := SRecv\<rparr>)"
    unfolding s1 by (rule by_pump, rule get_encoding) (simp_all add: bidi_init_def)
  moreover have "?s1\<lparr>bd_enc := None, bd_svbin := False, bd_sv := SRecv\<rparr> = after_hello m d"
    unfolding s1 by (simp add: after_hello_def bidi_init_def)
  ultimately have "bidi_step E wi ?s1 (after_hello m d)" by simp
  with \<open>bidi_step E wi ?s0 ?s1\<close> have "(bidi_step E wi)\<^sup>*\<^sup>* ?s0 (after_hello m d)"
    by (rule converse_rtranclp_into_rtranclp [OF _ r_into_rtranclp])
  with \<open>bidi_step E wi bidi_init ?s0\<close> show ?thesis by (rule converse_rtranclp_into_rtranclp)
qed

lemma goodbye_run:
  assumes "wi_jsonUnmarshal wi d = Inr m"
  shows "(bidi_step E wi)\<^sup>*\<^sup>* bidi_init (after_hello m d\<lparr>bd_gone := True, bd_ctx := True, bd_cl := CReturn e\<rparr>)"
proof -
  let ?g = "after_hello m d\<lparr>bd_gone := True\<rparr>"
  have "bidi_step E wi (after_hello m d) ?g" by (rule by_env, rule client_leaves)
  moreover have "bidi_step E wi ?g (?g\<lparr>bd_ctx := True, bd_cl := CReturn e\<rparr>)"
    by (rule by_pump, rule read_error) (simp_all add: after_hello_def bidi_init_def)
  ultimately show ?thesis
    using hello_run [OF assms] by (meson rtranclp.rtrancl_into_rtrancl)
qed

text \<open>A normal close can be reported as an error. When the client closes normally, its pump first
  cancels the context and then returns; the other pump can fail with the cancellation and be
  recorded first. So there is a run in which the client's read ends with a normal close, both
  pumps end, and \<open>proxyBidi\<close> returns the cancellation error instead of nil.\<close>

theorem bidi_normal_close_race:
  assumes "wi_jsonUnmarshal wi d = Inr m" and "\<not> isNormalStreamClose e"
  shows "isNormalStreamClose (CloseError 1000 txt) \<and>
    (\<exists>s t. (bidi_step E wi)\<^sup>*\<^sup>* bidi_init s \<and> bd_cl s = CReturn (CloseError 1000 txt) \<and> bd_ctx s \<and> bd_err s = None \<and>
       (bidi_step E wi)\<^sup>*\<^sup>* s t \<and> bidi_done t \<and> proxyBidi_result t = Some e)"
proof -
  let ?s = "after_hello m d\<lparr>bd_gone := True, bd_ctx := True, bd_cl := CReturn (CloseError 1000 txt)\<rparr>"
  let ?u1 = "?s\<lparr>bd_sv := SClose (Some e)\<rparr>"
  let ?u2 = "?u1\<lparr>bd_closed := True, bd_sv := SReturn (Some e)\<rparr>"
  let ?u3 = "record_err (Some e) (?u2\<lparr>bd_sv := SEnd\<rparr>)"
  let ?t = "record_err (Some (CloseError 1000 txt)) (?u3\<lparr>bd_cl := CEnd\<rparr>)"
  have "(bidi_step E wi)\<^sup>*\<^sup>* bidi_init ?s" by (rule goodbye_run [OF assms(1)])
  moreover have "(bidi_step E wi)\<^sup>*\<^sup>* ?s ?t"
  proof (rule pumps_reach)
    have "bidi_pump E wi ?s ?u1" by (rule recv_error) (simp_all add: after_hello_def)
    moreover have "bidi_pump E wi ?u1 ?u2" by (rule deferred_close) simp
    moreover have "bidi_pump E wi ?u2 ?u3" by (rule server_returns) simp
    moreover have "bidi_pump E wi ?u3 ?t" by (rule client_returns) (simp add: record_err_def)
    ultimately show "(bidi_pump E wi)\<^sup>*\<^sup>* ?s ?t" by (meson converse_rtranclp_into_rtranclp r_into_rtranclp)
  qed
  moreover have "bidi_done ?t" and "proxyBidi_result ?t = Some e"
    using assms(2) by (simp_all add: bidi_done_def record_err_def proxyBidi_result_def after_hello_def bidi_init_def)
  moreover have "bd_err ?s = None" by (simp add: after_hello_def bidi_init_def)
  ultimately show ?thesis by (auto simp: isNormalStreamClose_def)
qed

text \<open>A wire on which every codec call succeeds, for the witnesses.\<close>

definition demo_wire :: "byte list wire" where
  "demo_wire = \<lparr>wi_protoUnmarshal = Inr, wi_jsonUnmarshal = Inr, wi_protoMarshal = Inr, wi_jsonMarshal = Inr\<rparr>"

theorem bidi_relays_witness:
  "let s = after_hello [1] [1] :: byte list bidi
   in map Inr (bd_sent s) = map (unmarshalWSFrame demo_wire False \<circ> snd) (bd_read s) \<and> bd_out s = []"
  using bidi_relays [of E0 demo_wire "after_hello [1] [1]"]
    hello_run [of demo_wire "[1]" "[1]" E0]
  by (simp add: demo_wire_def after_hello_def bidi_init_def Let_def)

theorem bidi_closes_witness:
  "let s = (after_hello [1] [1] :: byte list bidi)\<lparr>bd_gone := True, bd_ctx := True, bd_cl := CReturn EOF\<rparr>
   in \<not> bidi_done s \<and> (\<forall>n t. (bidi_pump E0 demo_wire ^^ n) s t \<longrightarrow> n \<le> 6) \<and>
      (\<forall>t. (bidi_pump E0 demo_wire)\<^sup>*\<^sup>* s t \<and> (\<nexists>u. bidi_pump E0 demo_wire t u) \<longrightarrow> bidi_done t)"
proof -
  let ?s = "(after_hello [1] [1] :: byte list bidi)\<lparr>bd_gone := True, bd_ctx := True, bd_cl := CReturn EOF\<rparr>"
  have "(bidi_step E0 demo_wire)\<^sup>*\<^sup>* bidi_init ?s" by (rule goodbye_run) (simp add: demo_wire_def)
  from bidi_closes [OF this] show ?thesis by (simp add: bidi_done_def after_hello_def bidi_init_def)
qed

theorem bidi_normal_close_race_witness:
  "\<exists>t. (bidi_step E0 demo_wire)\<^sup>*\<^sup>* bidi_init t \<and> bidi_done t \<and> proxyBidi_result t = Some (StatusError GCanceled [] [])"
proof -
  have "wi_jsonUnmarshal demo_wire [1] = Inr [1]" by (simp add: demo_wire_def)
  moreover have "\<not> isNormalStreamClose (StatusError GCanceled [] [])" by (simp add: isNormalStreamClose_def)
  ultimately show ?thesis
    using bidi_normal_close_race [of demo_wire "[1]" "[1]" "StatusError GCanceled [] []" "[]" E0]
    by (meson rtranclp_trans)
qed

section \<open>Connection slots\<close>

text \<open>What the gRPC library and the bridge do does not touch the balancer of the route.\<close>

definition stream_keeps ::
  "(ctx \<Rightarrow> conn \<Rightarrow> 'w px \<Rightarrow> 'w px \<times> 's result) \<Rightarrow> ('s \<Rightarrow> 'a \<Rightarrow> 'w px \<Rightarrow> 'w px \<times> 'b) \<Rightarrow> bool" where
  "stream_keeps newStream act \<longleftrightarrow>
     (\<forall>cx c s. px_balancer (fst (newStream cx c s)) = px_balancer s) \<and>
     (\<forall>st a s. px_balancer (fst (act st a s)) = px_balancer s)"

lemma streamCall_balancer:
  assumes "stream_keeps newStream (\<lambda>st (_ :: unit). bridge st)"
  shows "px_balancer (fst (streamCall ce r newStream bridge c s)) = px_balancer s"
proof -
  have "px_balancer s1 = px_balancer s" if "newStream cx c s = (s1, x)" for cx s1 x
    using assms that unfolding stream_keeps_def by (metis fst_conv)
  then show ?thesis
    using assms by (auto simp: streamCall_def stream_keeps_def split: prod.splits option.splits sum.splits)
qed

lemma sseCall_balancer:
  assumes "stream_keeps newStream sendMsg"
  shows "px_balancer (sseFinish (snd (sseCall ce r (Ret b) newStream sendMsg rel c s))
           (fst (sseCall ce r (Ret b) newStream sendMsg rel c s))) = release rel (px_balancer s)"
proof -
  have "px_balancer s1 = px_balancer s" if "newStream cx c s = (s1, x)" for cx s1 x
    using assms that unfolding stream_keeps_def by (metis fst_conv)
  moreover have "px_balancer s2 = px_balancer s1" if "sendMsg st q s1 = (s2, x)" for st q s1 s2 x
    using assms that unfolding stream_keeps_def by (metis fst_conv)
  ultimately show ?thesis
    by (auto simp: sseCall_def Let_def sseFinish_def split: prod.splits option.splits sum.splits)
qed

text \<open>A WebSocket stream gives its connection slot back however it ends. Under least-connections
  balancing the in-flight counters after \<open>InvokeStream\<close> are those before it, whether the dial, the
  claims, the stream or the bridge failed, the bridge ended, or it panicked.\<close>

theorem stream_restores_counters:
  assumes "stream_keeps newStream (\<lambda>st (_ :: unit). bridge st)"
    and "px_balancer s = LeastConn (Some xs)" and "length xs = length (pr_conns r)"
  shows "px_balancer (fst (InvokeStream ce r newStream bridge draw s)) = LeastConn (Some xs)"
proof (cases "pickConn r draw (px_balancer s)")
  case (Ret z)
  obtain bal cn rel where z: "z = (bal, cn, rel)" by (cases z)
  have rel: "release rel bal = LeastConn (Some xs)"
    using pickConn_release [OF Ret [unfolded z]] assms by auto
  have dial: "px_balancer s' = px_balancer t" if "dial lib cfg t = (s', x)" for lib cfg t s' x
    using dial_balancer [of lib cfg t] that by simp
  note keep = streamCall_balancer [OF assms(1), of ce r]
  show ?thesis
  proof (cases cn)
    case None
    then show ?thesis
      using Ret rel keep by (auto simp: InvokeStream_def z Let_def case_prod_beta dial split: prod.splits sum.splits)
  next
    case (Some c)
    then show ?thesis
      using Ret rel keep by (auto simp: InvokeStream_def z Let_def case_prod_beta)
  qed
qed (use assms in \<open>simp add: InvokeStream_def\<close>)

lemma pickConn_many:
  assumes "2 \<le> length (pr_conns r)" and "length xs = length (pr_conns r)"
  shows "\<exists>k < length xs. pickConn r draw (LeastConn (Some xs)) =
           Ret (LeastConn (Some (xs[k := xs ! k + 1])), Some (pr_conns r ! k), ReleaseAt k)"
proof -
  obtain m where m: "length (pr_conns r) = Suc (Suc m)"
    using assms(1) by (metis add_2_eq_Suc le_Suc_ex)
  obtain k where "lc_pick (Suc (Suc m)) (Some xs) = Ret (LeastConn (Some (xs[k := xs ! k + 1])), k, ReleaseAt k)"
    and "first_min xs k"
    using lc_pick_correct [of "Suc (Suc m)" "Some xs"] assms(2) m by (auto simp: fits_def)
  with m assms(2) show ?thesis by (auto simp: pickConn_def pick_def first_min_def)
qed

lemma sse_released:
  assumes "stream_keeps newStream sendMsg"
    and "px_balancer s = LeastConn (Some xs)" and "length xs = length (pr_conns r)"
    and "run = InvokeServerStream ce r (Ret b) newStream sendMsg draw s"
  shows "px_balancer (sseFinish (snd run) (fst run)) = LeastConn (Some xs)"
proof (cases "pickConn r draw (px_balancer s)")
  case (Ret z)
  obtain bal cn rel where z: "z = (bal, cn, rel)" by (cases z)
  have rel: "release rel bal = LeastConn (Some xs)"
    using pickConn_release [OF Ret [unfolded z]] assms by auto
  have dial: "px_balancer s' = px_balancer t" if "dial lib cfg t = (s', x)" for lib cfg t s' x
    using dial_balancer [of lib cfg t] that by simp
  note keep = sseCall_balancer [OF assms(1), of ce r b]
  show ?thesis
    using Ret rel keep unfolding assms(4)
    by (cases cn) (auto simp: InvokeServerStream_def z sseFinish_def dial split: prod.splits sum.splits)
qed (use assms in \<open>simp add: InvokeServerStream_def sseFinish_def\<close>)

text \<open>C38: a server-sent-event stream gives its connection slot back unless binding the request
  panics. When binding returns, with a request or an error, the in-flight counters after the
  response is finished are those before the call, on every path. When binding panics (a body
  \<open>null\<close> together with a query or path parameter) and the pool has at least two connections, one
  counter stays raised for good: the release is not deferred.\<close>

theorem sse_counters:
  assumes "stream_keeps newStream sendMsg"
    and "px_balancer s = LeastConn (Some xs)" and "length xs = length (pr_conns r)"
  shows "let run = (\<lambda>bind. InvokeServerStream ce r bind newStream sendMsg draw s) in
     (\<forall>b. px_balancer (sseFinish (snd (run (Ret b))) (fst (run (Ret b)))) = LeastConn (Some xs)) \<and>
     (\<forall>m. 2 \<le> length (pr_conns r) \<longrightarrow>
        (\<exists>i < length xs. px_balancer (sseFinish (snd (run (Panic m))) (fst (run (Panic m)))) =
                          LeastConn (Some (xs[i := xs ! i + 1]))))"
proof -
  have raised: "\<exists>i < length xs. px_balancer (fst (InvokeServerStream ce r (Panic m) newStream sendMsg draw s)) =
          LeastConn (Some (xs[i := xs ! i + 1])) \<and>
          snd (InvokeServerStream ce r (Panic m) newStream sendMsg draw s) = Panic m"
    if "2 \<le> length (pr_conns r)" for m
    using pickConn_many [OF that assms(3), of draw] assms(2)
    by (auto simp: InvokeServerStream_def sseCall_def)
  have "\<exists>i < length xs. px_balancer (sseFinish (snd run) (fst run)) = LeastConn (Some (xs[i := xs ! i + 1]))"
    if "2 \<le> length (pr_conns r)" and "run = InvokeServerStream ce r (Panic m) newStream sendMsg draw s" for run m
    using that(2) raised [OF that(1), of m] by (auto simp: sseFinish_def)
  with sse_released [OF assms refl] show ?thesis unfolding Let_def by blast
qed

text \<open>A library on which every stream opens, and a bridge that panics.\<close>

definition demo_newStream :: "ctx \<Rightarrow> conn \<Rightarrow> nat px \<Rightarrow> nat px \<times> nat result" where
  "demo_newStream cx c s = (s, Inr c)"

theorem stream_restores_counters_witness:
  "px_balancer (fst (InvokeStream demo_ce (mk_route down None [1, 2]) demo_newStream
      (\<lambda>_ s. (s, Panic ''bridge'')) 0 (mk_px demo_new))) = LeastConn (Some [0, 0])"
  by (rule stream_restores_counters) (auto simp: stream_keeps_def demo_newStream_def)

theorem sse_counters_witness:
  "let run = (\<lambda>bind :: nat result outcome. InvokeServerStream demo_ce (mk_route down None [1, 2]) bind demo_newStream
                 (\<lambda>_ _ s. (s, None)) 0 (mk_px demo_new)) in
     px_balancer (sseFinish (snd (run (Ret (Inr 7)))) (fst (run (Ret (Inr 7))))) = LeastConn (Some [0, 0]) \<and>
     (\<exists>i < length [0 :: int, 0]. px_balancer (sseFinish (snd (run (Panic ''nil map''))) (fst (run (Panic ''nil map'')))) =
                LeastConn (Some ([0, 0][i := [0, 0] ! i + 1])))"
proof -
  have "stream_keeps demo_newStream (\<lambda>_ (_ :: nat) s. (s, None :: go_error option))"
    by (simp add: stream_keeps_def demo_newStream_def)
  from sse_counters [OF this, of "mk_px demo_new" "[0, 0]" "mk_route down None [1, 2]" demo_ce 0]
  show ?thesis by (simp add: Let_def)
qed

section \<open>The event body\<close>

definition sse_event :: "string \<Rightarrow> string" where
  "sse_event d = ''data: '' @ d @ [CHR 0x0A, CHR 0x0A]"

text \<open>A round is good when it ends with a flush; its event is written when no error came before the flush.\<close>

definition round_good :: "string result \<times> bool \<times> bool \<Rightarrow> bool" where
  "round_good = (\<lambda>(d, written, flushed). \<not> isl d \<and> written \<and> flushed)"

definition round_event :: "string result \<times> bool \<times> bool \<Rightarrow> string" where
  "round_event = (\<lambda>(d, written, flushed). if \<not> isl d \<and> written then sse_event (projr d) else [])"

text \<open>The body of a server-sent-event response is a sequence of whole events: one for each
  message before the first round with a failure, in order, and one more when that failure is only
  in the flush. Each event is \<open>data: \<close>, the message and an empty line.\<close>

theorem sse_body:
  "ssePump rounds =
     (let good = takeWhile round_good rounds; rest = dropWhile round_good rounds
      in concat (map round_event good) @ (case rest of [] \<Rightarrow> [] | rd # _ \<Rightarrow> round_event rd))"
  by (induction rounds rule: ssePump.induct) (auto simp: round_good_def round_event_def sse_event_def Let_def)

end
