(* ===== verification/SF_Module.thy ===== *)
theory SF_Module
  imports SF_Config SF_Claims "HOL-Library.Char_ord" "HOL-Library.List_Lexorder"
begin

text \<open>
  \<open>core/module\<close>: the logger and runtime a module sees, the module interface and the catalogue of
  module factories; with the logger of \<open>core/app/app.go\<close>, its only implementation.

  A Go interface value is a record of functions on the state type \<open>'m\<close> of the modules. Modules run
  against a runtime state that holds the configuration, the loggers, the value table, the lines
  logged so far and the rest of the process (\<open>'w\<close>: sockets, databases, the other services).
\<close>

section \<open>Logging\<close>

definition LevelDebug :: int where "LevelDebug = -4"
definition LevelInfo :: int where "LevelInfo = 0"
definition LevelWarn :: int where "LevelWarn = 4"
definition LevelError :: int where "LevelError = 8"

record log_line =
  ll_level :: int
  ll_msg :: string
  ll_fields :: "any list"

record SlogLogger =
  sl_level :: int
  sl_json :: bool
  sl_fields :: "any list"

definition defaultSlog :: "Config \<Rightarrow> SlogLogger" where
  "defaultSlog cfg =
     \<lparr>sl_level =
        (let l = log_Level (c_Log cfg)
         in if l = ''debug'' then LevelDebug else if l = ''warn'' then LevelWarn
            else if l = ''error'' then LevelError else LevelInfo),
      sl_json = (log_Format (c_Log cfg) = ''json''),
      sl_fields = []\<rparr>"

definition Log_With :: "any list \<Rightarrow> SlogLogger \<Rightarrow> SlogLogger" where
  "Log_With fs l = l\<lparr>sl_fields := sl_fields l @ fs\<rparr>"

text \<open>\<open>slog\<close> drops a record below the level of its handler and writes the others in order.\<close>

definition slog_emit :: "int \<Rightarrow> SlogLogger \<Rightarrow> string \<Rightarrow> any list \<Rightarrow> log_line list \<Rightarrow> log_line list" where
  "slog_emit lvl l msg fs out =
     (if sl_level l \<le> lvl then out @ [\<lparr>ll_level = lvl, ll_msg = msg, ll_fields = sl_fields l @ fs\<rparr>] else out)"

abbreviation Log_Debug where "Log_Debug \<equiv> slog_emit LevelDebug"
abbreviation Log_Info where "Log_Info \<equiv> slog_emit LevelInfo"
abbreviation Log_Warn where "Log_Warn \<equiv> slog_emit LevelWarn"
abbreviation Log_Error where "Log_Error \<equiv> slog_emit LevelError"

section \<open>Runtime and modules\<close>

record ('w, 'v) runtime =
  ru_cfg :: Config
  ru_logger :: SlogLogger
  ru_coreLog :: SlogLogger
  ru_values :: "(string, 'v) gomap"
  ru_log :: "log_line list"
  ru_world :: 'w

definition rt_Set :: "string \<Rightarrow> 'v \<Rightarrow> ('w, 'v) runtime \<Rightarrow> ('w, 'v) runtime" where
  "rt_Set k v s = s\<lparr>ru_values := AList.update k v (ru_values s)\<rparr>"

definition rt_Get :: "string \<Rightarrow> ('w, 'v) runtime \<Rightarrow> 'v option" where
  "rt_Get k s = map_of (ru_values s) k"

text \<open>What one lifecycle call does: a new module state, a new runtime state, and an error or a panic.\<close>

type_synonym ('m, 'w, 'v) lifecycle =
  "ctx \<Rightarrow> 'm \<Rightarrow> ('w, 'v) runtime \<Rightarrow> 'm \<times> ('w, 'v) runtime \<times> go_error option outcome"

record ('m, 'w, 'v) Module =
  mo_Name :: "'m \<Rightarrow> string"
  mo_Init :: "('m, 'w, 'v) lifecycle"
  mo_Start :: "('m, 'w, 'v) lifecycle"
  mo_Stop :: "('m, 'w, 'v) lifecycle"
  mo_Health :: "ctx \<Rightarrow> 'm \<Rightarrow> ('w, 'v) runtime \<Rightarrow> go_error option"

text \<open>\<open>BaseModule\<close>: the no-op lifecycle; its state is its name.\<close>

definition noop_call :: "('m, 'w, 'v) lifecycle" where
  "noop_call cx m s = (m, s, Ret None)"

definition BaseModule :: "(string, 'w, 'v) Module" where
  "BaseModule = \<lparr>mo_Name = id, mo_Init = noop_call, mo_Start = noop_call, mo_Stop = noop_call,
     mo_Health = (\<lambda>_ _ _. None)\<rparr>"

section \<open>The catalogue\<close>

text \<open>A factory allocates, so it acts on the state \<open>'a\<close> of the heap.\<close>

type_synonym ('a, 'm) factory = "'a \<Rightarrow> 'a \<times> 'm"
type_synonym ('a, 'm) Catalog = "(string, ('a, 'm) factory) gomap"

definition NewCatalog :: "('a, 'm) Catalog" where "NewCatalog = []"

definition key :: "string \<Rightarrow> string \<Rightarrow> string" where
  "key name provider = toLower (trimSpace name) @ ''.'' @ toLower (trimSpace provider)"

definition Catalog_Register :: "string \<Rightarrow> string \<Rightarrow> ('a, 'm) factory \<Rightarrow> ('a, 'm) Catalog \<Rightarrow> ('a, 'm) Catalog" where
  "Catalog_Register name provider f c = AList.update (key name provider) f c"

fun build_from ::
  "('a, 'm) Catalog \<Rightarrow> ComponentConfig list \<Rightarrow> 'm list \<Rightarrow> 'a \<Rightarrow> 'a \<times> 'm list result" where
  "build_from c [] ms a = (a, Inr ms)"
| "build_from c (spec # specs) ms a =
     (if \<not> component_IsEnabled spec then build_from c specs ms a
      else if cc_Name spec = [] \<or> cc_Provider spec = [] then
        (a, Inl (PlainError ''component name and provider are required''))
      else case map_of c (key (cc_Name spec) (cc_Provider spec)) of
             None \<Rightarrow>
               (a, Inl (PlainError (''component '' @ cc_Name spec @ ''.'' @ cc_Provider spec @ '' is not registered'')))
           | Some f \<Rightarrow> (case f a of (a', m) \<Rightarrow> build_from c specs (ms @ [m]) a'))"

definition Build :: "('a, 'm) Catalog \<Rightarrow> ComponentConfig list \<Rightarrow> 'a \<Rightarrow> 'a \<times> 'm list result" where
  "Build c specs a = build_from c specs [] a"

definition Providers :: "('a, 'm) Catalog \<Rightarrow> string \<Rightarrow> string list" where
  "Providers c name =
     (let prefix = toLower name @ ''.''
      in sort (map (\<lambda>k. trimPrefix k prefix) (filter (\<lambda>k. hasPrefix k prefix) (map fst c))))"

section \<open>Properties of the catalogue\<close>

interpretation creg: name_registry map_of AList.update AList.delete gm_keys gm_wf "\<lambda>(n, p). key n p"
  by unfold_locales

text \<open>The specification of one component: absent, an error, or the factory it selects.\<close>

definition spec_error :: "('a, 'm) Catalog \<Rightarrow> ComponentConfig \<Rightarrow> bool" where
  "spec_error c spec \<longleftrightarrow> component_IsEnabled spec \<and>
     (cc_Name spec = [] \<or> cc_Provider spec = [] \<or> map_of c (key (cc_Name spec) (cc_Provider spec)) = None)"

fun run_factories :: "('a, 'm) factory list \<Rightarrow> 'a \<Rightarrow> 'a \<times> 'm list" where
  "run_factories [] a = (a, [])"
| "run_factories (f # fs) a =
     (case f a of (a1, m) \<Rightarrow> (case run_factories fs a1 of (a2, ms) \<Rightarrow> (a2, m # ms)))"

text \<open>The error a rejected component is reported with.\<close>

definition component_error :: "ComponentConfig \<Rightarrow> go_error" where
  "component_error sp =
     (if cc_Name sp = [] \<or> cc_Provider sp = [] then PlainError ''component name and provider are required''
      else PlainError (''component '' @ cc_Name sp @ ''.'' @ cc_Provider sp @ '' is not registered''))"

definition selected :: "('a, 'm) Catalog \<Rightarrow> ComponentConfig \<Rightarrow> ('a, 'm) factory" where
  "selected c sp = the (map_of c (key (cc_Name sp) (cc_Provider sp)))"

lemma build_from_spec:
  "snd (build_from c specs ms a) =
     (case find (spec_error c) specs of
        Some sp \<Rightarrow> Inl (component_error sp)
      | None \<Rightarrow> Inr (ms @ snd (run_factories (map (selected c) (filter component_IsEnabled specs)) a)))"
proof (induction specs arbitrary: ms a)
  case (Cons sp specs)
  obtain a' m where f: "selected c sp a = (a', m)" by fastforce
  show ?case
  proof (cases "map_of c (key (cc_Name sp) (cc_Provider sp))")
    case None
    then show ?thesis using Cons.IH by (auto simp: spec_error_def component_error_def split: option.splits)
  next
    case (Some g)
    with f have "g a = (a', m)" by (simp add: selected_def)
    with Some f show ?thesis
      using Cons.IH by (simp add: spec_error_def component_error_def split: option.splits prod.splits)
  qed
qed simp

text \<open>What \<open>Catalog.Build\<close> builds. If some enabled component has an empty name or provider or is not
  registered, the result is the error of the first such component and no modules. Otherwise it is
  one module per enabled component, in configuration order, each made by the factory registered
  under its normalised name and provider; disabled components are skipped, whatever they name.\<close>

theorem catalog_build:
  "snd (Build c specs a) =
     (case find (spec_error c) specs of
        Some sp \<Rightarrow> Inl (component_error sp)
      | None \<Rightarrow> Inr (snd (run_factories (map (selected c) (filter component_IsEnabled specs)) a)))"
  by (simp add: Build_def build_from_spec split: option.splits)

section \<open>Listing providers\<close>

lemma Providers_set:
  "set (Providers c n) = {p. toLower n @ ''.'' @ p \<in> fst ` set c}"
  by (auto simp: Providers_def Let_def hasPrefix_iff image_iff)
     (metis append.assoc append_Cons append_Nil fst_conv trimPrefix_append)+

lemma trimPrefix_inj: "inj_on (\<lambda>k. trimPrefix k q) {k. hasPrefix k q}"
  by (auto simp: inj_on_def hasPrefix_iff)

lemma Providers_distinct:
  assumes "gm_wf c"
  shows "distinct (Providers c n)"
proof -
  have "distinct (filter (\<lambda>k. hasPrefix k q) (map fst c))" for q
    using assms by (simp add: gm_wf_def)
  then show ?thesis
    by (auto simp: Providers_def Let_def distinct_map intro: inj_on_subset [OF trimPrefix_inj])
qed

lemma key_no_blank_head: "is_space b \<Longrightarrow> key n p \<noteq> b # s"
proof
  assume b: "is_space b" and eq: "key n p = b # s"
  have low: "is_space (lower_char x) \<longleftrightarrow> is_space x" for x
    by simp
  show False
  proof (cases "trimSpace n")
    case Nil
    with b eq show False by (auto simp: key_def toLower_def is_space_def)
  next
    case (Cons x xs)
    with trimSpace_hd [of n] have "\<not> is_space x" by simp
    with Cons b eq low show False by (auto simp: key_def toLower_def)
  qed
qed

lemma registered_keys:
  "gm_wf c \<Longrightarrow>
   gm_wf (fold (\<lambda>(n, p, f). Catalog_Register n p f) regs c) \<and>
   fst ` set (fold (\<lambda>(n, p, f). Catalog_Register n p f) regs c) = fst ` set c \<union> (\<lambda>(n, p, f). key n p) ` set regs"
proof (induction regs arbitrary: c)
  case (Cons r regs)
  obtain n p f where r: "r = (n, p, f)" by (cases r)
  have "fst ` set (AList.update (key n p) f c) = insert (key n p) (fst ` set c)"
    using gm.put_keys [OF Cons.prems, of "key n p" f] by (simp add: gm_keys_def)
  with Cons r show ?case by (simp add: Catalog_Register_def gm_wf_update)
qed simp

text \<open>\<open>Catalog.Providers\<close> lists what was registered. The providers of a name are sorted, without
  duplicates, and after a registration they are those before together with the normalised provider
  just registered, when the name asked for is the registered one up to case and the blanks around
  the registered name. Blanks around the name asked for are not removed, unlike in \<open>Build\<close>: in a
  catalogue filled by registrations a name that starts with a blank has no providers.\<close>

theorem providers_listed:
  assumes "c = fold (\<lambda>(n, p, f). Catalog_Register n p f) regs NewCatalog"
  shows "sorted (Providers c n) \<and> distinct (Providers c n) \<and>
     set (Providers c n) =
       {q. \<exists>(n', p, f) \<in> set regs. toLower n @ ''.'' @ q = key n' p} \<and>
     (is_space b \<longrightarrow> Providers c (b # n) = [])"
proof -
  have wf: "gm_wf c" and keys: "fst ` set c = (\<lambda>(n, p, f). key n p) ` set regs"
    using registered_keys [of NewCatalog regs] assms by (auto simp: NewCatalog_def)
  have "Providers c (b # n) = []" if "is_space b"
  proof -
    have "is_space (lower_char b)" using that by simp
    from key_no_blank_head [OF this] have "toLower (b # n) @ ''.'' @ q \<noteq> key n' p'" for n' p' q
      unfolding toLower_def list.map append_Cons by metis
    then have "toLower (b # n) @ ''.'' @ q \<notin> fst ` set c" for q
      unfolding keys by (auto simp del: append_Cons append_Nil)
    then have "set (Providers c (b # n)) = {}" unfolding Providers_set by blast
    then show ?thesis by simp
  qed
  moreover have "set (Providers c n) = {q. \<exists>(n', p, f) \<in> set regs. toLower n @ ''.'' @ q = key n' p}"
    unfolding Providers_set keys by force
  moreover have "sorted (Providers c n)" by (simp add: Providers_def Let_def)
  ultimately show ?thesis using Providers_distinct [OF wf] by blast
qed

theorem providers_listed_witness:
  "let c = fold (\<lambda>(n, p, f). Catalog_Register n p f)
             [(''cache'', ''redis'', \<lambda>a. (a, 1)), ('' Cache '', ''Memory'', \<lambda>a. (a, 2))] (NewCatalog :: (unit, nat) Catalog)
   in sorted (Providers c ''cache'') \<and> set (Providers c ''CACHE'') = {''redis'', ''memory''} \<and> Providers c '' cache'' = []"
proof -
  let ?regs = "[(''cache'', ''redis'', \<lambda>a. (a, 1)), ('' Cache '', ''Memory'', \<lambda>a. (a, 2))] ::
    (string \<times> string \<times> (unit, nat) factory) list"
  let ?c = "fold (\<lambda>(n, p, f). Catalog_Register n p f) ?regs NewCatalog"
  have k: "key ''cache'' ''redis'' = ''cache.redis''" "key '' Cache '' ''Memory'' = ''cache.memory''"
    by code_simp+
  have "set (Providers ?c ''CACHE'') = {q. toLower ''CACHE'' @ ''.'' @ q \<in> {''cache.redis'', ''cache.memory''}}"
    using providers_listed [OF refl, of ?regs "''CACHE''"] k by auto
  moreover have "toLower ''CACHE'' = ''cache''" by code_simp
  moreover have "is_space (CHR '' '')" by code_simp
  ultimately show ?thesis
    using providers_listed [OF refl, of ?regs "''cache''" "CHR '' ''"] by (auto simp: Let_def)
qed

end
