(* ===== verification/SF_App.thy ===== *)
theory SF_App
  imports SF_Module "HOL-Library.Multiset"
begin

text \<open>
  \<open>core/health\<close> and \<open>core/app\<close>: the health registry and the application lifecycle.

  \<open>Registry.Check\<close> ranges over a map, so the order in which it asks the checkers is a parameter. A
  health entry of an application refers to a module, which is kept as its index in the module list.
\<close>

section \<open>Health\<close>

record Report =
  rep_Status :: string
  rep_Checks :: "(string, string) gomap"

record 'c health_registry =
  hr_checks :: "(string, 'c) gomap"
  hr_healthy :: string

definition NewHealthRegistry :: "'c health_registry" where
  "NewHealthRegistry = \<lparr>hr_checks = [], hr_healthy = ''ok''\<rparr>"

definition health_Add :: "string \<Rightarrow> 'c \<Rightarrow> 'c health_registry \<Rightarrow> 'c health_registry" where
  "health_Add nm c r = r\<lparr>hr_checks := AList.update nm c (hr_checks r)\<rparr>"

text \<open>\<open>visits\<close> is the list of map entries in the order of the range loop.\<close>

fun check_all :: "('c \<Rightarrow> string) \<Rightarrow> ('c \<Rightarrow> go_error option) \<Rightarrow> 'c list \<Rightarrow> Report \<Rightarrow> Report" where
  "check_all nm h [] rep = rep"
| "check_all nm h (c # cs) rep =
     (case h c of
        Some e \<Rightarrow> check_all nm h cs
                   (rep\<lparr>rep_Status := ''degraded'', rep_Checks := AList.update (nm c) (Error e) (rep_Checks rep)\<rparr>)
      | None \<Rightarrow> check_all nm h cs (rep\<lparr>rep_Checks := AList.update (nm c) ''ok'' (rep_Checks rep)\<rparr>))"

definition health_Check ::
  "('c \<Rightarrow> string) \<Rightarrow> ('c \<Rightarrow> go_error option) \<Rightarrow> (string \<times> 'c) list \<Rightarrow> 'c health_registry \<Rightarrow> Report" where
  "health_Check nm h visits r = check_all nm h (map snd visits) \<lparr>rep_Status = hr_healthy r, rep_Checks = []\<rparr>"

section \<open>The application\<close>

record ('m, 'w, 'v) Application =
  ap_modules :: "'m list"
  ap_health :: "nat health_registry"
  ap_rt :: "('w, 'v) runtime"

definition coreLog_of :: "SlogLogger \<Rightarrow> SlogLogger" where
  "coreLog_of l = Log_With [AString ''source'', AString ''core'', AString ''component'', AString ''runtime''] l"

definition app_New :: "Config option \<Rightarrow> 'w \<Rightarrow> (('m, 'w, 'v) Application \<Rightarrow> ('m, 'w, 'v) Application) list \<Rightarrow>
    ('m, 'w, 'v) Application" where
  "app_New cfg0 w opts =
     (let cfg = (case cfg0 of None \<Rightarrow> Default | Some c \<Rightarrow> c);
          nm = AString (app_Name (c_App cfg));
          logger = Log_With [AString ''app'', nm, AString ''service'', nm] (defaultSlog cfg)
      in fold (\<lambda>opt a. opt a) opts
           \<lparr>ap_modules = [], ap_health = NewHealthRegistry,
            ap_rt = \<lparr>ru_cfg = cfg, ru_logger = logger, ru_coreLog = coreLog_of logger, ru_values = [], ru_log = [],
                     ru_world = w\<rparr>\<rparr>)"

definition WithLogger :: "SlogLogger option \<Rightarrow> ('m, 'w, 'v) Application \<Rightarrow> ('m, 'w, 'v) Application" where
  "WithLogger lg a =
     (case lg of
        None \<Rightarrow> a
      | Some l \<Rightarrow> a\<lparr>ap_rt := (ap_rt a)\<lparr>ru_logger := l, ru_coreLog := coreLog_of l\<rparr>\<rparr>)"

definition WithModules :: "('m, 'w, 'v) Module \<Rightarrow> 'm list \<Rightarrow> ('m, 'w, 'v) Application \<Rightarrow> ('m, 'w, 'v) Application" where
  "WithModules ops ms a =
     a\<lparr>ap_modules := ap_modules a @ ms,
       ap_health := fold (\<lambda>(i, m). health_Add (mo_Name ops m) (length (ap_modules a) + i)) (enumerate 0 ms) (ap_health a)\<rparr>"

definition app_Health ::
  "('m, 'w, 'v) Module \<Rightarrow> ctx \<Rightarrow> (string \<times> nat) list \<Rightarrow> ('m, 'w, 'v) Application \<Rightarrow> Report" where
  "app_Health ops cx visits a =
     health_Check (\<lambda>i. mo_Name ops (ap_modules a ! i)) (\<lambda>i. mo_Health ops cx (ap_modules a ! i) (ap_rt a)) visits (ap_health a)"

definition logModuleLifecycle :: "string \<Rightarrow> string \<Rightarrow> ('w, 'v) runtime \<Rightarrow> ('w, 'v) runtime" where
  "logModuleLifecycle msg nm s =
     (if log_ModuleLifecycle (c_Log (ru_cfg s))
      then s\<lparr>ru_log := Log_Info (ru_coreLog s) msg [AString ''module'', AString nm] (ru_log s)\<rparr> else s)"

text \<open>The loops of \<open>Init\<close> and \<open>Start\<close> are the same; \<open>call\<close> is the method and \<open>msg\<close> the log line.\<close>

fun each_module ::
  "('m, 'w, 'v) Module \<Rightarrow> string \<Rightarrow> ('m, 'w, 'v) lifecycle \<Rightarrow> ctx \<Rightarrow> 'm list \<Rightarrow> ('w, 'v) runtime \<Rightarrow>
   'm list \<times> ('w, 'v) runtime \<times> go_error option outcome" where
  "each_module ops msg call cx [] s = ([], s, Ret None)"
| "each_module ops msg call cx (m # ms) s =
     (case call cx m (logModuleLifecycle msg (mo_Name ops m) s) of
        (m', s', Ret None) \<Rightarrow> (case each_module ops msg call cx ms s' of (ms', s'', r) \<Rightarrow> (m' # ms', s'', r))
      | (m', s', r) \<Rightarrow> (m' # ms, s', r))"

definition app_Init :: "('m, 'w, 'v) Module \<Rightarrow> ctx \<Rightarrow> ('m, 'w, 'v) Application \<Rightarrow>
    ('m, 'w, 'v) Application \<times> go_error option outcome" where
  "app_Init ops cx a =
     (case each_module ops ''initializing module'' (mo_Init ops) cx (ap_modules a) (ap_rt a) of
        (ms, s, r) \<Rightarrow> (a\<lparr>ap_modules := ms, ap_rt := s\<rparr>, r))"

definition app_Start :: "('m, 'w, 'v) Module \<Rightarrow> ctx \<Rightarrow> ('m, 'w, 'v) Application \<Rightarrow>
    ('m, 'w, 'v) Application \<times> go_error option outcome" where
  "app_Start ops cx a =
     (case each_module ops ''starting module'' (mo_Start ops) cx (ap_modules a) (ap_rt a) of
        (ms, s, r) \<Rightarrow> (a\<lparr>ap_modules := ms, ap_rt := s\<rparr>, r))"

text \<open>The loop of \<open>Stop\<close>, over the modules in reverse: an error is logged and the loop goes on.\<close>

fun stop_each ::
  "('m, 'w, 'v) Module \<Rightarrow> ctx \<Rightarrow> 'm list \<Rightarrow> ('w, 'v) runtime \<Rightarrow> 'm list \<times> ('w, 'v) runtime \<times> go_error option outcome" where
  "stop_each ops cx [] s = ([], s, Ret None)"
| "stop_each ops cx (m # ms) s =
     (case mo_Stop ops cx m (logModuleLifecycle ''stopping module'' (mo_Name ops m) s) of
        (m', s', Panic p) \<Rightarrow> (m' # ms, s', Panic p)
      | (m', s', Ret e) \<Rightarrow>
          (let s1 = (case e of
                       None \<Rightarrow> s'
                     | Some err \<Rightarrow>
                         s'\<lparr>ru_log := Log_Error (ru_coreLog s') ''module stop failed''
                              [AString ''module'', AString (mo_Name ops m'), AString ''error'', AString (Error err)]
                              (ru_log s')\<rparr>)
           in case stop_each ops cx ms s1 of (ms', s2, r) \<Rightarrow> (m' # ms', s2, r)))"

definition app_Stop :: "('m, 'w, 'v) Module \<Rightarrow> ctx \<Rightarrow> ('m, 'w, 'v) Application \<Rightarrow>
    ('m, 'w, 'v) Application \<times> go_error option outcome" where
  "app_Stop ops cx a =
     (case stop_each ops cx (rev (ap_modules a)) (ap_rt a) of
        (ms, s, r) \<Rightarrow> (a\<lparr>ap_modules := rev ms, ap_rt := s\<rparr>, r))"

text \<open>
  \<open>Run\<close>: after a start it waits for the context or for a signal (\<open>sig\<close>), while the running process
  goes on (\<open>serve\<close>), then stops with a fresh 15 second deadline from the time \<open>now\<close>.
\<close>

definition log_signal :: "string option \<Rightarrow> ('m, 'w, 'v) Application \<Rightarrow> ('m, 'w, 'v) Application" where
  "log_signal sig a =
     (case sig of
        None \<Rightarrow> a
      | Some sg \<Rightarrow>
          a\<lparr>ap_rt := (ap_rt a)\<lparr>ru_log := Log_Info (ru_coreLog (ap_rt a)) ''received shutdown signal''
               [AString ''signal'', AString sg] (ru_log (ap_rt a))\<rparr>\<rparr>)"

definition app_Run ::
  "('m, 'w, 'v) Module \<Rightarrow> ctx \<Rightarrow> (('m, 'w, 'v) Application \<Rightarrow> ('m, 'w, 'v) Application) \<Rightarrow> string option \<Rightarrow> int \<Rightarrow>
   ('m, 'w, 'v) Application \<Rightarrow> ('m, 'w, 'v) Application \<times> go_error option outcome" where
  "app_Run ops cx serve sig now a =
     (case app_Init ops cx a of
        (a1, Ret None) \<Rightarrow>
          (case app_Start ops cx a1 of
             (a2, Ret None) \<Rightarrow>
               app_Stop ops (WithTimeout now Background (15 * second)) (log_signal sig (serve a2))
           | (a2, r) \<Rightarrow> (a2, r))
      | (a1, r) \<Rightarrow> (a1, r))"

lemma log_signal_sel [simp]:
  "ap_modules (log_signal sig a) = ap_modules a" "ru_world (ap_rt (log_signal sig a)) = ru_world (ap_rt a)"
  by (simp_all add: log_signal_def split: option.splits)

section \<open>Health reports\<close>

lemma map_of_rev_distinct: "distinct (map fst xs) \<Longrightarrow> map_of (rev xs) = map_of xs"
  by (subst map_of_inject_set) (auto simp: rev_map [symmetric])

text \<open>What the report says of one name.\<close>

definition verdict :: "('c \<Rightarrow> go_error option) \<Rightarrow> 'c \<Rightarrow> string" where
  "verdict h c = (case h c of None \<Rightarrow> ''ok'' | Some e \<Rightarrow> Error e)"

lemma check_all_report:
  "rep_Status (check_all nm h cs rep) = (if \<exists>c \<in> set cs. h c \<noteq> None then ''degraded'' else rep_Status rep)"
  "map_of (rep_Checks (check_all nm h cs rep)) =
     map_of (rep_Checks rep) ++ map_of (rev (map (\<lambda>c. (nm c, verdict h c)) cs))"
  by (induction nm h cs rep rule: check_all.induct)
     (auto simp: verdict_def fun_eq_iff map_add_def update_conv' split: option.splits)

text \<open>C32: a health report is exact and does not depend on the order of the map. Whatever order the
  range loop takes, the status is "ok" if every registered checker is healthy and "degraded"
  otherwise, and the report has exactly the registered names, each with "ok" or the text of the
  checker's error.\<close>

theorem health_report_exact:
  assumes "gm_wf (hr_checks r)" and "mset visits = mset (hr_checks r)" and "hr_healthy r = ''ok''"
    and "\<forall>(n, c) \<in> set (hr_checks r). nm c = n"
  shows "rep_Status (health_Check nm h visits r) =
           (if \<forall>(n, c) \<in> set (hr_checks r). h c = None then ''ok'' else ''degraded'') \<and>
         map_of (rep_Checks (health_Check nm h visits r)) = map_option (verdict h) \<circ> map_of (hr_checks r)"
proof -
  have set: "set visits = set (hr_checks r)" using assms(2) by (metis set_mset_mset)
  have "distinct (map fst visits)"
    using assms(1,2) unfolding gm_wf_def by (metis mset_eq_imp_distinct_iff mset_map)
  moreover have "map (\<lambda>c. (nm c, verdict h c)) (map snd visits) = map (\<lambda>(n, c). (n, verdict h c)) visits"
    using assms(4) set by auto
  moreover have "map_of (rev (map (\<lambda>(n, c). (n, verdict h c)) visits)) = map_option (verdict h) \<circ> map_of visits"
    if "distinct (map fst visits)"
  proof -
    have "distinct (map fst (map (\<lambda>(n, c). (n, verdict h c)) visits))"
      using that by (simp add: comp_def case_prod_beta')
    then show ?thesis by (simp only: map_of_rev_distinct map_of_map)
  qed
  ultimately have "map_of (rev (map (\<lambda>c. (nm c, verdict h c)) (map snd visits))) =
      map_option (verdict h) \<circ> map_of visits"
    by metis
  moreover have "map_of visits = map_of (hr_checks r)"
    using assms(1) set \<open>distinct (map fst visits)\<close> unfolding gm_wf_def by (simp add: map_of_inject_set)
  ultimately show ?thesis
    using set assms(3) by (force simp: health_Check_def check_all_report)
qed

theorem health_report_exact_witness:
  "let r = health_Add ''store'' (1 :: nat) (health_Add ''cache'' 0 NewHealthRegistry);
       h = (\<lambda>i. if i = 1 then Some (PlainError ''down'') else None);
       nm = (\<lambda>i. if i = 0 then ''cache'' else ''store'')
   in rep_Status (health_Check nm h [(''store'', 1), (''cache'', 0)] r) = ''degraded'' \<and>
      map_of (rep_Checks (health_Check nm h [(''store'', 1), (''cache'', 0)] r)) ''cache'' = Some ''ok''"
proof -
  let ?r = "health_Add ''store'' (1 :: nat) (health_Add ''cache'' 0 NewHealthRegistry)"
  have "hr_checks ?r = [(''cache'', 0), (''store'', 1)]" "hr_healthy ?r = ''ok''"
    by (simp_all add: health_Add_def NewHealthRegistry_def)
  then show ?thesis
    using health_report_exact [of ?r "[(''store'', 1), (''cache'', 0)]" "\<lambda>i. if i = 0 then ''cache'' else ''store''"
        "\<lambda>i. if i = 1 then Some (PlainError ''down'') else None"]
    by (simp add: gm_wf_def Let_def verdict_def)
qed

section \<open>The lifecycle\<close>

text \<open>
  To speak of the order of calls, the world keeps a trace \<open>tr\<close> of them: a reporting module adds its
  phase and name to the trace in every lifecycle call, whatever else the call does and returns.
\<close>

datatype phase = PInit | PStart | PStop

definition reports_call ::
  "('w \<Rightarrow> (phase \<times> string) list) \<Rightarrow> ('m \<Rightarrow> string) \<Rightarrow> phase \<Rightarrow> ('m, 'w, 'v) lifecycle \<Rightarrow> bool" where
  "reports_call tr nm ph call \<longleftrightarrow>
     (\<forall>cx m s m' s' r. call cx m s = (m', s', r) \<longrightarrow>
        nm m' = nm m \<and> tr (ru_world s') = tr (ru_world s) @ [(ph, nm m)])"

definition reports :: "('w \<Rightarrow> (phase \<times> string) list) \<Rightarrow> ('m, 'w, 'v) Module \<Rightarrow> bool" where
  "reports tr ops \<longleftrightarrow> reports_call tr (mo_Name ops) PInit (mo_Init ops) \<and>
     reports_call tr (mo_Name ops) PStart (mo_Start ops) \<and> reports_call tr (mo_Name ops) PStop (mo_Stop ops)"

lemma logModuleLifecycle_world [simp]: "ru_world (logModuleLifecycle msg nm s) = ru_world s"
  by (simp add: logModuleLifecycle_def)

lemma reports_callD:
  "reports_call tr nm ph call \<Longrightarrow> call cx m s = (m', s', r) \<Longrightarrow>
   nm m' = nm m \<and> tr (ru_world s') = tr (ru_world s) @ [(ph, nm m)]"
  unfolding reports_call_def by blast

lemma each_module_trace:
  assumes "reports_call tr (mo_Name ops) ph call" and "each_module ops msg call cx ms s = (ms', s', r)"
  shows "map (mo_Name ops) ms' = map (mo_Name ops) ms \<and>
    (\<exists>k \<le> length ms. tr (ru_world s') = tr (ru_world s) @ map (Pair ph) (take k (map (mo_Name ops) ms)) \<and>
       (if r = Ret None then k = length ms else 0 < k))"
  using assms(2)
proof (induction ms arbitrary: s ms' s' r)
  case (Cons m ms)
  obtain m1 s1 r1 where c: "call cx m (logModuleLifecycle msg (mo_Name ops m) s) = (m1, s1, r1)"
    by (metis prod_cases3)
  note t = reports_callD [OF assms(1) c]
  show ?case
  proof (cases "r1 = Ret None")
    case True
    obtain ms2 s2 r2 where e: "each_module ops msg call cx ms s1 = (ms2, s2, r2)" by (metis prod_cases3)
    with Cons.prems c True have res: "ms' = m1 # ms2" "s' = s2" "r = r2" by auto
    from Cons.IH [OF e] obtain k where "map (mo_Name ops) ms2 = map (mo_Name ops) ms" "k \<le> length ms"
      "tr (ru_world s2) = tr (ru_world s1) @ map (Pair ph) (take k (map (mo_Name ops) ms))"
      "if r2 = Ret None then k = length ms else 0 < k"
      by blast
    then show ?thesis using res t by (auto intro!: exI [of _ "Suc k"])
  next
    case False
    with Cons.prems c have "ms' = m1 # ms" "s' = s1" "r = r1"
      by (auto split: outcome.splits option.splits)
    then show ?thesis using t False by (auto intro!: exI [of _ "Suc 0"])
  qed
qed simp

lemma stop_each_trace:
  assumes "reports_call tr (mo_Name ops) PStop (mo_Stop ops)" and "stop_each ops cx ms s = (ms', s', Ret e)"
  shows "map (mo_Name ops) ms' = map (mo_Name ops) ms \<and> e = None \<and>
    tr (ru_world s') = tr (ru_world s) @ map (Pair PStop) (map (mo_Name ops) ms)"
  using assms(2)
proof (induction ms arbitrary: s ms' s')
  case (Cons m ms)
  obtain m1 s1 r1 where c: "mo_Stop ops cx m (logModuleLifecycle ''stopping module'' (mo_Name ops m) s) = (m1, s1, r1)"
    by (metis prod_cases3)
  note t = reports_callD [OF assms(1) c]
  from Cons.prems c obtain e1 where r1: "r1 = Ret e1" by (auto split: outcome.splits)
  obtain s2 where "stop_each ops cx ms s2 = (tl ms', s', Ret e)" "ms' = m1 # tl ms'" "ru_world s2 = ru_world s1"
    using Cons.prems c r1 by (cases e1) (auto simp: Let_def split: prod.splits)
  with Cons.IH [of s2] t show ?case by (metis (no_types, lifting) append.assoc append_Cons append_Nil list.simps(9) logModuleLifecycle_world)
qed simp

lemma app_Init_trace:
  assumes "reports tr ops" and "app_Init ops cx a = (a', r)"
  shows "map (mo_Name ops) (ap_modules a') = map (mo_Name ops) (ap_modules a) \<and>
    (\<exists>k \<le> length (ap_modules a). tr (ru_world (ap_rt a')) =
         tr (ru_world (ap_rt a)) @ map (Pair PInit) (take k (map (mo_Name ops) (ap_modules a))) \<and>
       (if r = Ret None then k = length (ap_modules a) else 0 < k))"
proof -
  obtain ms s where e: "each_module ops ''initializing module'' (mo_Init ops) cx (ap_modules a) (ap_rt a) = (ms, s, r)"
    and "a' = a\<lparr>ap_modules := ms, ap_rt := s\<rparr>"
    using assms(2) by (auto simp: app_Init_def split: prod.splits)
  moreover have "reports_call tr (mo_Name ops) PInit (mo_Init ops)" using assms(1) by (simp add: reports_def)
  ultimately show ?thesis using each_module_trace [OF _ e] by simp
qed

lemma app_Start_trace:
  assumes "reports tr ops" and "app_Start ops cx a = (a', r)"
  shows "map (mo_Name ops) (ap_modules a') = map (mo_Name ops) (ap_modules a) \<and>
    (\<exists>k \<le> length (ap_modules a). tr (ru_world (ap_rt a')) =
         tr (ru_world (ap_rt a)) @ map (Pair PStart) (take k (map (mo_Name ops) (ap_modules a))) \<and>
       (if r = Ret None then k = length (ap_modules a) else 0 < k))"
proof -
  obtain ms s where e: "each_module ops ''starting module'' (mo_Start ops) cx (ap_modules a) (ap_rt a) = (ms, s, r)"
    and "a' = a\<lparr>ap_modules := ms, ap_rt := s\<rparr>"
    using assms(2) by (auto simp: app_Start_def split: prod.splits)
  moreover have "reports_call tr (mo_Name ops) PStart (mo_Start ops)" using assms(1) by (simp add: reports_def)
  ultimately show ?thesis using each_module_trace [OF _ e] by simp
qed

lemma app_Stop_trace:
  assumes "reports tr ops" and "app_Stop ops cx a = (a', Ret e)"
  shows "e = None \<and> tr (ru_world (ap_rt a')) =
    tr (ru_world (ap_rt a)) @ map (Pair PStop) (rev (map (mo_Name ops) (ap_modules a)))"
proof -
  obtain ms where st: "stop_each ops cx (rev (ap_modules a)) (ap_rt a) = (ms, ap_rt a', Ret e)"
    using assms(2) by (auto simp: app_Stop_def split: prod.splits)
  have "reports_call tr (mo_Name ops) PStop (mo_Stop ops)" using assms(1) by (simp add: reports_def)
  from stop_each_trace [OF this st] show ?thesis by (auto simp only: rev_map)
qed

text \<open>C14: the application lifecycle. When \<open>Run\<close> returns nil, every module was initialised in order,
  then every module started in order, then every module stopped in reverse order, each once,
  whatever errors the \<open>Stop\<close> calls returned. When \<open>Run\<close> returns an error, the calls were those of
  \<open>Init\<close> for a non-empty prefix of the modules, or of \<open>Init\<close> for all and \<open>Start\<close> for a non-empty
  prefix: no later module was touched, and no module at all was stopped, also not those running.\<close>

theorem app_lifecycle:
  assumes "reports tr ops" and "names = map (mo_Name ops) (ap_modules a)" and "tr (ru_world (ap_rt a)) = []"
    and "\<forall>b. map (mo_Name ops) (ap_modules (serve b)) = map (mo_Name ops) (ap_modules b) \<and>
             tr (ru_world (ap_rt (serve b))) = tr (ru_world (ap_rt b))"
    and "app_Run ops cx serve sig now a = (a', Ret e)"
  shows "let inits = map (Pair PInit) names; starts = map (Pair PStart) names; stops = map (Pair PStop) (rev names);
             events = tr (ru_world (ap_rt a'))
         in if e = None then events = inits @ starts @ stops
            else (\<exists>k. 0 < k \<and> k \<le> length names \<and> (events = take k inits \<or> events = inits @ take k starts))"
proof -
  obtain a1 r1 where i: "app_Init ops cx a = (a1, r1)" by fastforce
  obtain a2 r2 where st: "app_Start ops cx a1 = (a2, r2)" by fastforce
  have len: "length (ap_modules a) = length names" by (simp add: assms(2))
  note ti = app_Init_trace [OF assms(1) i, folded assms(2), unfolded assms(3) len]
  then have len1: "length (ap_modules a1) = length names" by (metis length_map)
  note ts = app_Start_trace [OF assms(1) st, unfolded ti [THEN conjunct1] len1]
  consider "r1 \<noteq> Ret None" | "r1 = Ret None" "r2 \<noteq> Ret None" | "r1 = Ret None" "r2 = Ret None" by blast
  then show ?thesis
  proof cases
    case 1
    with i assms(5) have "a' = a1" "r1 = Ret e" by (auto simp: app_Run_def split: outcome.splits option.splits)
    with 1 ti show ?thesis by (auto simp: Let_def take_map)
  next
    case 2
    with i st assms(5) have "a' = a2" "r2 = Ret e" by (auto simp: app_Run_def split: outcome.splits option.splits)
    with 2 ti ts show ?thesis by (auto simp: Let_def take_map)
  next
    case 3
    define b where "b = log_signal sig (serve a2)"
    have "app_Stop ops (WithTimeout now Background (15 * second)) b = (a', Ret e)"
      using assms(5) i st 3 by (simp add: app_Run_def b_def)
    note app_Stop_trace [OF assms(1) this]
    moreover have "map (mo_Name ops) (ap_modules b) = names"
      "tr (ru_world (ap_rt b)) = map (Pair PInit) names @ map (Pair PStart) names"
      using assms(4) 3 ti ts by (simp_all add: b_def)
    ultimately show ?thesis by (simp add: Let_def)
  qed
qed

text \<open>Two modules that report, the second of which cannot be started.\<close>

definition demo_call :: "phase \<Rightarrow> (string, (phase \<times> string) list, unit) lifecycle" where
  "demo_call ph cx m s =
     (m, s\<lparr>ru_world := ru_world s @ [(ph, m)]\<rparr>,
      Ret (if ph = PStart \<and> m = ''grpc'' then Some (PlainError ''address in use'') else None))"

definition demo_ops :: "(string, (phase \<times> string) list, unit) Module" where
  "demo_ops = \<lparr>mo_Name = id, mo_Init = demo_call PInit, mo_Start = demo_call PStart, mo_Stop = demo_call PStop,
     mo_Health = (\<lambda>_ _ _. None)\<rparr>"

lemma demo_ops_reports: "reports id demo_ops"
  by (simp add: reports_def reports_call_def demo_ops_def demo_call_def)

definition demo_app :: "(string, (phase \<times> string) list, unit) Application" where
  "demo_app = app_New None [] [WithModules demo_ops [''cache'', ''grpc'']]"

theorem app_lifecycle_witness:
  "\<exists>a' e k. app_Run demo_ops Background id None 0 demo_app = (a', Ret (Some e)) \<and>
     (let names = [''cache'', ''grpc''] in
      ru_world (ap_rt a') = take k (map (Pair PInit) names) \<or>
      ru_world (ap_rt a') = map (Pair PInit) names @ take k (map (Pair PStart) names))"
proof -
  have ms: "ap_modules demo_app = [''cache'', ''grpc'']" and w: "ru_world (ap_rt demo_app) = []"
    by (simp_all add: demo_app_def app_New_def WithModules_def Let_def)
  obtain a' where run: "app_Run demo_ops Background id None 0 demo_app = (a', Ret (Some (PlainError ''address in use'')))"
    by (simp add: app_Run_def app_Init_def app_Start_def ms w demo_ops_def demo_call_def)
  show ?thesis
    using app_lifecycle [OF demo_ops_reports refl _ _ run] run ms w
    by (auto simp: Let_def demo_ops_def)
qed

end
