(* ===== verification/SF_Grpcserver.thy ===== *)
theory SF_Grpcserver
  imports SF_App SF_Memory
begin

text \<open>
  \<open>transport/grpcserver/server.go\<close>: the module that runs a gRPC server and announces it in the registry.

  The gRPC library, the listener and the UUID source are functions on the world; servers, health
  servers and listeners are numbers. The type assertion to \<open>registry.Registrar\<close> is a parameter.
\<close>

section \<open>Model\<close>

record 'w registrar =
  rg_Register :: "ServiceInstance \<Rightarrow> 'w \<Rightarrow> 'w \<times> go_error option"
  rg_Deregister :: "string \<Rightarrow> 'w \<Rightarrow> 'w \<times> go_error option"

text \<open>The interceptors a server is created with: the framework's own, or a caller's.\<close>

datatype interceptor = FrameworkInterceptor | CustomInterceptor nat

record 'w grpcd_lib =
  gl_NewServer :: "interceptor list \<Rightarrow> 'w \<Rightarrow> 'w \<times> nat"
  gl_NewHealth :: "'w \<Rightarrow> 'w \<times> nat"
  gl_RegisterHealth :: "nat \<Rightarrow> nat \<Rightarrow> 'w \<Rightarrow> 'w"
  gl_SetServing :: "nat \<Rightarrow> bool \<Rightarrow> 'w \<Rightarrow> 'w"
  gl_Listen :: "string \<Rightarrow> 'w \<Rightarrow> 'w \<times> nat result"
  gl_Serve :: "nat \<Rightarrow> nat \<Rightarrow> 'w \<Rightarrow> 'w"
  gl_GracefulStop :: "nat \<Rightarrow> 'w \<Rightarrow> 'w"
  gl_StopServer :: "nat \<Rightarrow> 'w \<Rightarrow> 'w"
  gl_uuid :: "'w \<Rightarrow> 'w \<times> string"

record 'w grpcserver =
  gs_serviceName :: string
  gs_address :: string
  gs_port :: int
  gs_server :: "nat option"
  gs_health :: "nat option"
  gs_listener :: "nat option"
  gs_registers :: "(nat \<Rightarrow> 'w \<Rightarrow> 'w) list"
  gs_registrar :: "'w registrar option"
  gs_serviceID :: string
  gs_logger :: "SlogLogger option"

definition grpcserver_NewModule :: "(nat \<Rightarrow> 'w \<Rightarrow> 'w) list \<Rightarrow> 'w grpcserver" where
  "grpcserver_NewModule regs =
     \<lparr>gs_serviceName = [], gs_address = [], gs_port = 0, gs_server = None, gs_health = None, gs_listener = None,
      gs_registers = regs, gs_registrar = None, gs_serviceID = [], gs_logger = None\<rparr>"

text \<open>The option replaces the server of the module by one with the caller's interceptors only.\<close>

definition WithUnaryInterceptors ::
  "'w grpcd_lib \<Rightarrow> interceptor list \<Rightarrow> 'w grpcserver \<Rightarrow> 'w \<Rightarrow> 'w grpcserver \<times> 'w" where
  "WithUnaryInterceptors L ics m w = (case gl_NewServer L ics w of (w', srv) \<Rightarrow> (m\<lparr>gs_server := Some srv\<rparr>, w'))"

definition hostForRegistry :: "string \<Rightarrow> string" where
  "hostForRegistry host = (if host = [] \<or> host = ''0.0.0.0'' \<or> host = ''::'' then ''127.0.0.1'' else host)"

text \<open>The fields \<open>Init\<close> takes from the configuration.\<close>

definition configured :: "Config \<Rightarrow> SlogLogger \<Rightarrow> 'w grpcserver \<Rightarrow> 'w grpcserver" where
  "configured cfg lg m =
     m\<lparr>gs_logger := Some (Log_With [AString ''source'', AString ''transport'', AString ''component'', AString ''grpcserver''] lg),
       gs_serviceName := app_Name (c_App cfg),
       gs_address := (if grpc_ListenIP (c_GRPC cfg) = [] then ''0.0.0.0'' else grpc_ListenIP (c_GRPC cfg)),
       gs_port := (if grpc_Port (c_GRPC cfg) = 0 then 9000 else grpc_Port (c_GRPC cfg))\<rparr>"

definition grpcserver_Init ::
  "'w grpcd_lib \<Rightarrow> ('v \<Rightarrow> 'w registrar option) \<Rightarrow> (nat \<Rightarrow> 'v) \<Rightarrow> 'w grpcserver \<Rightarrow> ('w, 'v) runtime \<Rightarrow>
   'w grpcserver \<times> ('w, 'v) runtime \<times> go_error option outcome" where
  "grpcserver_Init L as_registrar server_value m s =
     (let m1 = configured (ru_cfg s) (ru_logger s) m;
          (w1, srv) = (case gs_server m1 of None \<Rightarrow> gl_NewServer L [FrameworkInterceptor] (ru_world s) | Some n \<Rightarrow> (ru_world s, n));
          (w2, hs) = gl_NewHealth L w1;
          w3 = fold (\<lambda>reg w. reg srv w) (gs_registers m1) (gl_RegisterHealth L srv hs w2);
          reg = (case Option.bind (rt_Get ''registrar'' s) as_registrar of None \<Rightarrow> gs_registrar m1 | Some r \<Rightarrow> Some r)
      in (m1\<lparr>gs_server := Some srv, gs_health := Some hs, gs_registrar := reg\<rparr>,
          rt_Set ''grpc_server'' (server_value srv) (s\<lparr>ru_world := w3\<rparr>), Ret None))"

definition instance_announced :: "'w grpcserver \<Rightarrow> string \<Rightarrow> ServiceInstance" where
  "instance_announced m sid =
     \<lparr>si_ID = sid, si_Name = gs_serviceName m, si_Version = [], si_Address = hostForRegistry (gs_address m),
      si_Port = gs_port m, si_Protocol = ''grpc'', si_Tags = [''grpc''], si_Metadata = [(''transport'', ''grpc'')]\<rparr>"

text \<open>The last part of \<open>Start\<close>: the log line and the serving goroutine. A nil server or health server panics.\<close>

definition serve_on :: "'w grpcd_lib \<Rightarrow> nat \<Rightarrow> 'w grpcserver \<Rightarrow> ('w, 'v) runtime \<Rightarrow>
    'w grpcserver \<times> ('w, 'v) runtime \<times> go_error option outcome" where
  "serve_on L l m s =
     (let s1 = (case gs_logger m of
                  None \<Rightarrow> s
                | Some lg \<Rightarrow> s\<lparr>ru_log := Log_Info lg ''grpc server listening''
                                [AString ''address'', AString (Address (gs_address m) (gs_port m))] (ru_log s)\<rparr>)
      in case gs_server m of
           None \<Rightarrow> (m, s1, Panic ''nil pointer dereference'')
         | Some srv \<Rightarrow> (m, s1\<lparr>ru_world := gl_Serve L srv l (ru_world s1)\<rparr>, Ret None))"

definition grpcserver_Start ::
  "'w grpcd_lib \<Rightarrow> 'w grpcserver \<Rightarrow> ('w, 'v) runtime \<Rightarrow> 'w grpcserver \<times> ('w, 'v) runtime \<times> go_error option outcome" where
  "grpcserver_Start L m s =
     (case gl_Listen L (Address (gs_address m) (gs_port m)) (ru_world s) of
        (w1, Inl e) \<Rightarrow> (m, s\<lparr>ru_world := w1\<rparr>, Ret (Some e))
      | (w1, Inr l) \<Rightarrow>
          (let m1 = m\<lparr>gs_listener := Some l\<rparr>
           in case gs_health m1 of
                None \<Rightarrow> (m1, s\<lparr>ru_world := w1\<rparr>, Panic ''nil pointer dereference'')
              | Some hs \<Rightarrow>
                  (let w2 = gl_SetServing L hs True w1
                   in case gs_registrar m1 of
                        None \<Rightarrow> serve_on L l m1 (s\<lparr>ru_world := w2\<rparr>)
                      | Some r \<Rightarrow>
                          (case gl_uuid L w2 of
                             (w3, u) \<Rightarrow>
                               (let sid = gs_serviceName m1 @ ''-'' @ u; m2 = m1\<lparr>gs_serviceID := sid\<rparr>
                                in case rg_Register r (instance_announced m2 sid) w3 of
                                     (w4, Some e) \<Rightarrow> (m2, s\<lparr>ru_world := w4\<rparr>, Ret (Some e))
                                   | (w4, None) \<Rightarrow> serve_on L l m2 (s\<lparr>ru_world := w4\<rparr>))))))"

text \<open>What ends the wait of \<open>Stop\<close>: the context, the ten second timer, or the graceful stop itself.\<close>

datatype stop_event = CtxDone | TimerFired | GracefullyStopped

definition grpcserver_Stop ::
  "'w grpcd_lib \<Rightarrow> stop_event \<Rightarrow> 'w grpcserver \<Rightarrow> ('w, 'v) runtime \<Rightarrow> 'w grpcserver \<times> ('w, 'v) runtime \<times> go_error option outcome" where
  "grpcserver_Stop L ev m s =
     (let w1 = (case gs_health m of None \<Rightarrow> ru_world s | Some hs \<Rightarrow> gl_SetServing L hs False (ru_world s));
          w2 = (case gs_registrar m of
                  None \<Rightarrow> w1
                | Some r \<Rightarrow> if gs_serviceID m \<noteq> [] then fst (rg_Deregister r (gs_serviceID m) w1) else w1);
          w3 = (case gs_server m of None \<Rightarrow> w2 | Some srv \<Rightarrow> gl_GracefulStop L srv w2);
          w4 = (if ev = GracefullyStopped then w3
                else case gs_server m of None \<Rightarrow> w3 | Some srv \<Rightarrow> gl_StopServer L srv w3)
      in (m, s\<lparr>ru_world := w4\<rparr>, Ret None))"

definition grpcserver_Health :: "'w grpcserver \<Rightarrow> go_error option" where
  "grpcserver_Health m = (if gs_listener m = None then Some (PlainError ''grpc server is not listening'') else None)"

text \<open>A handler returns a message and an error, either of which may be nil, or panics; the interceptor lets a
  panic through.\<close>

type_synonym ('q, 'p, 'w) rpc_handler = "'q \<Rightarrow> 'w \<Rightarrow> 'w \<times> ('p option \<times> go_error option) outcome"

definition ErrorInterceptor :: "errors_pkg \<Rightarrow> ('q, 'p, 'w) rpc_handler \<Rightarrow> ('q, 'p, 'w) rpc_handler" where
  "ErrorInterceptor E handler req w =
     (case handler req w of
        (w', Panic m) \<Rightarrow> (w', Panic m)
      | (w', Ret (resp, Some err)) \<Rightarrow> (w', Ret (None, ToGRPCError E (Some err)))
      | (w', Ret (resp, None)) \<Rightarrow> (w', Ret (resp, None)))"

text \<open>The module behind the interface; the wait of \<open>Stop\<close> ends with \<open>ev\<close>.\<close>

definition grpcserver_ops :: "'w grpcd_lib \<Rightarrow> ('v \<Rightarrow> 'w registrar option) \<Rightarrow> (nat \<Rightarrow> 'v) \<Rightarrow> stop_event \<Rightarrow>
    ('w grpcserver, 'w, 'v) Module" where
  "grpcserver_ops L as_registrar server_value ev =
     \<lparr>mo_Name = (\<lambda>_. ''transport.grpcserver''), mo_Init = (\<lambda>_. grpcserver_Init L as_registrar server_value),
      mo_Start = (\<lambda>_. grpcserver_Start L), mo_Stop = (\<lambda>_. grpcserver_Stop L ev), mo_Health = (\<lambda>_ m _. grpcserver_Health m)\<rparr>"

section \<open>Announcing in the in-memory registry\<close>

text \<open>The registrar a world gets from the in-memory registry it contains (\<open>get\<close>, \<open>put\<close>).\<close>

definition memory_registrar :: "('w \<Rightarrow> Registry) \<Rightarrow> (Registry \<Rightarrow> 'w \<Rightarrow> 'w) \<Rightarrow> 'w registrar" where
  "memory_registrar get put =
     \<lparr>rg_Register = (\<lambda>i w. (put (Register i (get w)) w, None)), rg_Deregister = (\<lambda>i w. (put (Deregister i (get w)) w, None))\<rparr>"

definition lens :: "('w \<Rightarrow> Registry) \<Rightarrow> (Registry \<Rightarrow> 'w \<Rightarrow> 'w) \<Rightarrow> bool" where
  "lens get put \<longleftrightarrow> (\<forall>r w. get (put r w) = r)"

text \<open>The gRPC library and the listener do not touch the registry.\<close>

definition lib_keeps :: "('w \<Rightarrow> Registry) \<Rightarrow> 'w grpcd_lib \<Rightarrow> bool" where
  "lib_keeps get L \<longleftrightarrow>
     (\<forall>a w. get (fst (gl_Listen L a w)) = get w) \<and> (\<forall>h b w. get (gl_SetServing L h b w) = get w) \<and>
     (\<forall>w. get (fst (gl_uuid L w)) = get w) \<and> (\<forall>a b w. get (gl_Serve L a b w) = get w) \<and>
     (\<forall>a w. get (gl_GracefulStop L a w) = get w) \<and> (\<forall>a w. get (gl_StopServer L a w) = get w)"

lemma serve_on_effect:
  assumes "serve_on L l m s = (m', s', Ret e)"
  shows "m' = m \<and> e = None \<and> (\<exists>srv. ru_world s' = gl_Serve L srv l (ru_world s))"
  using assms by (auto simp: serve_on_def Let_def split: option.splits)

lemma Start_announces:
  assumes "lens get put" and "lib_keeps get L" and "gs_registrar m = Some (memory_registrar get put)"
    and "grpcserver_Start L m s = (m', s', Ret None)"
  shows "\<exists>u. gs_serviceID m' = gs_serviceName m @ ''-'' @ u \<and> gs_listener m' \<noteq> None \<and> gs_registrar m' = gs_registrar m \<and>
     get (ru_world s') = Register (instance_announced m (gs_serviceID m')) (get (ru_world s))"
proof -
  note keep = assms(2) [unfolded lib_keeps_def]
  note k_listen = keep [THEN conjunct1, rule_format]
  note k_serving = keep [THEN conjunct2, THEN conjunct1, rule_format]
  note k_uuid = keep [THEN conjunct2, THEN conjunct2, THEN conjunct1, rule_format]
  note k_serve = keep [THEN conjunct2, THEN conjunct2, THEN conjunct2, THEN conjunct1, rule_format]
  obtain w1 l where l: "gl_Listen L (Address (gs_address m) (gs_port m)) (ru_world s) = (w1, Inr l)"
    using assms(4) by (auto simp: grpcserver_Start_def split: prod.splits sum.splits)
  obtain hs where hs: "gs_health m = Some hs"
    using assms(4) l by (auto simp: grpcserver_Start_def Let_def split: option.splits)
  obtain w3 u where u: "gl_uuid L (gl_SetServing L hs True w1) = (w3, u)" by fastforce
  define sid where "sid = gs_serviceName m @ ''-'' @ u"
  define m2 where "m2 = m\<lparr>gs_listener := Some l, gs_serviceID := sid\<rparr>"
  define w4 where "w4 = put (Register (instance_announced m2 sid) (get w3)) w3"
  have "serve_on L l m2 (s\<lparr>ru_world := w4\<rparr>) = (m', s', Ret None)"
    using assms(3,4) l hs u by (simp add: grpcserver_Start_def Let_def memory_registrar_def m2_def sid_def w4_def)
  from serve_on_effect [OF this] obtain srv where m': "m' = m2" and w: "ru_world s' = gl_Serve L srv l w4" by auto
  have "get w3 = get (ru_world s)"
    using k_uuid [of "gl_SetServing L hs True w1"] k_serving [of hs True w1] k_listen [of _ "ru_world s"] l u
    by (metis fst_conv)
  moreover have "get (ru_world s') = Register (instance_announced m2 sid) (get w3)"
    using assms(1) by (simp add: w k_serve w4_def lens_def)
  moreover have "instance_announced m2 sid = instance_announced m sid" by (simp add: m2_def instance_announced_def)
  ultimately show ?thesis by (simp add: m' m2_def sid_def)
qed

lemma Stop_withdraws:
  assumes "lens get put" and "lib_keeps get L" and "gs_registrar m = Some (memory_registrar get put)"
    and "gs_serviceID m \<noteq> []"
  shows "get (ru_world (fst (snd (grpcserver_Stop L ev m s)))) = Deregister (gs_serviceID m) (get (ru_world s))"
  using assms
  by (auto simp: grpcserver_Stop_def Let_def memory_registrar_def lens_def lib_keeps_def split: option.splits)

text \<open>A started server is found in the registry, and a stopped one is not. With the in-memory
  registry as registrar, a successful \<open>Start\<close> adds exactly one instance: an identifier that begins
  with the service name, the host derived from the listen address and the configured port, so that
  resolving the service name includes it. Stopping the server then, however the wait ends, leaves
  the registry as it was before the start, if the identifier was not taken.\<close>

theorem server_announced_until_stopped:
  assumes "lens get put" and "lib_keeps get L" and "gs_registrar m = Some (memory_registrar get put)"
    and "registry_ok (get (ru_world s))" and "grpcserver_Start L m s = (m', s', Ret None)"
    and "map_of (services (get (ru_world s))) (gs_serviceID m') = None"
  shows "let i = instance_announced m (gs_serviceID m') in
     map_of (services (get (ru_world s'))) = (map_of (services (get (ru_world s))))(si_ID i \<mapsto> i) \<and>
     i \<in> set (Resolve (gs_serviceName m) (get (ru_world s'))) \<and>
     map_of (services (get (ru_world (fst (snd (grpcserver_Stop L ev m' s')))))) = map_of (services (get (ru_world s)))"
proof -
  obtain u where sid: "gs_serviceID m' = gs_serviceName m @ ''-'' @ u" and reg: "gs_registrar m' = gs_registrar m"
    and w: "get (ru_world s') = Register (instance_announced m (gs_serviceID m')) (get (ru_world s))"
    using Start_announces [OF assms(1,2,3,5)] by blast
  let ?i = "instance_announced m (gs_serviceID m')"
  have id: "si_ID ?i = gs_serviceID m'" and nm: "si_Name ?i = gs_serviceName m" by (simp_all add: instance_announced_def)
  have ok: "registry_ok (get (ru_world s'))" unfolding w by (rule mr.ok_register [OF assms(4)])
  have view: "map_of (services (get (ru_world s'))) = (map_of (services (get (ru_world s))))(si_ID ?i \<mapsto> ?i)"
    unfolding w by (rule mr.view_register [OF assms(4)])
  have "?i \<in> set (Resolve (gs_serviceName m) (get (ru_world s')))"
    unfolding mr.resolve_view [OF ok] view by (simp add: nm)
  moreover have "map_of (services (get (ru_world (fst (snd (grpcserver_Stop L ev m' s')))))) =
      (map_of (services (get (ru_world s'))))(gs_serviceID m' := None)"
    using Stop_withdraws [OF assms(1,2), of m' ev s'] assms(3) reg sid mr.view_deregister [OF ok] by simp
  moreover have "(map_of (services (get (ru_world s'))))(gs_serviceID m' := None) = map_of (services (get (ru_world s)))"
    using assms(6) by (auto simp: view id fun_eq_iff)
  ultimately show ?thesis using view by (simp add: Let_def)
qed

text \<open>A start whose registration fails leaves a listener open. \<open>Start\<close> then returns the registrar's
  error, but the socket stays bound, no goroutine serves it, and the module reports that it is
  healthy; it has an identifier, so that a later \<open>Stop\<close> would deregister it.\<close>

theorem failed_registration_leaks_listener:
  assumes "gl_Listen L (Address (gs_address m) (gs_port m)) (ru_world s) = (w1, Inr l)" and "gs_health m = Some hs"
    and "gs_registrar m = Some r" and "gl_uuid L (gl_SetServing L hs True w1) = (w3, u)"
    and "rg_Register r (instance_announced m (gs_serviceName m @ ''-'' @ u)) w3 = (w4, Some e)"
  shows "\<exists>m' s'. grpcserver_Start L m s = (m', s', Ret (Some e)) \<and> gs_listener m' = Some l \<and> ru_world s' = w4 \<and>
           grpcserver_Health m' = None \<and> gs_serviceID m' \<noteq> []"
proof -
  have "instance_announced (m\<lparr>gs_listener := Some l, gs_serviceID := sid\<rparr>) sid = instance_announced m sid" for sid
    by (simp add: instance_announced_def)
  with assms show ?thesis by (simp add: grpcserver_Start_def Let_def grpcserver_Health_def)
qed

lemma announced_address:
  "si_Address (instance_announced (fst (grpcserver_Init L as_registrar sv m s)) sid) =
     (let ip = grpc_ListenIP (c_GRPC (ru_cfg s)) in if ip \<in> {[], ''0.0.0.0'', ''::''} then ''127.0.0.1'' else ip)"
proof -
  have "gs_address (fst (grpcserver_Init L as_registrar sv m s)) = gs_address (configured (ru_cfg s) (ru_logger s) m)"
    by (simp add: grpcserver_Init_def Let_def case_prod_beta)
  then show ?thesis by (simp add: instance_announced_def hostForRegistry_def configured_def Let_def)
qed

text \<open>The configured register address is never used. Whatever \<open>grpc.register_ip\<close> is, \<open>Init\<close> leaves the
  server in the same state, so the announced address is that of the listen address, and a server
  that listens on every interface announces the loopback address.\<close>

theorem register_ip_ignored:
  "fst (grpcserver_Init L as_registrar sv m (s\<lparr>ru_cfg := (ru_cfg s)\<lparr>c_GRPC := (c_GRPC (ru_cfg s))\<lparr>grpc_RegisterIP := ip\<rparr>\<rparr>\<rparr>)) =
     fst (grpcserver_Init L as_registrar sv m s) \<and>
   (let m' = fst (grpcserver_Init L as_registrar sv m s) in
    si_Address (instance_announced m' sid) =
      (let ip = grpc_ListenIP (c_GRPC (ru_cfg s)) in if ip \<in> {[], ''0.0.0.0'', ''::''} then ''127.0.0.1'' else ip))"
proof -
  let ?s = "s\<lparr>ru_cfg := (ru_cfg s)\<lparr>c_GRPC := (c_GRPC (ru_cfg s))\<lparr>grpc_RegisterIP := ip\<rparr>\<rparr>\<rparr>"
  have "configured (ru_cfg ?s) (ru_logger ?s) m = configured (ru_cfg s) (ru_logger s) m" by (simp add: configured_def)
  moreover have "rt_Get k ?s = rt_Get k s" "ru_world ?s = ru_world s" for k by (simp_all add: rt_Get_def)
  ultimately have "fst (grpcserver_Init L as_registrar sv m ?s) = fst (grpcserver_Init L as_registrar sv m s)"
    unfolding grpcserver_Init_def Let_def case_prod_beta fst_conv by presburger
  then show ?thesis by (simp add: announced_address Let_def)
qed

text \<open>A world that is just a registry, on which the library does nothing.\<close>

definition demo_grpcd :: "Registry grpcd_lib" where
  "demo_grpcd =
     \<lparr>gl_NewServer = (\<lambda>_ w. (w, 0)), gl_NewHealth = (\<lambda>w. (w, 1)), gl_RegisterHealth = (\<lambda>_ _ w. w),
      gl_SetServing = (\<lambda>_ _ w. w), gl_Listen = (\<lambda>_ w. (w, Inr 2)), gl_Serve = (\<lambda>_ _ w. w), gl_GracefulStop = (\<lambda>_ w. w),
      gl_StopServer = (\<lambda>_ w. w), gl_uuid = (\<lambda>w. (w, ''77''))\<rparr>"

definition demo_server :: "Registry registrar \<Rightarrow> Registry grpcserver" where
  "demo_server r =
     \<lparr>gs_serviceName = ''todo'', gs_address = ''0.0.0.0'', gs_port = 9000, gs_server = Some 0, gs_health = Some 1,
      gs_listener = None, gs_registers = [], gs_registrar = Some r, gs_serviceID = [], gs_logger = None\<rparr>"

definition demo_rt :: "(Registry, unit) runtime" where
  "demo_rt = \<lparr>ru_cfg = Default, ru_logger = defaultSlog Default, ru_coreLog = defaultSlog Default, ru_values = [],
     ru_log = [], ru_world = NewRegistry\<rparr>"

theorem server_announced_until_stopped_witness:
  "\<exists>m' s' i. grpcserver_Start demo_grpcd (demo_server (memory_registrar id (\<lambda>r _. r))) demo_rt = (m', s', Ret None) \<and>
     i \<in> set (Resolve ''todo'' (ru_world s')) \<and> si_Address i = ''127.0.0.1'' \<and>
     map_of (services (ru_world (fst (snd (grpcserver_Stop demo_grpcd TimerFired m' s'))))) = map_of []"
proof -
  let ?m = "demo_server (memory_registrar id (\<lambda>r _. r))"
  have lens: "lens id (\<lambda>r _. r)" and keeps: "lib_keeps id demo_grpcd"
    by (simp_all add: lens_def lib_keeps_def demo_grpcd_def)
  have reg: "gs_registrar ?m = Some (memory_registrar id (\<lambda>r _. r))" and nm: "gs_serviceName ?m = ''todo''"
    by (simp_all add: demo_server_def)
  have ok: "registry_ok (id (ru_world demo_rt))" and none: "services (ru_world demo_rt) = []"
    by (simp_all add: demo_rt_def NewRegistry_def registry_ok_def)
  obtain m' s' where start: "grpcserver_Start demo_grpcd ?m demo_rt = (m', s', Ret None)"
    by (simp add: grpcserver_Start_def demo_grpcd_def demo_server_def serve_on_def memory_registrar_def Let_def)
  have "map_of (services (id (ru_world demo_rt))) (gs_serviceID m') = None" by (simp add: none)
  from server_announced_until_stopped [OF lens keeps reg ok start this, of TimerFired] start
  show ?thesis
    by (intro exI [of _ m'] exI [of _ s'] exI [of _ "instance_announced ?m (gs_serviceID m')"])
       (simp add: Let_def none nm instance_announced_def hostForRegistry_def demo_server_def)
qed

theorem failed_registration_leaks_listener_witness:
  "\<exists>m' s'. grpcserver_Start demo_grpcd
     (demo_server \<lparr>rg_Register = (\<lambda>i w. (w, Some (PlainError ''registry down''))), rg_Deregister = (\<lambda>i w. (w, None))\<rparr>) demo_rt =
       (m', s', Ret (Some (PlainError ''registry down''))) \<and> gs_listener m' = Some 2 \<and> grpcserver_Health m' = None"
  using failed_registration_leaks_listener [of demo_grpcd
      "demo_server \<lparr>rg_Register = (\<lambda>i w. (w, Some (PlainError ''registry down''))), rg_Deregister = (\<lambda>i w. (w, None))\<rparr>" demo_rt]
  by (force simp: demo_grpcd_def demo_server_def)

end
