(* ===== verification/SF_Todo.thy ===== *)
theory SF_Todo
  imports SF_Config "HOL-Library.Char_ord" "HOL-Library.List_Lexorder"
begin

text \<open>
  The example service that \<open>svcforge new\<close> writes (\<open>templates/generator.go\<close>): repository, service and
  handlers of the todos as the templates have them, and what the item service shares with it.

  A repository is its counter and its map; identifiers are decimal numerals, compared as strings.
  The counter is an \<open>int64\<close>, pages are \<open>int32\<close>, and both wrap. A time is a number of nanoseconds.
\<close>

section \<open>Shared by both services\<close>

definition nextID :: "int \<Rightarrow> int \<times> string" where
  "nextID seq = (let s = wrap64 (seq + 1) in (s, itoa s))"

text \<open>The end of \<open>List\<close>: a page of the sorted matches. A slice with a negative bound panics.\<close>

definition slice_page :: "'a list \<Rightarrow> int \<Rightarrow> int \<Rightarrow> ('a list \<times> int) outcome" where
  "slice_page matched offset limit =
     (let tot = int (length matched)
      in if offset \<ge> tot then Ret ([], tot)
         else (let stop = min (offset + limit) tot
               in if offset < 0 \<or> stop < offset then Panic ''slice bounds out of range''
                  else Ret (take (nat (stop - offset)) (drop (nat offset) matched), tot)))"

definition defaultPageSize :: int where "defaultPageSize = 20"
definition maxPageSize :: int where "maxPageSize = 100"

definition normalizePage :: "int \<Rightarrow> int \<Rightarrow> int \<times> int" where
  "normalizePage page pageSize =
     (if page < 1 then 1 else page, if pageSize < 1 \<or> pageSize > maxPageSize then defaultPageSize else pageSize)"

definition page_offset :: "int \<Rightarrow> int \<Rightarrow> int" where
  "page_offset page pageSize = wrap32 (wrap32 (page - 1) * pageSize)"

definition unix_epoch :: int where "unix_epoch = 62135596800"

definition Unix :: "int \<Rightarrow> int" where
  "Unix t = t div second - unix_epoch"

section \<open>Todos: model and repository\<close>

record Todo =
  td_ID :: string
  td_Title :: string
  td_Content :: string
  td_Done :: bool
  td_CreatedAt :: int
  td_UpdatedAt :: int

definition ErrTodoNotFound :: go_error where "ErrTodoNotFound = Sentinel ''todo not found''"
definition ErrInvalidTitle :: go_error where "ErrInvalidTitle = Sentinel ''title must be 1-128 characters''"

record TodoRepo =
  tr_seq :: int
  tr_todos :: "(string, Todo) gomap"

definition todo_store :: "int \<Rightarrow> Todo \<Rightarrow> TodoRepo \<Rightarrow> TodoRepo \<times> Todo" where
  "todo_store now t r =
     (case nextID (tr_seq r) of
        (s, i) \<Rightarrow>
          (let t' = t\<lparr>td_ID := i, td_CreatedAt := now, td_UpdatedAt := now\<rparr>
           in (r\<lparr>tr_seq := s, tr_todos := AList.update i t' (tr_todos r)\<rparr>, t')))"

definition new_todo :: "string \<Rightarrow> string \<Rightarrow> bool \<Rightarrow> Todo" where
  "new_todo title content don =
     \<lparr>td_ID = [], td_Title = title, td_Content = content, td_Done = don, td_CreatedAt = 0, td_UpdatedAt = 0\<rparr>"

definition todo_seed :: "int \<Rightarrow> TodoRepo \<Rightarrow> TodoRepo" where
  "todo_seed now r =
     fold (\<lambda>t r. fst (todo_store now t r))
       [new_todo ''Try service-forge'' ''Run the example-service end to end'' True,
        new_todo ''Read the docs'' ''Learn how ports and adapters fit together'' False,
        new_todo ''Build your own service'' ''Copy example-service and rename the resource'' False] r"

definition NewTodoRepo :: "int \<Rightarrow> TodoRepo" where
  "NewTodoRepo now = todo_seed now \<lparr>tr_seq = 0, tr_todos = []\<rparr>"

definition todo_Create :: "int \<Rightarrow> Todo \<Rightarrow> TodoRepo \<Rightarrow> TodoRepo \<times> Todo result" where
  "todo_Create now t r = (case todo_store now t r of (r', t') \<Rightarrow> (r', Inr t'))"

definition todo_FindByID :: "string \<Rightarrow> TodoRepo \<Rightarrow> Todo result" where
  "todo_FindByID i r = (case map_of (tr_todos r) i of None \<Rightarrow> Inl ErrTodoNotFound | Some t \<Rightarrow> Inr t)"

definition todo_matched :: "bool \<Rightarrow> TodoRepo \<Rightarrow> Todo list" where
  "todo_matched onlyPending r =
     rev (sort_key td_ID (filter (\<lambda>t. \<not> (onlyPending \<and> td_Done t)) (map snd (tr_todos r))))"

definition todo_List :: "bool \<Rightarrow> int \<Rightarrow> int \<Rightarrow> TodoRepo \<Rightarrow> (Todo list \<times> int) outcome" where
  "todo_List onlyPending offset limit r = slice_page (todo_matched onlyPending r) offset limit"

definition todo_Update :: "int \<Rightarrow> Todo \<Rightarrow> TodoRepo \<Rightarrow> TodoRepo \<times> Todo result" where
  "todo_Update now t r =
     (case map_of (tr_todos r) (td_ID t) of
        None \<Rightarrow> (r, Inl ErrTodoNotFound)
      | Some existing \<Rightarrow>
          (let u = existing\<lparr>td_Title := td_Title t, td_Content := td_Content t, td_Done := td_Done t, td_UpdatedAt := now\<rparr>
           in (r\<lparr>tr_todos := AList.update (td_ID u) u (tr_todos r)\<rparr>, Inr u)))"

definition todo_Delete :: "string \<Rightarrow> TodoRepo \<Rightarrow> TodoRepo \<times> go_error option" where
  "todo_Delete i r =
     (case map_of (tr_todos r) i of
        None \<Rightarrow> (r, Some ErrTodoNotFound)
      | Some _ \<Rightarrow> (r\<lparr>tr_todos := AList.delete i (tr_todos r)\<rparr>, None))"

section \<open>Todos: service\<close>

record TodoResult =
  tt_ID :: string
  tt_Title :: string
  tt_Content :: string
  tt_Done :: bool
  tt_CreatedAt :: int
  tt_UpdatedAt :: int

definition toTodoResult :: "Todo \<Rightarrow> TodoResult" where
  "toTodoResult t =
     \<lparr>tt_ID = td_ID t, tt_Title = td_Title t, tt_Content = td_Content t, tt_Done = td_Done t,
      tt_CreatedAt = Unix (td_CreatedAt t), tt_UpdatedAt = Unix (td_UpdatedAt t)\<rparr>"

definition validateTitle :: "string \<Rightarrow> go_error option" where
  "validateTitle title = (if length title < 1 \<or> length title > 128 then Some ErrInvalidTitle else None)"

definition CreateTodo :: "int \<Rightarrow> string \<Rightarrow> string \<Rightarrow> TodoRepo \<Rightarrow> TodoRepo \<times> TodoResult result" where
  "CreateTodo now title content r =
     (case validateTitle title of
        Some e \<Rightarrow> (r, Inl e)
      | None \<Rightarrow>
          (case todo_Create now (new_todo title content False) r of
             (r', Inl e) \<Rightarrow> (r', Inl e)
           | (r', Inr t) \<Rightarrow> (r', Inr (toTodoResult t))))"

definition GetTodo :: "string \<Rightarrow> TodoRepo \<Rightarrow> TodoResult result" where
  "GetTodo i r = (case todo_FindByID i r of Inl e \<Rightarrow> Inl e | Inr t \<Rightarrow> Inr (toTodoResult t))"

record ListTodosResult =
  lt_Todos :: "TodoResult list"
  lt_Page :: int
  lt_PageSize :: int
  lt_Total :: int

definition ListTodos :: "bool \<Rightarrow> int \<Rightarrow> int \<Rightarrow> TodoRepo \<Rightarrow> ListTodosResult outcome" where
  "ListTodos onlyPending page0 pageSize0 r =
     (case normalizePage page0 pageSize0 of
        (page, pageSize) \<Rightarrow>
          (case todo_List onlyPending (page_offset page pageSize) pageSize r of
             Panic m \<Rightarrow> Panic m
           | Ret (todos, tot) \<Rightarrow>
               Ret \<lparr>lt_Todos = map toTodoResult todos, lt_Page = page, lt_PageSize = pageSize, lt_Total = tot\<rparr>))"

text \<open>
  \<open>UpdateTodo\<close> reads a copy, changes it and writes it back: \<open>todo_edit\<close> is the change, and between the
  two repository calls another request may run (\<open>between\<close>).
\<close>

definition todo_edit :: "string \<Rightarrow> string \<Rightarrow> bool \<Rightarrow> Todo \<Rightarrow> Todo result" where
  "todo_edit title content don t =
     (case (if title \<noteq> [] then validateTitle title else None) of
        Some e \<Rightarrow> Inl e
      | None \<Rightarrow>
          Inr (t\<lparr>td_Title := (if title \<noteq> [] then title else td_Title t),
                 td_Content := (if content \<noteq> [] then content else td_Content t), td_Done := don\<rparr>))"

definition UpdateTodo ::
  "(TodoRepo \<Rightarrow> TodoRepo) \<Rightarrow> int \<Rightarrow> string \<Rightarrow> string \<Rightarrow> string \<Rightarrow> bool \<Rightarrow> TodoRepo \<Rightarrow> TodoRepo \<times> TodoResult result" where
  "UpdateTodo between now i title content don r =
     (case todo_FindByID i r of
        Inl e \<Rightarrow> (r, Inl e)
      | Inr t \<Rightarrow>
          (case todo_edit title content don t of
             Inl e \<Rightarrow> (r, Inl e)
           | Inr t' \<Rightarrow>
               (case todo_Update now t' (between r) of
                  (r', Inl e) \<Rightarrow> (r', Inl e)
                | (r', Inr u) \<Rightarrow> (r', Inr (toTodoResult u)))))"

definition DeleteTodo :: "string \<Rightarrow> TodoRepo \<Rightarrow> TodoRepo \<times> go_error option" where
  "DeleteTodo i r = todo_Delete i r"

section \<open>Todos: handler\<close>

record proto_Todo =
  pt_Id :: string
  pt_Title :: string
  pt_Content :: string
  pt_Done :: bool
  pt_CreatedAt :: int
  pt_UpdatedAt :: int

text \<open>Timestamps are kept as the seconds of \<open>timestamppb.New(time.Unix(s, 0))\<close>.\<close>

definition toProtoTodo :: "TodoResult \<Rightarrow> proto_Todo" where
  "toProtoTodo t =
     \<lparr>pt_Id = tt_ID t, pt_Title = tt_Title t, pt_Content = tt_Content t, pt_Done = tt_Done t,
      pt_CreatedAt = tt_CreatedAt t, pt_UpdatedAt = tt_UpdatedAt t\<rparr>"

definition todo_toGRPCError :: "errors_pkg \<Rightarrow> go_error \<Rightarrow> go_error" where
  "todo_toGRPCError E err =
     (if errors_Is err ''todo not found'' then New E CodeNotFound (Error err)
      else if errors_Is err ''title must be 1-128 characters'' then New E CodeInvalidArgument (Error err)
      else New E CodeInternal (Error err))"

definition handle_result :: "(go_error \<Rightarrow> go_error) \<Rightarrow> ('a \<Rightarrow> 'b) \<Rightarrow> 'a result \<Rightarrow> 'b result" where
  "handle_result f g x = (case x of Inl e \<Rightarrow> Inl (f e) | Inr y \<Rightarrow> Inr (g y))"

definition Ping :: "string \<Rightarrow> string result" where "Ping message = Inr message"

definition handler_CreateTodo :: "errors_pkg \<Rightarrow> int \<Rightarrow> string \<Rightarrow> string \<Rightarrow> TodoRepo \<Rightarrow> TodoRepo \<times> proto_Todo result" where
  "handler_CreateTodo E now title content r =
     (case CreateTodo now title content r of (r', x) \<Rightarrow> (r', handle_result (todo_toGRPCError E) toProtoTodo x))"

definition handler_GetTodo :: "errors_pkg \<Rightarrow> string \<Rightarrow> TodoRepo \<Rightarrow> proto_Todo result" where
  "handler_GetTodo E i r = handle_result (todo_toGRPCError E) toProtoTodo (GetTodo i r)"

definition handler_ListTodos ::
  "errors_pkg \<Rightarrow> bool \<Rightarrow> int \<Rightarrow> int \<Rightarrow> TodoRepo \<Rightarrow> (proto_Todo list \<times> int \<times> int \<times> int) outcome" where
  "handler_ListTodos E onlyPending page pageSize r =
     (case ListTodos onlyPending page pageSize r of
        Panic m \<Rightarrow> Panic m
      | Ret res \<Rightarrow> Ret (map toProtoTodo (lt_Todos res), lt_Page res, lt_PageSize res, lt_Total res))"

definition handler_UpdateTodo ::
  "errors_pkg \<Rightarrow> (TodoRepo \<Rightarrow> TodoRepo) \<Rightarrow> int \<Rightarrow> string \<Rightarrow> string \<Rightarrow> string \<Rightarrow> bool \<Rightarrow> TodoRepo \<Rightarrow>
   TodoRepo \<times> proto_Todo result" where
  "handler_UpdateTodo E between now i title content don r =
     (case UpdateTodo between now i title content don r of (r', x) \<Rightarrow> (r', handle_result (todo_toGRPCError E) toProtoTodo x))"

definition handler_DeleteTodo :: "errors_pkg \<Rightarrow> string \<Rightarrow> TodoRepo \<Rightarrow> TodoRepo \<times> go_error option" where
  "handler_DeleteTodo E i r =
     (case DeleteTodo i r of (r', e) \<Rightarrow> (r', map_option (todo_toGRPCError E) e))"

section \<open>The repository contract\<close>

text \<open>
  What the service layer relies on: a created entity gets an identifier nothing was stored under, is
  found under it and leaves the rest alone; updates and deletions change one entry or report that
  it is missing. \<open>room\<close> says that the identifier counter is not exhausted.
\<close>

locale repository_port =
  fixes create :: "int \<Rightarrow> 'e \<Rightarrow> 'r \<Rightarrow> 'r \<times> 'e result"
    and find :: "string \<Rightarrow> 'r \<Rightarrow> 'e result"
    and update :: "int \<Rightarrow> 'e \<Rightarrow> 'r \<Rightarrow> 'r \<times> 'e result"
    and delete :: "string \<Rightarrow> 'r \<Rightarrow> 'r \<times> go_error option"
    and eid :: "'e \<Rightarrow> string"
    and missing :: go_error
    and ok :: "'r \<Rightarrow> bool"
    and room :: "'r \<Rightarrow> bool"
  assumes create_new: "ok r \<Longrightarrow> room r \<Longrightarrow> \<exists>r' e'. create now e r = (r', Inr e') \<and> ok r' \<and>
      find (eid e') r = Inl missing \<and> find (eid e') r' = Inr e' \<and> (\<forall>j. j \<noteq> eid e' \<longrightarrow> find j r' = find j r)"
    and update_found: "ok r \<Longrightarrow> find (eid e) r = Inr x \<Longrightarrow> \<exists>r' u. update now e r = (r', Inr u) \<and> ok r' \<and>
      eid u = eid e \<and> find (eid e) r' = Inr u \<and> (\<forall>j. j \<noteq> eid e \<longrightarrow> find j r' = find j r)"
    and update_missing: "find (eid e) r = Inl y \<Longrightarrow> update now e r = (r, Inl missing)"
    and delete_found: "ok r \<Longrightarrow> find i r = Inr x \<Longrightarrow> \<exists>r'. delete i r = (r', None) \<and> ok r' \<and>
      find i r' = Inl missing \<and> (\<forall>j. j \<noteq> i \<longrightarrow> find j r' = find j r)"
    and delete_missing: "find i r = Inl y \<Longrightarrow> delete i r = (r, Some missing)"
begin

lemma created:
  assumes "ok r" and "room r" and "create now e r = (r', Inr e')"
  shows "ok r'" "find (eid e') r = Inl missing" "find (eid e') r' = Inr e'" "j \<noteq> eid e' \<Longrightarrow> find j r' = find j r"
  using create_new [OF assms(1,2), of now e] unfolding assms(3) prod.inject sum.inject by blast+

lemma create_delete:
  assumes "ok r" and "room r" and "create now e r = (r', Inr e')"
  shows "\<exists>r''. delete (eid e') r' = (r'', None) \<and> ok r'' \<and> (\<forall>j. find j r'' = find j r)"
proof -
  note c = created [OF assms]
  from delete_found [OF c(1,3)] obtain r'' where "delete (eid e') r' = (r'', None)" "ok r''"
    and d: "find (eid e') r'' = Inl missing" "\<forall>j. j \<noteq> eid e' \<longrightarrow> find j r'' = find j r'"
    by blast
  moreover have "find j r'' = find j r" for j
    using c(2) c(4) [of j] d by (cases "j = eid e'") auto
  ultimately show ?thesis by blast
qed

lemma create_twice:
  assumes "ok r" and "room r" and "create now e r = (r1, Inr e1)" and "room r1" and "create now2 d r1 = (r2, Inr e2)"
  shows "eid e1 \<noteq> eid e2 \<and> find (eid e1) r2 = Inr e1 \<and> find (eid e2) r2 = Inr e2"
proof -
  note c = created [OF assms(1,2,3)]
  note d = created [OF c(1) assms(4,5)]
  have ne: "eid e1 \<noteq> eid e2" using c(3) d(2) by auto
  with c(3) d(3) d(4) [OF ne] show ?thesis by simp
qed

end

text \<open>Identifiers are the numerals up to the counter.\<close>

definition ids_upto :: "int \<Rightarrow> (string, 'e) gomap \<Rightarrow> ('e \<Rightarrow> string) \<Rightarrow> bool" where
  "ids_upto seq m eid \<longleftrightarrow> gm_wf m \<and> 0 \<le> seq \<and> seq < 2 ^ 63 \<and>
     (\<forall>(i, e) \<in> set m. eid e = i \<and> (\<exists>k. 1 \<le> k \<and> k \<le> seq \<and> i = itoa k))"

lemma nextID_fresh:
  assumes "ids_upto seq m eid" and "seq < 2 ^ 63 - 1"
  shows "nextID seq = (seq + 1, itoa (seq + 1))" and "map_of m (itoa (seq + 1)) = None"
proof -
  show "nextID seq = (seq + 1, itoa (seq + 1))"
    using assms by (simp add: nextID_def ids_upto_def wrap64_id Let_def)
  show "map_of m (itoa (seq + 1)) = None"
  proof (rule ccontr)
    assume "map_of m (itoa (seq + 1)) \<noteq> None"
    then obtain e where "(itoa (seq + 1), e) \<in> set m" by (auto dest: map_of_SomeD)
    with assms(1) obtain k where "k \<le> seq" "itoa (seq + 1) = itoa k" by (auto simp: ids_upto_def)
    then show False using itoa_inj by fastforce
  qed
qed

lemma ids_upto_insert:
  assumes "ids_upto seq m eid" and "seq \<le> seq'" and "seq' < 2 ^ 63" and "eid e = i" and "\<exists>k. 1 \<le> k \<and> k \<le> seq' \<and> i = itoa k"
  shows "ids_upto seq' (AList.update i e m) eid"
proof -
  have "eid d = j \<and> (\<exists>k. 1 \<le> k \<and> k \<le> seq' \<and> j = itoa k)" if "(j, d) \<in> set (AList.update i e m)" for j d
  proof (cases "(j, d) = (i, e)")
    case True
    with assms(4,5) show ?thesis by simp
  next
    case False
    with that set_update_subset [of i e m] have "(j, d) \<in> set m" by blast
    with assms(1) obtain k where "eid d = j" "1 \<le> k" "k \<le> seq" "j = itoa k" unfolding ids_upto_def by blast
    with assms(2) show ?thesis by (blast intro: order_trans)
  qed
  moreover have "gm_wf (AList.update i e m)" "0 \<le> seq'" using assms(1,2) by (auto simp: ids_upto_def)
  ultimately show ?thesis using assms(3) unfolding ids_upto_def by blast
qed

lemma ids_upto_delete: "ids_upto seq m eid \<Longrightarrow> ids_upto seq (AList.delete i m) eid"
  using set_delete_subset [of i m] gm_wf_delete [of m i] unfolding ids_upto_def by blast

lemma ids_upto_SomeD:
  "ids_upto seq m eid \<Longrightarrow> map_of m i = Some e \<Longrightarrow> eid e = i \<and> (\<exists>k. 1 \<le> k \<and> k \<le> seq \<and> i = itoa k)"
  unfolding ids_upto_def by (auto dest: map_of_SomeD)

lemma ids_upto_new:
  assumes "ids_upto seq m eid" and "seq < 2 ^ 63 - 1" and "eid e = itoa (seq + 1)"
  shows "ids_upto (seq + 1) (AList.update (itoa (seq + 1)) e m) eid"
proof (rule ids_upto_insert [OF assms(1) _ _ assms(3)])
  have "0 \<le> seq" using assms(1) by (simp add: ids_upto_def)
  then show "\<exists>k. 1 \<le> k \<and> k \<le> seq + 1 \<and> itoa (seq + 1) = itoa k" by (intro exI [of _ "seq + 1"]) simp
qed (use assms(2) in simp_all)

lemma ids_upto_replace:
  assumes "ids_upto seq m eid" and "map_of m i = Some x" and "eid e = i"
  shows "ids_upto seq (AList.update i e m) eid"
proof (rule ids_upto_insert [OF assms(1) order_refl _ assms(3)])
  show "seq < 2 ^ 63" using assms(1) by (simp only: ids_upto_def)
  show "\<exists>k. 1 \<le> k \<and> k \<le> seq \<and> i = itoa k" using ids_upto_SomeD [OF assms(1,2)] by blast
qed

definition todo_ok :: "TodoRepo \<Rightarrow> bool" where
  "todo_ok r \<longleftrightarrow> ids_upto (tr_seq r) (tr_todos r) td_ID"

definition todo_room :: "TodoRepo \<Rightarrow> bool" where
  "todo_room r \<longleftrightarrow> tr_seq r < 2 ^ 63 - 1"

interpretation tp: repository_port todo_Create todo_FindByID todo_Update todo_Delete td_ID ErrTodoNotFound todo_ok todo_room
proof unfold_locales
  fix r :: TodoRepo and now and e :: Todo
  assume ok: "todo_ok r" and room: "todo_room r"
  let ?i = "itoa (tr_seq r + 1)"
  let ?e = "e\<lparr>td_ID := ?i, td_CreatedAt := now, td_UpdatedAt := now\<rparr>"
  let ?r = "r\<lparr>tr_seq := tr_seq r + 1, tr_todos := AList.update ?i ?e (tr_todos r)\<rparr>"
  note fresh = nextID_fresh [OF ok [unfolded todo_ok_def] room [unfolded todo_room_def]]
  have "todo_Create now e r = (?r, Inr ?e)" by (simp add: todo_Create_def todo_store_def fresh Let_def)
  moreover have "todo_ok ?r"
    using ids_upto_new [OF ok [unfolded todo_ok_def] room [unfolded todo_room_def], of ?e] by (simp add: todo_ok_def)
  ultimately show "\<exists>r' e'. todo_Create now e r = (r', Inr e') \<and> todo_ok r' \<and> todo_FindByID (td_ID e') r = Inl ErrTodoNotFound \<and>
      todo_FindByID (td_ID e') r' = Inr e' \<and> (\<forall>j. j \<noteq> td_ID e' \<longrightarrow> todo_FindByID j r' = todo_FindByID j r)"
    using fresh(2) by (intro exI [of _ ?r] exI [of _ ?e]) (simp add: todo_FindByID_def gomap)
next
  fix r :: TodoRepo and e x :: Todo and now
  assume ok: "todo_ok r" and "todo_FindByID (td_ID e) r = Inr x"
  then have x: "map_of (tr_todos r) (td_ID e) = Some x" by (simp add: todo_FindByID_def split: option.splits)
  note d = ids_upto_SomeD [OF ok [unfolded todo_ok_def] x]
  let ?u = "x\<lparr>td_Title := td_Title e, td_Content := td_Content e, td_Done := td_Done e, td_UpdatedAt := now\<rparr>"
  have "todo_ok (r\<lparr>tr_todos := AList.update (td_ID e) ?u (tr_todos r)\<rparr>)"
    using ids_upto_replace [OF ok [unfolded todo_ok_def] x, of ?u] d by (simp add: todo_ok_def)
  then show "\<exists>r' u. todo_Update now e r = (r', Inr u) \<and> todo_ok r' \<and> td_ID u = td_ID e \<and> todo_FindByID (td_ID e) r' = Inr u \<and>
      (\<forall>j. j \<noteq> td_ID e \<longrightarrow> todo_FindByID j r' = todo_FindByID j r)"
    using x d by (simp add: todo_Update_def todo_FindByID_def gomap Let_def)
next
  fix r :: TodoRepo and i x
  assume ok: "todo_ok r" and "todo_FindByID i r = Inr x"
  then have x: "map_of (tr_todos r) i = Some x" by (simp add: todo_FindByID_def split: option.splits)
  have "todo_ok (r\<lparr>tr_todos := AList.delete i (tr_todos r)\<rparr>)"
    using ok by (simp add: todo_ok_def ids_upto_delete)
  with x show "\<exists>r'. todo_Delete i r = (r', None) \<and> todo_ok r' \<and> todo_FindByID i r' = Inl ErrTodoNotFound \<and>
      (\<forall>j. j \<noteq> i \<longrightarrow> todo_FindByID j r' = todo_FindByID j r)"
    by (simp add: todo_Delete_def todo_FindByID_def gomap)
qed (auto simp: todo_FindByID_def todo_Update_def todo_Delete_def split: option.splits)

section \<open>Properties of the todo service\<close>

lemma validateTitle_None: "validateTitle title = None \<longleftrightarrow> 1 \<le> length title \<and> length title \<le> 128"
  by (cases title) (auto simp: validateTitle_def)

text \<open>A created todo can be read back. For a title of 1 to 128 bytes \<open>CreateTodo\<close> succeeds, with an
  identifier under which nothing was stored; \<open>GetTodo\<close> then returns what \<open>CreateTodo\<close> returned, with
  the title and content given, and every other todo is as before. For any other title it fails with
  the title error and the repository is unchanged.\<close>

theorem todo_create_get:
  assumes "todo_ok r" and "todo_room r"
  shows "case CreateTodo now title content r of
      (r', Inl e) \<Rightarrow> (length title < 1 \<or> 128 < length title) \<and> e = ErrInvalidTitle \<and> r' = r
    | (r', Inr t) \<Rightarrow> 1 \<le> length title \<and> length title \<le> 128 \<and> tt_Title t = title \<and> tt_Content t = content \<and> \<not> tt_Done t \<and>
        GetTodo (tt_ID t) r = Inl ErrTodoNotFound \<and> GetTodo (tt_ID t) r' = Inr t \<and>
        (\<forall>j. j \<noteq> tt_ID t \<longrightarrow> GetTodo j r' = GetTodo j r) \<and> todo_ok r'"
proof (cases "validateTitle title")
  case (Some e)
  then show ?thesis by (auto simp: CreateTodo_def validateTitle_def split: if_splits)
next
  case None
  let ?t = "new_todo title content False"
  obtain r' t where c: "todo_Create now ?t r = (r', Inr t)"
    using tp.create_new [OF assms] by blast
  have "td_Title t = title" "td_Content t = content" "\<not> td_Done t"
    using c by (auto simp: todo_Create_def todo_store_def new_todo_def Let_def split: prod.splits)
  moreover have "CreateTodo now title content r = (r', Inr (toTodoResult t))" by (simp add: CreateTodo_def None c)
  moreover have "1 \<le> length title \<and> length title \<le> 128" using None by (simp only: validateTitle_None)
  ultimately show ?thesis
    using tp.created [OF assms c] by (simp add: toTodoResult_def GetTodo_def)
qed

lemma empty_repo_ok: "todo_ok \<lparr>tr_seq = 0, tr_todos = []\<rparr>" "todo_room \<lparr>tr_seq = 0, tr_todos = []\<rparr>"
  by (simp_all add: todo_ok_def todo_room_def ids_upto_def)

theorem todo_create_get_witness:
  "case CreateTodo 5 ''write tests'' [] \<lparr>tr_seq = 0, tr_todos = []\<rparr> of
     (r', Inl e) \<Rightarrow> False | (r', Inr t) \<Rightarrow> GetTodo (tt_ID t) r' = Inr t"
  using todo_create_get [OF empty_repo_ok, of "''write tests''" "[]" 5]
  by (auto split: prod.splits sum.splits)

section \<open>Listing\<close>

lemma todo_matched_spec:
  assumes "todo_ok r"
  shows "sorted_wrt (\<lambda>a b. td_ID b < td_ID a) (todo_matched b r)"
    and "set (todo_matched b r) = {t \<in> ran (map_of (tr_todos r)). \<not> (b \<and> td_Done t)}"
proof -
  let ?f = "filter (\<lambda>t. \<not> (b \<and> td_Done t)) (map snd (tr_todos r))"
  have ids: "map td_ID (map snd (tr_todos r)) = map fst (tr_todos r)"
    using assms by (auto simp: todo_ok_def ids_upto_def)
  have wf: "distinct (map fst (tr_todos r))" using assms by (simp add: todo_ok_def ids_upto_def gm_wf_def)
  then have "distinct (map td_ID ?f)" using ids by (metis distinct_map_filter)
  then have "sorted_wrt (<) (map td_ID (sort_key td_ID ?f))"
    by (metis distinct_map distinct_sort set_sort sorted_sort_key strict_sorted_iff)
  then show "sorted_wrt (\<lambda>a b. td_ID b < td_ID a) (todo_matched b r)"
    by (simp add: todo_matched_def sorted_wrt_rev sorted_wrt_map)
  show "set (todo_matched b r) = {t \<in> ran (map_of (tr_todos r)). \<not> (b \<and> td_Done t)}"
    using wf by (auto simp: todo_matched_def ran_distinct)
qed

lemma slice_page_ok:
  "0 \<le> offset \<Longrightarrow> 0 \<le> limit \<Longrightarrow>
   slice_page xs offset limit = Ret (take (nat limit) (drop (nat offset) xs), int (length xs))"
proof (cases "int (length xs) \<le> offset + limit")
  case True
  assume "0 \<le> offset" "0 \<le> limit"
  with True show ?thesis by (auto simp: slice_page_def Let_def min_def nat_diff_distrib)
next
  case False
  assume "0 \<le> offset" "0 \<le> limit"
  with False show ?thesis by (auto simp: slice_page_def Let_def min_def)
qed

lemma concat_chunks: "concat (map (\<lambda>p. take k (drop (p * k) xs)) [0..<n]) = take (n * k) xs"
proof (induction n)
  case (Suc n)
  have "take (Suc n * k) xs = take (n * k) xs @ take k (drop (n * k) xs)"
    using take_add [of "n * k" k xs] by (simp add: add.commute)
  with Suc show ?case by simp
qed simp

lemma page_offset_exact:
  assumes "1 \<le> page" and "(page - 1) * sz < 2147483648" and "1 \<le> sz"
  shows "page_offset page sz = (page - 1) * sz"
proof -
  have "page - 1 \<le> (page - 1) * sz" using assms mult_left_mono [of 1 sz "page - 1"] by simp
  with assms have "wrap32 (page - 1) = page - 1" by (intro wrap32_id) auto
  moreover have "wrap32 ((page - 1) * sz) = (page - 1) * sz"
    using assms by (intro wrap32_id) (auto intro: order_trans [OF _ mult_nonneg_nonneg])
  ultimately show ?thesis by (simp add: page_offset_def)
qed

lemma ListTodos_page:
  assumes "1 \<le> page" and "1 \<le> sz" and "sz \<le> 100" and "(page - 1) * sz < 2147483648"
  shows "ListTodos b page sz r =
    Ret \<lparr>lt_Todos = map toTodoResult (take (nat sz) (drop (nat ((page - 1) * sz)) (todo_matched b r))),
         lt_Page = page, lt_PageSize = sz, lt_Total = int (length (todo_matched b r))\<rparr>"
  using assms
  by (simp add: ListTodos_def normalizePage_def maxPageSize_def todo_List_def page_offset_exact slice_page_ok)

text \<open>With identifiers of one length the order of the list is the order of creation, newest first.\<close>

lemma less_snoc:
  "length xs = length ys \<Longrightarrow> xs @ [a] < ys @ [b] \<longleftrightarrow> xs < ys \<or> xs = ys \<and> a < (b :: char)"
  by (induction xs ys rule: list_induct2) auto

lemma digit_char_less: "a < 10 \<Longrightarrow> b < 10 \<Longrightarrow> digit_char a < digit_char b \<longleftrightarrow> a < b"
  by (simp add: less_char_def digit_char_def)

lemma nat_digits_less:
  "length (nat_digits m) = length (nat_digits n) \<Longrightarrow> nat_digits m < nat_digits n \<Longrightarrow> m < n"
proof (induction m arbitrary: n rule: nat_digits.induct)
  case (1 m)
  show ?case
  proof (cases "m < 10 \<or> n < 10")
    case True
    with "1.prems" show ?thesis
      by (subst (asm) (1 2 3 4) nat_digits.simps) (auto simp: digit_char_less nat_digits_ne split: if_splits)
  next
    case False
    then have big: "\<not> m < 10" "\<not> n < 10" by auto
    have d: "nat_digits k = nat_digits (k div 10) @ [digit_char (k mod 10)]" if "\<not> k < 10" for k :: nat
      using that by (subst nat_digits.simps) simp
    have "length (nat_digits (m div 10)) = length (nat_digits (n div 10))"
      using "1.prems"(1) by (simp add: d [OF big(1)] d [OF big(2)])
    moreover from this "1.prems"(2) have
      "nat_digits (m div 10) < nat_digits (n div 10) \<or> nat_digits (m div 10) = nat_digits (n div 10) \<and> m mod 10 < n mod 10"
      by (simp add: d [OF big(1)] d [OF big(2)] less_snoc digit_char_less)
    ultimately have "m div 10 < n div 10 \<or> m div 10 = n div 10 \<and> m mod 10 < n mod 10"
      using "1.IH" [OF big(1)] by (auto dest: nat_digits_inj)
    moreover have "m = 10 * (m div 10) + m mod 10" "n = 10 * (n div 10) + n mod 10" "m mod 10 < 10" "n mod 10 < 10" by simp_all
    ultimately show ?thesis by linarith
  qed
qed

lemma todo_matched_newest:
  assumes "todo_ok r" and "\<forall>i \<in> dom (map_of (tr_todos r)). length i = d"
  shows "\<exists>ks. map td_ID (todo_matched b r) = map itoa ks \<and> sorted_wrt (>) ks"
proof -
  let ?M = "todo_matched b r"
  have num: "\<exists>k. 1 \<le> k \<and> td_ID t = itoa k \<and> length (td_ID t) = d" if "t \<in> set ?M" for t
  proof -
    from that obtain i where i: "map_of (tr_todos r) i = Some t"
      using todo_matched_spec(2) [OF assms(1), of b] by (auto simp: ran_def)
    with ids_upto_SomeD [OF assms(1) [unfolded todo_ok_def] i] assms(2) show ?thesis by auto
  qed
  then obtain key where key: "\<forall>t \<in> set ?M. 1 \<le> key t \<and> td_ID t = itoa (key t) \<and> length (td_ID t) = d" by metis
  have "sorted_wrt (\<lambda>x y. key y < key x) ?M"
  proof (rule sorted_wrt_mono_rel [OF _ todo_matched_spec(1) [OF assms(1)]])
    fix x y assume "x \<in> set ?M" "y \<in> set ?M" and lt: "td_ID y < td_ID x"
    then have kx: "1 \<le> key x \<and> td_ID x = itoa (key x) \<and> length (td_ID x) = d"
      and ky: "1 \<le> key y \<and> td_ID y = itoa (key y) \<and> length (td_ID y) = d" using key by blast+
    then have pos: "1 \<le> key x" "1 \<le> key y" and len: "length (td_ID x) = length (td_ID y)"
      and i: "td_ID x = itoa (key x)" "td_ID y = itoa (key y)" by (blast, blast, metis, blast, blast)
    from i pos have k: "td_ID x = nat_digits (nat (key x))" "td_ID y = nat_digits (nat (key y))" by (simp_all add: itoa_def)
    with lt len have "nat (key y) < nat (key x)" by (intro nat_digits_less) simp_all
    with pos show "key y < key x" by simp
  qed
  moreover have "map td_ID ?M = map itoa (map key ?M)" using key by simp
  ultimately show ?thesis by (intro exI [of _ "map key ?M"] conjI) (simp_all add: sorted_wrt_map)
qed

lemma list_pages:
  assumes "1 \<le> sz" and "sz \<le> 100" and "n * nat sz < 2147483648" and "length (todo_matched b r) \<le> n * nat sz"
  shows "\<exists>pages. map (\<lambda>p. ListTodos b (int p + 1) sz r) [0..<n] = map Ret pages \<and>
            concat (map lt_Todos pages) = map toTodoResult (todo_matched b r) \<and>
            list_all (\<lambda>pg. lt_Total pg = int (length (todo_matched b r))) pages"
proof -
  let ?M = "todo_matched b r"
  define pg where "pg p = \<lparr>lt_Todos = map toTodoResult (take (nat sz) (drop (p * nat sz) ?M)),
      lt_Page = int p + 1, lt_PageSize = sz, lt_Total = int (length ?M)\<rparr>" for p :: nat
  have "ListTodos b (int p + 1) sz r = Ret (pg p)" if "p < n" for p
  proof -
    have "p * nat sz \<le> n * nat sz" using that by simp
    with assms(3) have "p * nat sz < 2147483648" by linarith
    then have "int (p * nat sz) < 2147483648" by linarith
    then have "int p * sz < 2147483648" using assms(1) by simp
    moreover have "nat (int p * sz) = p * nat sz" using assms(1) by (simp add: nat_mult_distrib)
    ultimately show ?thesis using ListTodos_page [of "int p + 1" sz b r] assms(1,2) by (simp add: pg_def)
  qed
  then have "map (\<lambda>p. ListTodos b (int p + 1) sz r) [0..<n] = map Ret (map pg [0..<n])" by simp
  moreover have "concat (map lt_Todos (map pg [0..<n])) = map toTodoResult ?M"
  proof -
    have "map lt_Todos (map pg [0..<n]) = map (map toTodoResult) (map (\<lambda>p. take (nat sz) (drop (p * nat sz) ?M)) [0..<n])"
      by (simp add: pg_def)
    then show ?thesis using assms(4) by (simp only: map_concat [symmetric] concat_chunks) simp
  qed
  moreover have "list_all (\<lambda>q. lt_Total q = int (length ?M)) (map pg [0..<n])" by (simp add: pg_def list_all_iff)
  ultimately show ?thesis by blast
qed

text \<open>C34: paging shows every todo once. For a page size from 1 to 100 and page numbers whose offset
  fits in an \<open>int32\<close>, the pages 1 to \<open>n\<close> are all returned if they have room for the matching todos, each
  with the number of matching todos as its total; one after the other they hold exactly the matching
  todos, each of them once. If the stored identifiers have the same number of digits, the pages are
  newest first: the identifiers, which are numbered in the order of creation, go down.\<close>

theorem list_pages_cover:
  assumes "todo_ok r" and "1 \<le> sz" and "sz \<le> 100" and "n * nat sz < 2147483648"
    and "card {t \<in> ran (map_of (tr_todos r)). \<not> (b \<and> td_Done t)} \<le> n * nat sz"
  shows "\<exists>pages. map (\<lambda>p. ListTodos b (int p + 1) sz r) [0..<n] = map Ret pages \<and>
     (\<forall>pg \<in> set pages. lt_Total pg = int (card {t \<in> ran (map_of (tr_todos r)). \<not> (b \<and> td_Done t)})) \<and>
     set (concat (map lt_Todos pages)) = toTodoResult ` {t \<in> ran (map_of (tr_todos r)). \<not> (b \<and> td_Done t)} \<and>
     distinct (map tt_ID (concat (map lt_Todos pages))) \<and>
     (\<forall>d. (\<forall>i \<in> dom (map_of (tr_todos r)). length i = d) \<longrightarrow>
        (\<exists>ks. map tt_ID (concat (map lt_Todos pages)) = map itoa ks \<and> sorted_wrt (>) ks))"
proof -
  let ?M = "todo_matched b r"
  note M = todo_matched_spec [OF assms(1), of b]
  have ids: "tt_ID \<circ> toTodoResult = td_ID" by (auto simp: toTodoResult_def)
  have "sorted_wrt (>) (map td_ID ?M)" using M(1) by (simp add: sorted_wrt_map)
  then have d: "distinct (map td_ID ?M)" by (metis distinct_rev rev_map sorted_wrt_rev strict_sorted_iff)
  then have len: "length ?M = card {t \<in> ran (map_of (tr_todos r)). \<not> (b \<and> td_Done t)}"
    using M(2) by (metis distinct_card distinct_map)
  from list_pages [OF assms(2-4), of b r] assms(5) obtain pages
    where p: "map (\<lambda>p. ListTodos b (int p + 1) sz r) [0..<n] = map Ret pages"
      "concat (map lt_Todos pages) = map toTodoResult ?M" "list_all (\<lambda>pg. lt_Total pg = int (length ?M)) pages"
    by (auto simp: len)
  show ?thesis
    using p(1,3) M(2) d todo_matched_newest [OF assms(1), of _ b]
    unfolding len by (intro exI [of _ pages]) (auto simp: p(2) ids list_all_iff)
qed

definition ten_todos :: TodoRepo where
  "ten_todos = \<lparr>tr_seq = 10, tr_todos = map (\<lambda>k. (itoa k, (new_todo ''t'' [] False)\<lparr>td_ID := itoa k\<rparr>)) [1..10]\<rparr>"

lemma ten_todos_ok: "todo_ok ten_todos"
  by (auto simp: todo_ok_def ids_upto_def ten_todos_def gm_wf_def comp_def distinct_map inj_on_def dest: itoa_inj)

text \<open>The repository as it starts, with its three todos.\<close>

lemma seeded:
  "NewTodoRepo now = \<lparr>tr_seq = 3, tr_todos = map (\<lambda>(k, t). (itoa k, t\<lparr>td_ID := itoa k, td_CreatedAt := now, td_UpdatedAt := now\<rparr>))
     [(1, new_todo ''Try service-forge'' ''Run the example-service end to end'' True),
      (2, new_todo ''Read the docs'' ''Learn how ports and adapters fit together'' False),
      (3, new_todo ''Build your own service'' ''Copy example-service and rename the resource'' False)]\<rparr>"
  by (simp add: NewTodoRepo_def todo_seed_def todo_store_def nextID_def wrap64_id Let_def itoa_def nat_digits.simps digit_char_def)

theorem list_pages_cover_witness:
  "\<exists>p1 p2 ks. ListTodos False 1 2 (NewTodoRepo 0) = Ret p1 \<and> ListTodos False 2 2 (NewTodoRepo 0) = Ret p2 \<and>
     length (lt_Todos p1 @ lt_Todos p2) = 3 \<and> map tt_ID (lt_Todos p1 @ lt_Todos p2) = map itoa ks \<and> sorted_wrt (>) ks"
proof -
  let ?r = "NewTodoRepo 0"
  have ids: "itoa 1 = ''1''" "itoa 2 = ''2''" "itoa 3 = ''3''" by code_simp+
  have ok: "todo_ok ?r"
    by (auto simp: seeded todo_ok_def ids_upto_def gm_wf_def ids intro: exI [of _ 1] exI [of _ 2] exI [of _ 3])
  have len: "\<forall>i \<in> dom (map_of (tr_todos ?r)). length i = 1" by (auto simp: seeded ids split: if_splits)
  let ?S = "{t \<in> ran (map_of (tr_todos ?r)). \<not> (False \<and> td_Done t)}"
  have three: "card ?S = 3"
    by (simp add: seeded ids ran_map_upd new_todo_def card_insert_if Collect_disj_eq)
  have "(1 :: int) \<le> 2" "(2 :: int) \<le> 100" "2 * nat 2 < 2147483648" "card ?S \<le> 2 * nat 2" using three by simp_all
  from list_pages_cover [OF ok this] len obtain pages where
    pg: "map (\<lambda>p. ListTodos False (int p + 1) 2 ?r) [0..<2] = map Ret pages" and
    c: "set (concat (map lt_Todos pages)) = toTodoResult ` ?S" "distinct (map tt_ID (concat (map lt_Todos pages)))"
      "\<exists>ks. map tt_ID (concat (map lt_Todos pages)) = map itoa ks \<and> sorted_wrt (>) ks" by blast
  from pg obtain p1 p2 where pages: "pages = [p1, p2]" and r: "ListTodos False 1 2 ?r = Ret p1" "ListTodos False 2 2 ?r = Ret p2"
    by (auto simp: numeral_2_eq_2 upt_rec map_eq_Cons_conv)
  have p: "set (lt_Todos p1 @ lt_Todos p2) = toTodoResult ` ?S" "distinct (map tt_ID (lt_Todos p1 @ lt_Todos p2))"
      "\<exists>ks. map tt_ID (lt_Todos p1 @ lt_Todos p2) = map itoa ks \<and> sorted_wrt (>) ks"
    using c unfolding pages by (simp_all only: list.map concat.simps append_Nil2)
  have "length (lt_Todos p1 @ lt_Todos p2) = card (set (lt_Todos p1 @ lt_Todos p2))"
    using p(2) by (metis distinct_card distinct_map)
  also have "\<dots> = 3"
    unfolding p(1) by (simp add: seeded ids ran_map_upd new_todo_def toTodoResult_def card_insert_if Collect_disj_eq)
  finally show ?thesis using r p(3) by blast
qed

lemma todo_List_panics:
  "(\<exists>m. todo_List b offset limit r = Panic m) \<longleftrightarrow> offset < 0" if "0 \<le> limit"
proof (cases "0 \<le> offset")
  case True
  with that show ?thesis by (simp add: todo_List_def slice_page_ok)
next
  case False
  then show ?thesis by (auto simp: todo_List_def slice_page_def Let_def)
qed

text \<open>\<open>ListTodos\<close> panics exactly when the \<open>int32\<close> product of page minus one and page size overflows to a
  negative number, whatever is stored.\<close>

lemma ListTodos_panics_iff:
  "(\<exists>m. ListTodos b page pageSize r = Panic m) \<longleftrightarrow>
      (let (p, s) = normalizePage page pageSize in page_offset p s < 0)"
proof -
  obtain p s where n: "normalizePage page pageSize = (p, s)" by fastforce
  then have "0 \<le> s" by (auto simp: normalizePage_def defaultPageSize_def split: if_splits)
  with n todo_List_panics [of s b "page_offset p s" r] show ?thesis
    by (auto simp: ListTodos_def split: outcome.splits prod.splits)
qed

lemma page_offset_100:
  "page_offset 21474838 100 < 0" "1 \<le> page \<Longrightarrow> page < 21474838 \<Longrightarrow> 0 \<le> page_offset page 100"
  by (simp add: page_offset_def wrap32_def wrap_def) (simp add: page_offset_exact)

text \<open>The listing is not newest first. Identifiers are compared as strings, so in every repository
  that holds the ninth and the tenth todo the ninth is listed before the tenth, although it is older.\<close>

theorem list_not_newest_first:
  assumes "todo_ok r" and "todo_FindByID ''9'' r = Inr old" and "todo_FindByID ''10'' r = Inr new"
  shows "\<exists>i j. i < j \<and> j < length (todo_matched False r) \<and> todo_matched False r ! i = old \<and> todo_matched False r ! j = new"
proof -
  let ?M = "todo_matched False r"
  have old: "map_of (tr_todos r) ''9'' = Some old" and new: "map_of (tr_todos r) ''10'' = Some new"
    using assms(2,3) by (auto simp: todo_FindByID_def split: option.splits)
  then have ids: "td_ID old = ''9''" "td_ID new = ''10''"
    using ids_upto_SomeD [OF assms(1) [unfolded todo_ok_def]] by auto
  have "old \<in> set ?M" "new \<in> set ?M"
    using old new by (auto simp: todo_matched_spec(2) [OF assms(1)] intro: ranI)
  then obtain i j where i: "i < length ?M" "?M ! i = old" and j: "j < length ?M" "?M ! j = new"
    by (auto simp: in_set_conv_nth)
  have "\<not> j < i" and "i \<noteq> j"
  proof -
    show "i \<noteq> j" using i j ids by auto
    show "\<not> j < i"
    proof
      assume "j < i"
      with todo_matched_spec(1) [OF assms(1), of False] i j have "td_ID old < td_ID new"
        by (auto simp: sorted_wrt_iff_nth_less)
      then show False by (simp add: ids list_less_def lexordp_simps less_char_def)
    qed
  qed
  with i j show ?thesis by (metis linorder_neqE_nat)
qed

lemma ten_todos_find:
  "todo_FindByID ''9'' ten_todos = Inr ((new_todo ''t'' [] False)\<lparr>td_ID := ''9''\<rparr>)"
  "todo_FindByID ''10'' ten_todos = Inr ((new_todo ''t'' [] False)\<lparr>td_ID := ''10''\<rparr>)"
  by code_simp+

theorem list_not_newest_first_witness:
  "\<exists>i j. i < j \<and> td_ID (todo_matched False ten_todos ! i) = ''9'' \<and> td_ID (todo_matched False ten_todos ! j) = ''10''"
proof -
  from list_not_newest_first [OF ten_todos_ok ten_todos_find] show ?thesis by force
qed

section \<open>Updates\<close>

lemma todo_found:
  assumes "todo_ok r" and "todo_FindByID i r = Inr t"
  shows "map_of (tr_todos r) i = Some t" and "td_ID t = i"
proof -
  show m: "map_of (tr_todos r) i = Some t" using assms(2) by (simp add: todo_FindByID_def split: option.splits)
  show "td_ID t = i" using ids_upto_SomeD [OF assms(1) [unfolded todo_ok_def] m] by simp
qed

lemma todo_Update_found:
  assumes "map_of (tr_todos r) (td_ID t) = Some x" and "td_ID x = td_ID t"
  shows "todo_Update now t r =
    (let u = x\<lparr>td_Title := td_Title t, td_Content := td_Content t, td_Done := td_Done t, td_UpdatedAt := now\<rparr>
     in (r\<lparr>tr_todos := AList.update (td_ID t) u (tr_todos r)\<rparr>, Inr u))"
  using assms by (simp add: todo_Update_def Let_def)

text \<open>The stored todo an update writes: empty fields are kept, the done flag is always taken.\<close>

definition edited :: "int \<Rightarrow> string \<Rightarrow> string \<Rightarrow> bool \<Rightarrow> Todo \<Rightarrow> Todo" where
  "edited now title content don t =
     t\<lparr>td_Title := (if title \<noteq> [] then title else td_Title t),
       td_Content := (if content \<noteq> [] then content else td_Content t), td_Done := don, td_UpdatedAt := now\<rparr>"

lemma UpdateTodo_ok:
  assumes ok: "todo_ok r" and found: "todo_FindByID i r = Inr t" and "title = [] \<or> length title \<le> 128"
    and late: "map_of (tr_todos (between r)) i = Some t'" "td_ID t' = i"
  shows "UpdateTodo between now i title content don r =
    (let u = (edited now title content don t)\<lparr>td_ID := td_ID t', td_CreatedAt := td_CreatedAt t'\<rparr>
     in ((between r)\<lparr>tr_todos := AList.update i u (tr_todos (between r))\<rparr>, Inr (toTodoResult u)))"
proof -
  note tid = todo_found(2) [OF ok found]
  define e where "e = t\<lparr>td_Title := (if title \<noteq> [] then title else td_Title t),
      td_Content := (if content \<noteq> [] then content else td_Content t), td_Done := don\<rparr>"
  have edit: "todo_edit title content don t = Inr e"
    using assms(3) by (auto simp: todo_edit_def validateTitle_def e_def split: option.splits)
  have eid: "td_ID e = i" by (simp add: e_def tid)
  have upd: "t'\<lparr>td_Title := td_Title e, td_Content := td_Content e, td_Done := td_Done e, td_UpdatedAt := now\<rparr> =
      (edited now title content don t)\<lparr>td_ID := td_ID t', td_CreatedAt := td_CreatedAt t'\<rparr>"
    by (rule Todo.equality) (simp_all add: edited_def e_def)
  have "todo_Update now e (between r) =
      (let u = t'\<lparr>td_Title := td_Title e, td_Content := td_Content e, td_Done := td_Done e, td_UpdatedAt := now\<rparr>
       in ((between r)\<lparr>tr_todos := AList.update i u (tr_todos (between r))\<rparr>, Inr u))"
    using todo_Update_found [of "between r" e t' now] late eid by simp
  then show ?thesis unfolding upd by (simp add: UpdateTodo_def found edit Let_def)
qed

text \<open>Concurrent updates of one todo can lose one of them. \<open>UpdateTodo\<close> reads, edits and writes without
  holding a lock over the three. When one request changes the title while another, which changes
  only the content, is between its read and its write, both report success and the second reports
  and stores the old title: the new title is gone.\<close>

theorem update_lost:
  assumes "todo_ok r" and "todo_FindByID i r = Inr t"
    and "title \<noteq> []" and "length title \<le> 128" and "content \<noteq> []"
  shows "let first = UpdateTodo id n1 i title [] d1;
             (r', res) = UpdateTodo (fst \<circ> first) n2 i [] content d2 r
         in (\<exists>x. snd (first r) = Inr x \<and> tt_Title x = title) \<and>
            (\<exists>y. res = Inr y \<and> tt_Title y = td_Title t \<and> tt_Content y = content) \<and>
            GetTodo i r' = res"
proof -
  note m = todo_found(1) [OF assms(1,2)] and tid = todo_found(2) [OF assms(1,2)]
  define u where "u = (edited n1 title [] d1 t)\<lparr>td_ID := td_ID t, td_CreatedAt := td_CreatedAt t\<rparr>"
  have first: "UpdateTodo id n1 i title [] d1 r = (r\<lparr>tr_todos := AList.update i u (tr_todos r)\<rparr>, Inr (toTodoResult u))"
    using UpdateTodo_ok [OF assms(1,2), of title id t n1 "[]" d1] assms(4) m tid by (simp add: u_def Let_def)
  define b where "b = fst \<circ> UpdateTodo id n1 i title [] d1"
  have br: "b r = r\<lparr>tr_todos := AList.update i u (tr_todos r)\<rparr>" by (simp add: b_def first)
  have mb: "map_of (tr_todos (b r)) i = Some u" "td_ID u = i" by (simp_all add: br gomap u_def tid)
  define v where "v = (edited n2 [] content d2 t)\<lparr>td_ID := td_ID u, td_CreatedAt := td_CreatedAt u\<rparr>"
  have second: "UpdateTodo b n2 i [] content d2 r =
      ((b r)\<lparr>tr_todos := AList.update i v (tr_todos (b r))\<rparr>, Inr (toTodoResult v))"
    using UpdateTodo_ok [OF assms(1,2), of "[]" b u n2 content d2] mb by (simp add: v_def Let_def)
  have "tt_Title (toTodoResult u) = title" using assms(3) by (simp add: toTodoResult_def u_def edited_def)
  moreover have "tt_Title (toTodoResult v) = td_Title t" "tt_Content (toTodoResult v) = content"
    using assms(5) by (simp_all add: toTodoResult_def v_def edited_def)
  moreover have "GetTodo i ((b r)\<lparr>tr_todos := AList.update i v (tr_todos (b r))\<rparr>) = Inr (toTodoResult v)"
    by (simp add: GetTodo_def todo_FindByID_def gomap)
  ultimately show ?thesis using first second unfolding Let_def b_def by simp
qed

theorem update_lost_witness:
  "case UpdateTodo (fst \<circ> UpdateTodo id 1 ''9'' ''new title'' [] False) 2 ''9'' [] ''new content'' False ten_todos of
     (r', res) \<Rightarrow> \<exists>y. res = Inr y \<and> tt_Title y = ''t'' \<and> GetTodo ''9'' r' = res"
proof -
  have "td_Title ((new_todo ''t'' [] False)\<lparr>td_ID := ''9''\<rparr>) = ''t''" by (simp add: new_todo_def)
  with update_lost [OF ten_todos_ok ten_todos_find(1), of "''new title''" "''new content''" 1 False 2 False]
  show ?thesis by (simp add: Let_def split: prod.splits) blast
qed

end
