(* ===== verification/SF_Request.thy ===== *)
theory SF_Request
  imports SF_Gateway SF_Grpcserver SF_Todo
begin

text \<open>
  One request through the gateway to a service and back: the handler that \<open>mountConfiguredRoutes\<close> puts
  behind a unary route (\<open>gateway.go\<close>), the invokers made by \<open>NewUnaryProxy\<close> on the state of a call
  (\<open>proxy.go\<close>), and on the other side the gRPC methods of the generated example service.

  The world of an HTTP request is the state \<open>px\<close> of its route; the world of that state is the exchange:
  the request as the binding reads it, the response written so far and the backends.
\<close>

section \<open>The handler of a unary route\<close>

record 'w exchange =
  ex_req :: http_req
  ex_now :: int
  ex_resp :: "http_resp option"
  ex_world :: 'w

text \<open>The invoker \<open>NewUnaryProxy\<close> returns; \<open>call\<close> is the client stub on a context and a connection.\<close>

definition unaryInvoker ::
  "'m codecs \<Rightarrow> errors_pkg \<Rightarrow> 'm \<Rightarrow> (ctx \<Rightarrow> conn \<Rightarrow> 'm \<Rightarrow> 'w \<Rightarrow> 'w \<times> 'm result) \<Rightarrow> 'w exchange invoker" where
  "unaryInvoker cd E newRequest call cx cn s =
     (let x = px_world s
      in case NewUnaryProxy cd cd E newRequest (call cx cn) (ex_now x) (ex_req x) (ex_world x) of
           (w, Panic m) \<Rightarrow> (s\<lparr>px_world := x\<lparr>ex_world := w\<rparr>\<rparr>, Panic m)
         | (w, Ret (Inl e)) \<Rightarrow> (s\<lparr>px_world := x\<lparr>ex_world := w\<rparr>\<rparr>, Ret (Inl e))
         | (w, Ret (Inr (out, rep))) \<Rightarrow> (s\<lparr>px_world := x\<lparr>ex_world := w, ex_resp := Some out\<rparr>\<rparr>, Ret (Inr rep)))"

definition fiberLocals :: "'w fctx \<Rightarrow> string \<Rightarrow> any" where
  "fiberLocals f k = (case map_of (fc_Locals f) k of None \<Rightarrow> ANil | Some v \<Rightarrow> v)"

text \<open>What the handler takes from its surroundings: libraries, clock readings, attempts, and the accessors with
  which the binding reads a \<open>fiber.Ctx\<close>.\<close>

record 'w unary_env =
  ue_call :: "'w exchange call_env"
  ue_req :: "'w exchange px fctx \<Rightarrow> http_req"
  ue_t0 :: int
  ue_t1 :: int
  ue_envs :: "nat \<Rightarrow> 'w exchange attempt_env"

definition applyResponse :: "http_resp option \<Rightarrow> 'w fctx \<Rightarrow> 'w fctx" where
  "applyResponse out f =
     (case out of None \<Rightarrow> f | Some o1 \<Rightarrow> f\<lparr>fc_Status := rs_Status o1, fc_Body := RawBody (rs_Body o1)\<rparr>)"

definition routeHandler :: "'w unary_env \<Rightarrow> ('w exchange, 'c) route \<Rightarrow> 'w exchange px handler" where
  "routeHandler ue r =
     Handle (ce_err (ue_call ue)) (\<lambda>cx f.
       let st = fc_World f;
           st1 = st\<lparr>px_world := (px_world st)\<lparr>ex_req := ue_req ue f, ex_now := fc_Now f, ex_resp := None\<rparr>\<rparr>
       in case Invoke ((ue_call ue)\<lparr>ce_ctx := cx, ce_locals := fiberLocals f\<rparr>) r (ue_t0 ue) (ue_t1 ue) (ue_envs ue) st1 of
            (st2, res) \<Rightarrow> (applyResponse (ex_resp (px_world st2)) (f\<lparr>fc_World := st2\<rparr>), res))"

section \<open>The example service\<close>

text \<open>The messages of \<open>example.proto\<close>; a message field is an option.\<close>

datatype example_msg =
    PingRequest string | PingResponse string
  | CreateTodoRequest string string | CreateTodoResponse "proto_Todo option"
  | GetTodoRequest string | GetTodoResponse "proto_Todo option"
  | ListTodosRequest int int bool | ListTodosResponse "proto_Todo list" int int int
  | UpdateTodoRequest string string string bool | UpdateTodoResponse "proto_Todo option"
  | DeleteTodoRequest string | DeleteTodoResponse

definition rpc_reply :: "('a \<Rightarrow> 'p) \<Rightarrow> 'a result \<Rightarrow> ('p option \<times> go_error option) outcome" where
  "rpc_reply f x = Ret (case x of Inl e \<Rightarrow> (None, Some e) | Inr y \<Rightarrow> (Some (f y), None))"

text \<open>The service: every request message has its method. A response message is not a request.\<close>

fun ExampleService ::
  "errors_pkg \<Rightarrow> (TodoRepo \<Rightarrow> TodoRepo) \<Rightarrow> int \<Rightarrow> (example_msg, example_msg, TodoRepo) rpc_handler" where
  "ExampleService E between now (PingRequest m) r = (r, rpc_reply PingResponse (Ping m))"
| "ExampleService E between now (CreateTodoRequest title content) r =
     (case handler_CreateTodo E now title content r of (r', x) \<Rightarrow> (r', rpc_reply (CreateTodoResponse \<circ> Some) x))"
| "ExampleService E between now (GetTodoRequest i) r = (r, rpc_reply (GetTodoResponse \<circ> Some) (handler_GetTodo E i r))"
| "ExampleService E between now (ListTodosRequest page pageSize onlyPending) r =
     (r, case handler_ListTodos E onlyPending page pageSize r of
           Panic m \<Rightarrow> Panic m
         | Ret (ts, pg, ps, tot) \<Rightarrow> Ret (Some (ListTodosResponse ts pg ps tot), None))"
| "ExampleService E between now (UpdateTodoRequest i title content don) r =
     (case handler_UpdateTodo E between now i title content don r of (r', x) \<Rightarrow> (r', rpc_reply (UpdateTodoResponse \<circ> Some) x))"
| "ExampleService E between now (DeleteTodoRequest i) r =
     (case handler_DeleteTodo E i r of
        (r', Some e) \<Rightarrow> (r', Ret (None, Some e))
      | (r', None) \<Rightarrow> (r', Ret (Some DeleteTodoResponse, None)))"
| "ExampleService E between now _ r = (r, Ret (None, Some (PlainError ''unimplemented'')))"

section \<open>A healthy call\<close>

text \<open>
  What gRPC does on a connection whose server is reachable and answers in time: the request reaches
  the handler, and the caller gets its message or its error.
\<close>

definition delivers ::
  "(ctx \<Rightarrow> conn \<Rightarrow> 'm \<Rightarrow> 'w \<Rightarrow> 'w \<times> 'm result) \<Rightarrow> ('m, 'm, 'w) rpc_handler \<Rightarrow> conn list \<Rightarrow> bool" where
  "delivers call server cs \<longleftrightarrow>
     (\<forall>cx. \<forall>cn \<in> set cs. \<forall>q w w' p e. server q w = (w', Ret (p, e)) \<longrightarrow>
        call cx cn q w = (w', case e of Some err \<Rightarrow> Inl err | None \<Rightarrow> Inr (the p)))"

text \<open>A route as the generated configuration has them: a pool, no breaker, no retries, no claims to forward.\<close>

definition plain_route :: "('i, 'c) proxyRoute \<Rightarrow> balancer \<Rightarrow> bool" where
  "plain_route r b \<longleftrightarrow> pr_breaker r = None \<and> pr_retry r = None \<and> pr_claims r = None \<and> pr_conns r \<noteq> [] \<and>
     fits (length (pr_conns r)) b"

lemma pickConn_some:
  assumes "pr_conns r \<noteq> []" and "fits (length (pr_conns r)) b"
  shows "\<exists>b' c rel. pickConn r draw b = Ret (b', Some c, rel) \<and> c \<in> set (pr_conns r) \<and> fits (length (pr_conns r)) (release rel b')"
proof (cases "length (pr_conns r) = 1")
  case True
  then have "pickConn r draw b = Ret (b, Some (pr_conns r ! 0), NoopRelease)" by (simp add: pickConn_def)
  moreover have "pr_conns r ! 0 \<in> set (pr_conns r)" using assms(1) by simp
  ultimately show ?thesis using bal.rel_fit [OF assms(2)] by blast
next
  case False
  obtain n where n: "length (pr_conns r) = Suc (Suc n)"
    using assms(1) False by (metis One_nat_def length_0_conv old.nat.exhaust)
  obtain b' i rel where p: "pick draw (Suc (Suc n)) b = Ret (b', i, rel)" "i < Suc (Suc n)" "fits (Suc (Suc n)) b'"
    using bal.pick_ret [of "Suc (Suc n)" b draw] assms(2) n by auto
  then have "pickConn r draw b = Ret (b', Some (pr_conns r ! i), rel)" by (simp add: pickConn_def n)
  moreover have "pr_conns r ! i \<in> set (pr_conns r)" using p(2) n by simp
  ultimately show ?thesis using bal.rel_fit [OF p(3)] n by metis
qed

lemma plain_invoke:
  assumes "plain_route r (px_balancer s)" and "pr_invoker r = Some (unaryInvoker cd E q0 call)"
    and "delivers call server (pr_conns r)"
    and "bindProtoRequest cd E (ex_req (px_world s)) q0 = Ret (Inr q)" and "server q (ex_world (px_world s)) = (w', Ret (p, e))"
    and "\<forall>m. cd_protoMarshal cd m = Inr (json m)"
  shows "\<exists>s'. Invoke ce r t0 t1 envs s = (s', Ret (case e of Some err \<Rightarrow> Inl err | None \<Rightarrow> Inr Handled)) \<and>
     ex_world (px_world s') = w' \<and> fits (length (pr_conns r)) (px_balancer s') \<and>
     ex_resp (px_world s') = (case e of Some _ \<Rightarrow> ex_resp (px_world s)
        | None \<Rightarrow> Some (WriteSuccessJSON (ex_now (px_world s)) (json (the p))))"
proof -
  note plain = assms(1) [unfolded plain_route_def]
  obtain b' c rel where pc: "pickConn r (at_draw (envs 0)) (px_balancer s) = Ret (b', Some c, rel)" "c \<in> set (pr_conns r)"
    "fits (length (pr_conns r)) (release rel b')"
    using pickConn_some plain by blast
  have call: "call cx c q (ex_world (px_world s)) = (w', case e of Some err \<Rightarrow> Inl err | None \<Rightarrow> Inr (the p))" for cx
    using assms(3,5) pc(2) unfolding delivers_def by blast
  have "Invoke ce r t0 t1 envs s = invokeOnce ce r (envs 0) s"
    using plain by (simp add: Invoke_def invokeWithRetry_def)
  moreover have "pr_claims r = None" using plain by simp
  ultimately show ?thesis
    using pc assms(2,4,6)
    by (cases e) (simp_all add: invokeOnce_def callInvoker_def outgoing_def unaryInvoker_def NewUnaryProxy_def
        writeProtoSuccess_def call Let_def)
qed

text \<open>The reply to a request on such a route is determined by the service's reply.\<close>

lemma route_reply:
  assumes "plain_route r (px_balancer (fc_World f))" and "pr_invoker r = Some (unaryInvoker cd E q0 call)"
    and "ce_err (ue_call ue) = E" and "delivers call server (pr_conns r)"
    and "bindProtoRequest cd E (ue_req ue f) q0 = Ret (Inr q)"
    and "server q (ex_world (px_world (fc_World f))) = (w', Ret (p, e))"
    and "\<forall>m. cd_protoMarshal cd m = Inr (json m)"
  shows "\<exists>f'. routeHandler ue r k f = (f', HOk) \<and> ex_world (px_world (fc_World f')) = w' \<and>
     (case e of
        None \<Rightarrow> fc_Status f' = 200 \<and> fc_Body f' = RawBody (rs_Body (WriteSuccessJSON (fc_Now f) (json (the p))))
      | Some err \<Rightarrow> fc_Status f' = ae_HTTPStatus (appError_of E err) \<and>
          fc_Body f' = JSONBody (Failure E (fc_Now f) (appError_of E err)))"
proof -
  let ?s = "(fc_World f)\<lparr>px_world := (px_world (fc_World f))\<lparr>ex_req := ue_req ue f, ex_now := fc_Now f, ex_resp := None\<rparr>\<rparr>"
  have b: "plain_route r (px_balancer ?s)" using assms(1) by simp
  have q: "bindProtoRequest cd E (ex_req (px_world ?s)) q0 = Ret (Inr q)" using assms(5) by simp
  have sv: "server q (ex_world (px_world ?s)) = (w', Ret (p, e))" using assms(6) by simp
  obtain s' where "Invoke ((ue_call ue)\<lparr>ce_ctx := handle_ctx f, ce_locals := fiberLocals f\<rparr>) r (ue_t0 ue) (ue_t1 ue) (ue_envs ue) ?s =
      (s', Ret (case e of Some err \<Rightarrow> Inl err | None \<Rightarrow> Inr Handled))"
    and "ex_world (px_world s') = w'"
    and "ex_resp (px_world s') = (case e of Some _ \<Rightarrow> None | None \<Rightarrow> Some (WriteSuccessJSON (fc_Now f) (json (the p))))"
    using plain_invoke [OF b assms(2,4) q sv assms(7),
        of "(ue_call ue)\<lparr>ce_ctx := handle_ctx f, ce_locals := fiberLocals f\<rparr>" "ue_t0 ue" "ue_t1 ue" "ue_envs ue"]
    by (auto cong: option.case_cong)
  then show ?thesis
    by (cases e) (simp_all add: routeHandler_def Handle_def Let_def applyResponse_def assms(3) WriteSuccessJSON_def)
qed

section \<open>Errors of a service\<close>

text \<open>What \<open>status.Error\<close> returns is a status error, not an application error.\<close>

definition status_kind :: "errors_pkg \<Rightarrow> bool" where
  "status_kind E \<longleftrightarrow> (\<forall>g m e. status_Error E g m = Some e \<longrightarrow> \<not> is_AppError e)"

lemma status_kind_E0: "status_kind E0"
  by (auto simp: status_kind_def errors_init_def plain_status_Error_def split: if_splits)

lemma HTTPStatus_New [simp]: "ae_HTTPStatus (New E c m) = HTTPStatus E c" "ae_Code (New E c m) = c"
  "ae_Message (New E c m) = m" "ae_Details (New E c m) = None" "is_AppError (New E c m)"
  by (simp_all add: New_def)

lemma intercepted_error:
  assumes "E = errors_init se fe" and "status_doc E" and "status_kind E" and "c \<in> set framework_codes" and "c \<noteq> CodeOK"
    and "handler req w = (w', Ret (x, Some (New E c m)))"
  shows "\<exists>ge. ErrorInterceptor E handler req w = (w', Ret (None, Some ge)) \<and> \<not> is_AppError ge \<and> appError_of E ge = New E c m"
proof -
  obtain ge where ge: "ToGRPCError E (Some (New E c m)) = Some ge" "status_Error E (GRPCCode E c) m = Some ge"
    "FromGRPCError E (Some ge) = Some (New E c m)"
    using grpc_carries_error [of se fe c m] assms(1,2,4,5) by auto
  then have kind: "\<not> is_AppError ge" using assms(3) by (auto simp: status_kind_def)
  then have "appError_of E ge = New E c m" using ge(3) by (cases ge) (simp_all add: appError_of_def)
  moreover have "ErrorInterceptor E handler req w = (w', Ret (None, Some ge))"
    using assms(6) ge(1) by (simp add: ErrorInterceptor_def)
  ultimately show ?thesis using kind by blast
qed

text \<open>The envelope of a failure with code \<open>c\<close> and message \<open>m\<close>.\<close>

definition failure_envelope :: "code \<Rightarrow> string \<Rightarrow> int \<Rightarrow> response" where
  "failure_envelope c m now = \<lparr>r_Code = c, r_Message = m, r_Data = ANil, r_Details = None, r_Timestamp = now\<rparr>"

text \<open>What a plain route connects: an invoker for the service's procedure and connections to the service, whose
  server has the framework's interceptor.\<close>

definition connects ::
  "'m codecs \<Rightarrow> errors_pkg \<Rightarrow> ('m, 'm, 'w) rpc_handler \<Rightarrow> 'm \<Rightarrow> ('w exchange invoker, 'c) proxyRoute \<Rightarrow> bool" where
  "connects cd E service q0 r \<longleftrightarrow>
     (\<exists>call. pr_invoker r = Some (unaryInvoker cd E q0 call) \<and> delivers call (ErrorInterceptor E service) (pr_conns r))"

lemma rest_success:
  assumes "plain_route r (px_balancer (fc_World f))" and "connects cd E service q0 r" and "ce_err (ue_call ue) = E"
    and "bindProtoRequest cd E (ue_req ue f) q0 = Ret (Inr q)" and "\<forall>m. cd_protoMarshal cd m = Inr (json m)"
    and "service q (ex_world (px_world (fc_World f))) = (w', Ret (Some p, None))"
  shows "\<exists>f'. routeHandler ue r k f = (f', HOk) \<and> ex_world (px_world (fc_World f')) = w' \<and>
     fc_Status f' = 200 \<and> fc_Body f' = RawBody (rs_Body (WriteSuccessJSON (fc_Now f) (json p)))"
proof -
  obtain call where c: "pr_invoker r = Some (unaryInvoker cd E q0 call)" "delivers call (ErrorInterceptor E service) (pr_conns r)"
    using assms(2) unfolding connects_def by blast
  have "ErrorInterceptor E service q (ex_world (px_world (fc_World f))) = (w', Ret (Some p, None))"
    by (simp add: ErrorInterceptor_def assms(6))
  from route_reply [OF assms(1) c(1) assms(3) c(2) assms(4) this assms(5)] show ?thesis by simp
qed

lemma rest_failure:
  assumes "E = errors_init se fe" and "status_doc E" and "status_kind E"
    and "plain_route r (px_balancer (fc_World f))" and "connects cd E service q0 r" and "ce_err (ue_call ue) = E"
    and "bindProtoRequest cd E (ue_req ue f) q0 = Ret (Inr q)" and "\<forall>m. cd_protoMarshal cd m = Inr (json m)"
    and "service q (ex_world (px_world (fc_World f))) = (w', Ret (x, Some (New E c m)))"
    and "c \<in> set framework_codes" and "c \<noteq> CodeOK"
  shows "\<exists>f'. routeHandler ue r k f = (f', HOk) \<and> ex_world (px_world (fc_World f')) = w' \<and>
     fc_Status f' = HTTPStatus E c \<and> fc_Body f' = JSONBody (failure_envelope c m (fc_Now f))"
proof -
  obtain call where cl: "pr_invoker r = Some (unaryInvoker cd E q0 call)" "delivers call (ErrorInterceptor E service) (pr_conns r)"
    using assms(5) unfolding connects_def by blast
  obtain ge where ge: "ErrorInterceptor E service q (ex_world (px_world (fc_World f))) = (w', Ret (None, Some ge))"
    "appError_of E ge = New E c m"
    using intercepted_error [of E se fe c service q _ w' x m, OF assms(1,2,3,10,11,9)] by blast
  from route_reply [OF assms(4) cl(1) assms(6) cl(2) assms(7) ge(1) assms(8)] show ?thesis
    by (simp add: ge(2) Failure_def failure_envelope_def New_def)
qed

section \<open>Todos over REST\<close>

definition todo_proto :: "Todo \<Rightarrow> proto_Todo" where
  "todo_proto t = toProtoTodo (toTodoResult t)"

lemma todo_proto_sel [simp]:
  "pt_Id (todo_proto t) = td_ID t" "pt_Title (todo_proto t) = td_Title t" "pt_Content (todo_proto t) = td_Content t"
  "pt_Done (todo_proto t) = td_Done t"
  by (simp_all add: todo_proto_def toProtoTodo_def toTodoResult_def)

lemma service_create:
  assumes "todo_ok r" and "todo_room r" and "1 \<le> length title" and "length title \<le> 128"
  shows "\<exists>r' t. ExampleService E between now (CreateTodoRequest title content) r =
      (r', Ret (Some (CreateTodoResponse (Some (todo_proto t))), None)) \<and>
    td_Title t = title \<and> td_Content t = content \<and> \<not> td_Done t \<and> todo_FindByID (td_ID t) r = Inl ErrTodoNotFound \<and>
    todo_FindByID (td_ID t) r' = Inr t \<and> (\<forall>j. j \<noteq> td_ID t \<longrightarrow> todo_FindByID j r' = todo_FindByID j r)"
proof -
  obtain r' t where c: "todo_Create now (new_todo title content False) r = (r', Inr t)"
    using tp.create_new [OF assms(1,2)] by blast
  have "td_Title t = title" "td_Content t = content" "\<not> td_Done t"
    using c by (auto simp: todo_Create_def todo_store_def new_todo_def Let_def split: prod.splits)
  moreover have "validateTitle title = None" using assms(3,4) by (simp add: validateTitle_None)
  ultimately show ?thesis
    using tp.created [OF assms(1,2) c]
    by (intro exI [of _ r'] exI [of _ t])
       (simp add: handler_CreateTodo_def CreateTodo_def c handle_result_def rpc_reply_def todo_proto_def)
qed

lemma service_create_invalid:
  assumes "length title < 1 \<or> 128 < length title"
  shows "ExampleService E between now (CreateTodoRequest title content) r =
    (r, Ret (None, Some (New E CodeInvalidArgument ''title must be 1-128 characters'')))"
proof -
  have "validateTitle title = Some ErrInvalidTitle" using assms by (auto simp: validateTitle_def)
  then show ?thesis
    by (simp add: handler_CreateTodo_def CreateTodo_def handle_result_def rpc_reply_def todo_toGRPCError_def ErrInvalidTitle_def)
qed

lemma service_get:
  "ExampleService E between now (GetTodoRequest i) r =
     (r, Ret (case todo_FindByID i r of
        Inr t \<Rightarrow> (Some (GetTodoResponse (Some (todo_proto t))), None)
      | Inl _ \<Rightarrow> (None, Some (New E CodeNotFound ''todo not found''))))"
  by (auto simp: handler_GetTodo_def GetTodo_def todo_FindByID_def handle_result_def rpc_reply_def todo_proto_def
      todo_toGRPCError_def ErrTodoNotFound_def split: option.splits)

lemma rest_status: "E = errors_init se fe \<Longrightarrow> HTTPStatus E CodeInvalidArgument = 400 \<and> HTTPStatus E CodeNotFound = 404"
  by (simp add: errors_init_def HTTPStatus_def httpMap0_def code_defs)

lemma rest_get:
  assumes "E = errors_init se fe" and "status_doc E" and "status_kind E" and "ce_err (ue_call ue) = E"
    and "\<forall>m. cd_protoMarshal cd m = Inr (json m)" and "plain_route r (px_balancer (fc_World f))"
    and "connects cd E (ExampleService E between now) (GetTodoRequest []) r"
    and "bindProtoRequest cd E (ue_req ue f) (GetTodoRequest []) = Ret (Inr (GetTodoRequest i))"
  shows "\<exists>f'. routeHandler ue r k f = (f', HOk) \<and> ex_world (px_world (fc_World f')) = ex_world (px_world (fc_World f)) \<and>
    (case todo_FindByID i (ex_world (px_world (fc_World f))) of
       Inr t \<Rightarrow> fc_Status f' = 200 \<and>
         fc_Body f' = RawBody (rs_Body (WriteSuccessJSON (fc_Now f) (json (GetTodoResponse (Some (todo_proto t))))))
     | Inl _ \<Rightarrow> fc_Status f' = 404 \<and> fc_Body f' = JSONBody (failure_envelope CodeNotFound ''todo not found'' (fc_Now f)))"
proof (cases "todo_FindByID i (ex_world (px_world (fc_World f)))")
  case (Inr t)
  then have "ExampleService E between now (GetTodoRequest i) (ex_world (px_world (fc_World f))) =
      (ex_world (px_world (fc_World f)), Ret (Some (GetTodoResponse (Some (todo_proto t))), None))"
    by (simp only: service_get) simp
  from rest_success [OF assms(6,7,4,8,5) this] show ?thesis by (simp add: Inr)
next
  case (Inl e)
  then have miss: "ExampleService E between now (GetTodoRequest i) (ex_world (px_world (fc_World f))) =
      (ex_world (px_world (fc_World f)), Ret (None, Some (New E CodeNotFound ''todo not found'')))"
    by (simp only: service_get) simp
  have "CodeNotFound \<in> set framework_codes" "CodeNotFound \<noteq> CodeOK" by (simp_all add: framework_codes_def code_defs)
  from rest_failure [OF assms(1,2,3,6,7,4,8,5) miss this] rest_status [OF assms(1)] show ?thesis by (simp add: Inl)
qed

text \<open>A read after a write of \<open>t\<close>.\<close>

lemma rest_get_after:
  assumes "E = errors_init se fe" and "status_doc E" and "status_kind E" and "ce_err (ue_call ue) = E"
    and "\<forall>m. cd_protoMarshal cd m = Inr (json m)" and "plain_route r (px_balancer (fc_World g))"
    and "connects cd E (ExampleService E between now) (GetTodoRequest []) r"
    and "bindProtoRequest cd E (ue_req ue g) (GetTodoRequest []) = Ret (Inr (GetTodoRequest i))"
    and "ex_world (px_world (fc_World g)) = repo'"
    and "todo_FindByID (td_ID t) repo' = Inr t" and "\<forall>j. j \<noteq> td_ID t \<longrightarrow> todo_FindByID j repo' = todo_FindByID j repo"
  shows "\<exists>g'. routeHandler ue r k g = (g', HOk) \<and>
      (i = td_ID t \<longrightarrow> fc_Status g' = 200 \<and>
         fc_Body g' = RawBody (rs_Body (WriteSuccessJSON (fc_Now g) (json (GetTodoResponse (Some (todo_proto t))))))) \<and>
      (i \<noteq> td_ID t \<and> todo_FindByID i repo = Inl ErrTodoNotFound \<longrightarrow> fc_Status g' = 404 \<and>
         fc_Body g' = JSONBody (failure_envelope CodeNotFound ''todo not found'' (fc_Now g)))"
proof -
  obtain g' where "routeHandler ue r k g = (g', HOk)"
    and "case todo_FindByID i repo' of
       Inr t \<Rightarrow> fc_Status g' = 200 \<and>
         fc_Body g' = RawBody (rs_Body (WriteSuccessJSON (fc_Now g) (json (GetTodoResponse (Some (todo_proto t))))))
     | Inl _ \<Rightarrow> fc_Status g' = 404 \<and> fc_Body g' = JSONBody (failure_envelope CodeNotFound ''todo not found'' (fc_Now g))"
    using rest_get [OF assms(1-8), of k] unfolding assms(9) by blast
  with assms(10,11) show ?thesis by (intro exI [of _ g']) auto
qed

text \<open>C7: a todo created over REST is read back over REST. On a gateway route to the example service, without
  breaker, retries and claims and with a server that answers, a POST that binds to a create request
  is answered 200 with the new todo when its title has 1 to 128 bytes; every later GET that finds the
  repository as this left it is answered 200 with exactly that todo for its identifier, and 404 with the
  code NOT_FOUND for an identifier that is neither the new one nor was known before. A POST with any
  other title is answered 400 with the code INVALID_ARGUMENT and the title rule, and changes nothing.\<close>

theorem rest_create_then_get:
  assumes "E = errors_init se fe" and "status_doc E" and "status_kind E" and "ce_err (ue_call ue) = E"
    and "\<forall>m. cd_protoMarshal cd m = Inr (json m)"
    and "plain_route post (px_balancer (fc_World f))"
    and "connects cd E (ExampleService E between now) (CreateTodoRequest [] []) post"
    and "connects cd E (ExampleService E between2 now2) (GetTodoRequest []) get"
    and "bindProtoRequest cd E (ue_req ue f) (CreateTodoRequest [] []) = Ret (Inr (CreateTodoRequest title content))"
    and "ex_world (px_world (fc_World f)) = repo" and "todo_ok repo" and "todo_room repo"
  shows "\<exists>f'. routeHandler ue post k f = (f', HOk) \<and>
    (if 1 \<le> length title \<and> length title \<le> 128
     then \<exists>p. pt_Title p = title \<and> pt_Content p = content \<and> \<not> pt_Done p \<and> fc_Status f' = 200 \<and>
       fc_Body f' = RawBody (rs_Body (WriteSuccessJSON (fc_Now f) (json (CreateTodoResponse (Some p))))) \<and>
       (\<forall>g i k. ex_world (px_world (fc_World g)) = ex_world (px_world (fc_World f')) \<and>
          plain_route get (px_balancer (fc_World g)) \<and>
          bindProtoRequest cd E (ue_req ue g) (GetTodoRequest []) = Ret (Inr (GetTodoRequest i)) \<longrightarrow>
          (\<exists>g'. routeHandler ue get k g = (g', HOk) \<and>
             (i = pt_Id p \<longrightarrow> fc_Status g' = 200 \<and>
                fc_Body g' = RawBody (rs_Body (WriteSuccessJSON (fc_Now g) (json (GetTodoResponse (Some p)))))) \<and>
             (i \<noteq> pt_Id p \<and> todo_FindByID i repo = Inl ErrTodoNotFound \<longrightarrow> fc_Status g' = 404 \<and>
                fc_Body g' = JSONBody (failure_envelope CodeNotFound ''todo not found'' (fc_Now g)))))
     else fc_Status f' = 400 \<and> ex_world (px_world (fc_World f')) = repo \<and>
       fc_Body f' = JSONBody (failure_envelope CodeInvalidArgument ''title must be 1-128 characters'' (fc_Now f)))"
proof (cases "1 \<le> length title \<and> length title \<le> 128")
  case True
  obtain r' t where s: "ExampleService E between now (CreateTodoRequest title content) (ex_world (px_world (fc_World f))) =
      (r', Ret (Some (CreateTodoResponse (Some (todo_proto t))), None))"
    and t: "td_Title t = title" "td_Content t = content" "\<not> td_Done t" "todo_FindByID (td_ID t) r' = Inr t"
    "\<forall>j. j \<noteq> td_ID t \<longrightarrow> todo_FindByID j r' = todo_FindByID j repo"
    using service_create [OF assms(11,12)] True assms(10) by blast
  obtain f' where f': "routeHandler ue post k f = (f', HOk)" "ex_world (px_world (fc_World f')) = r'" "fc_Status f' = 200"
    "fc_Body f' = RawBody (rs_Body (WriteSuccessJSON (fc_Now f) (json (CreateTodoResponse (Some (todo_proto t))))))"
    using rest_success [OF assms(6,7,4,9,5) s] by blast
  note later = rest_get_after [OF assms(1,2,3,4,5) _ assms(8) _ _ t(4,5)]
  show ?thesis
    using True f' t(1,2,3) by (intro exI [of _ f']) (auto intro!: exI [of _ "todo_proto t"] later)
next
  case False
  then have s: "ExampleService E between now (CreateTodoRequest title content) (ex_world (px_world (fc_World f))) =
      (repo, Ret (None, Some (New E CodeInvalidArgument ''title must be 1-128 characters'')))"
    using service_create_invalid [of title] assms(10) by (simp only: not_le de_Morgan_conj)
  have "CodeInvalidArgument \<in> set framework_codes" "CodeInvalidArgument \<noteq> CodeOK"
    by (simp_all add: framework_codes_def code_defs)
  from rest_failure [OF assms(1,2,3,6,7,4,9,5) s this] rest_status [OF assms(1)] False show ?thesis by auto
qed

text \<open>A concrete instance: a JSON object is the text of its one string field, and a connection calls the server.\<close>

definition demo_text :: "(string, any) gomap \<Rightarrow> string" where
  "demo_text m = (case map snd m of [AString x] \<Rightarrow> x | _ \<Rightarrow> [])"

definition demo_codec :: "example_msg codecs" where
  "demo_codec =
     \<lparr>cd_jsonUnmarshal = (\<lambda>s. Inr (Some [(''title'', AString s)])), cd_jsonMarshal = (\<lambda>m. Inr (demo_text m)),
      cd_protoUnmarshal = (\<lambda>d m. Inr (case m of CreateTodoRequest _ c \<Rightarrow> CreateTodoRequest d c | GetTodoRequest _ \<Rightarrow> GetTodoRequest d | _ \<Rightarrow> m)),
      cd_protoMarshal = (\<lambda>m. Inr ''{}''), cd_Reset = id\<rparr>"

definition loopback :: "('m, 'm, 'w) rpc_handler \<Rightarrow> ctx \<Rightarrow> conn \<Rightarrow> 'm \<Rightarrow> 'w \<Rightarrow> 'w \<times> 'm result" where
  "loopback server cx cn q w =
     (case server q w of
        (w', Ret (p, e)) \<Rightarrow> (w', case e of Some err \<Rightarrow> Inl err | None \<Rightarrow> Inr (the p))
      | (w', Panic m) \<Rightarrow> (w', Inl (PlainError m)))"

lemma loopback_delivers: "delivers (loopback server) server cs"
  by (simp add: delivers_def loopback_def)

definition demo_unary_env :: "TodoRepo unary_env" where
  "demo_unary_env =
     \<lparr>ue_call = \<lparr>ce_lib = \<lparr>gl_NewClient = (\<lambda>t n. (n, Inr 1)), gl_Close = (\<lambda>c n. (n, None))\<rparr>, ce_num = demo_num,
        ce_err = E0, ce_locals = (\<lambda>_. ANil), ce_ctx = Background\<rparr>,
      ue_req = (\<lambda>f. \<lparr>rq_Body = fc_Header f ''body'', rq_QueryLen = (if fc_Method f = ''GET'' then 1 else 0),
        rq_Queries = [(''id'', fc_Query f ''id'')], rq_RouteParams = [], rq_AllParams = []\<rparr>),
      ue_t0 = 0, ue_t1 = 0, ue_envs = (\<lambda>_. \<lparr>at_now = 0, at_draw = 0, at_abort = None, at_idle = (\<lambda>s. s)\<rparr>)\<rparr>"

definition demo_todo_route :: "example_msg \<Rightarrow> (TodoRepo exchange, unit) route" where
  "demo_todo_route q0 =
     \<lparr>pr_cfg = demo_route, pr_fullRPC = [], pr_rpcService = [],
      pr_invoker = Some (unaryInvoker demo_codec E0 q0 (loopback (ErrorInterceptor E0 (ExampleService E0 id 5)))),
      pr_streamCodec = None, pr_retry = None, pr_breaker = None, pr_balancer = RoundRobin 0, pr_claims = None, pr_conns = [1, 2]\<rparr>"

definition demo_todo_ctx :: "string \<Rightarrow> string \<Rightarrow> string \<Rightarrow> TodoRepo \<Rightarrow> TodoRepo exchange px fctx" where
  "demo_todo_ctx meth body i r =
     \<lparr>fc_Method = meth, fc_Path = ''/api/v1/todos'', fc_RoutePath = [], fc_Header = (\<lambda>_. body), fc_Query = (\<lambda>_. i),
      fc_IP = [], fc_Locals = [], fc_Now = 0, fc_Status = 200, fc_Body = NoBody, fc_Log = [], fc_Metrics = [],
      fc_World = \<lparr>px_breaker = demo_new, px_balancer = RoundRobin 0, px_dialer = NewDialer None,
        px_world = \<lparr>ex_req = demo_req, ex_now = 0, ex_resp = None, ex_world = r\<rparr>\<rparr>\<rparr>"

lemma demo_todo_sel [simp]:
  "ex_world (px_world (fc_World (demo_todo_ctx a b c r))) = r" "px_balancer (fc_World (demo_todo_ctx a b c r)) = RoundRobin 0"
  by (simp_all add: demo_todo_ctx_def)

lemma demo_todo_route_ok:
  "plain_route (demo_todo_route q0) (RoundRobin 0)" "connects demo_codec E0 (ExampleService E0 id 5) q0 (demo_todo_route q0)"
  by (auto simp: plain_route_def connects_def demo_todo_route_def fits_def loopback_delivers)

lemma demo_todo_bind:
  "bindProtoRequest demo_codec E0 (ue_req demo_unary_env (demo_todo_ctx ''POST'' ''milk'' i r)) (CreateTodoRequest [] []) =
     Ret (Inr (CreateTodoRequest ''milk'' []))"
  "bindProtoRequest demo_codec E0 (ue_req demo_unary_env (demo_todo_ctx ''GET'' [] i r)) (GetTodoRequest []) =
     Ret (Inr (GetTodoRequest i))"
proof -
  have "trimSpace ''milk'' = ''milk''" "trimSpace [] = []" by code_simp+
  then show "bindProtoRequest demo_codec E0 (ue_req demo_unary_env (demo_todo_ctx ''POST'' ''milk'' i r)) (CreateTodoRequest [] []) =
      Ret (Inr (CreateTodoRequest ''milk'' []))"
    and "bindProtoRequest demo_codec E0 (ue_req demo_unary_env (demo_todo_ctx ''GET'' [] i r)) (GetTodoRequest []) =
      Ret (Inr (GetTodoRequest i))"
    by (simp_all add: bindProtoRequest_def requestHasPayload_def requestPayloadJSON_def requestPayload_def decodeBody_def
        demo_unary_env_def demo_todo_ctx_def demo_codec_def demo_text_def Let_def)
qed

theorem rest_create_then_get_witness:
  "\<exists>f' (p :: proto_Todo). routeHandler demo_unary_env (demo_todo_route (CreateTodoRequest [] [])) (\<lambda>f. (f, HOk))
       (demo_todo_ctx ''POST'' ''milk'' [] \<lparr>tr_seq = 0, tr_todos = []\<rparr>) = (f', HOk) \<and> fc_Status f' = 200 \<and> pt_Title p = ''milk'' \<and>
     (\<exists>g'. routeHandler demo_unary_env (demo_todo_route (GetTodoRequest [])) (\<lambda>f. (f, HOk))
       (demo_todo_ctx ''GET'' [] (pt_Id p) (ex_world (px_world (fc_World f')))) = (g', HOk) \<and> fc_Status g' = 200)"
proof -
  let ?f = "demo_todo_ctx ''POST'' ''milk'' [] \<lparr>tr_seq = 0, tr_todos = []\<rparr>"
  have e: "ce_err (ue_call demo_unary_env) = E0" by (simp add: demo_unary_env_def)
  have m: "\<forall>m. cd_protoMarshal demo_codec m = Inr ''{}''" by (simp add: demo_codec_def)
  have "plain_route (demo_todo_route (CreateTodoRequest [] [])) (px_balancer (fc_World ?f))"
    by (simp add: demo_todo_route_ok)
  note R = rest_create_then_get [OF refl status_doc_E0 status_kind_E0 e m this demo_todo_route_ok(2) demo_todo_route_ok(2)
      demo_todo_bind(1) demo_todo_sel(1) empty_repo_ok, of "\<lambda>f. (f, HOk)"]
  have "1 \<le> length ''milk'' \<and> length ''milk'' \<le> 128" by simp
  from R [unfolded if_P [OF this]] show ?thesis
  proof (elim exE conjE, goal_cases)
    case (1 f' p)
    from 1(7) [rule_format, of "demo_todo_ctx ''GET'' [] (pt_Id p) (ex_world (px_world (fc_World f')))" "pt_Id p" "\<lambda>f. (f, HOk)"]
    obtain g' where "routeHandler demo_unary_env (demo_todo_route (GetTodoRequest [])) (\<lambda>f. (f, HOk))
       (demo_todo_ctx ''GET'' [] (pt_Id p) (ex_world (px_world (fc_World f')))) = (g', HOk)" "fc_Status g' = 200"
      using demo_todo_bind(2) demo_todo_route_ok(1) by auto
    with 1(1,2,5) show ?case by blast
  qed
qed

section \<open>Listing with a large page number\<close>

text \<open>C39: a large page number crashes the listing. A \<open>ListTodos\<close> request to the service behind the error
  interceptor panics, with the todos unchanged, exactly when the \<open>int32\<close> product of page minus one and
  page size overflows to a negative number, whatever is stored; otherwise it gets a response. For a
  page size of 100 the first page that panics is 21474838. The error interceptor does not turn the
  panic into an error.\<close>

theorem list_page_overflow_panics:
  "((\<exists>m. ErrorInterceptor E (ExampleService E between now) (ListTodosRequest page pageSize b) r = (r, Panic m)) \<longleftrightarrow>
      (let (p, s) = normalizePage page pageSize in page_offset p s < 0)) \<and>
   ((\<exists>resp. ErrorInterceptor E (ExampleService E between now) (ListTodosRequest page pageSize b) r = (r, Ret (Some resp, None))) \<longleftrightarrow>
      \<not> (let (p, s) = normalizePage page pageSize in page_offset p s < 0)) \<and>
   (\<exists>m. ErrorInterceptor E (ExampleService E between now) (ListTodosRequest 21474838 100 b) r = (r, Panic m)) \<and>
   (1 \<le> page \<and> page < 21474838 \<longrightarrow>
      (\<exists>resp. ErrorInterceptor E (ExampleService E between now) (ListTodosRequest page 100 b) r = (r, Ret (Some resp, None))))"
proof -
  let ?call = "\<lambda>page sz. ErrorInterceptor E (ExampleService E between now) (ListTodosRequest page sz b) r"
  have run: "(\<exists>m. ?call page sz = (r, Panic m)) \<longleftrightarrow> (\<exists>m. ListTodos b page sz r = Panic m)"
    "(\<exists>resp. ?call page sz = (r, Ret (Some resp, None))) \<longleftrightarrow> \<not> (\<exists>m. ListTodos b page sz r = Panic m)" for page sz
    by (cases "ListTodos b page sz r", simp_all add: ErrorInterceptor_def handler_ListTodos_def)+
  show ?thesis
    unfolding run ListTodos_panics_iff using page_offset_100(1) page_offset_100(2) [of page]
    by (auto simp: normalizePage_def maxPageSize_def)
qed

theorem list_page_overflow_panics_witness:
  "(\<exists>m. ErrorInterceptor E0 (ExampleService E0 id 5) (ListTodosRequest 21474838 100 False) ten_todos = (ten_todos, Panic m)) \<and>
   (\<exists>resp. ErrorInterceptor E0 (ExampleService E0 id 5) (ListTodosRequest 21474837 100 False) ten_todos =
      (ten_todos, Ret (Some resp, None)))"
  using list_page_overflow_panics [of E0 id 5 21474837 100 False ten_todos, THEN conjunct2, THEN conjunct2] by simp

end
