(* ===== verification/SF_Pipeline.thy ===== *)
theory SF_Pipeline
  imports SF_Request
begin

text \<open>
  A request through an assembled gateway: from the app that \<open>Init\<close> builds (\<open>gateway.go\<close>,
  \<open>plugin_chain.go\<close>) over the global plugins to the proxied call (\<open>proxy.go\<close>, \<open>claimforward.go\<close>). The
  theory adds no code of its own; it composes the models of the assembly, the plugins, the claim
  forwarder and the unary route into statements about who reaches a backend and with which identity.

  The router of fiber is a parameter. \<open>fiber_serves\<close> states what its documentation promises: entries are
  tried in the order in which they were registered, middleware registered without a path runs on every request, a
  route runs when its method and path select the request, and \<open>Next\<close> goes on with the entry after. \<open>passes_on\<close>
  states what the request id middleware does: it stores an id in the locals and goes on.
\<close>

section \<open>The router\<close>

definition fiber_serves ::
  "(string \<Rightarrow> string \<Rightarrow> string \<Rightarrow> string \<Rightarrow> bool) \<Rightarrow> 'w cont \<Rightarrow> ('w app \<Rightarrow> 'w cont) \<Rightarrow> bool" where
  "fiber_serves sel notFound router \<longleftrightarrow>
     (\<forall>c. router [] c = notFound c) \<and>
     (\<forall>h es c. router (Use h # es) c = h (router es) c) \<and>
     (\<forall>m p hs es c. router (Route m p hs # es) c =
        (if sel m p (fc_Method c) (fc_Path c) then chain hs (router es) c else router es c))"

definition passes_on :: "'w handler \<Rightarrow> bool" where
  "passes_on h \<longleftrightarrow> (\<forall>k c. \<exists>l. h k c = k (c\<lparr>fc_Locals := l\<rparr>))"

lemma passes_on_id: "passes_on (\<lambda>k. k)"
  unfolding passes_on_def by (metis fctx.surjective fctx.update_convs(7))

text \<open>A function that routes as documented.\<close>

fun served_by :: "(string \<Rightarrow> string \<Rightarrow> string \<Rightarrow> string \<Rightarrow> bool) \<Rightarrow> 'w cont \<Rightarrow> 'w app \<Rightarrow> 'w cont" where
  "served_by sel notFound [] c = notFound c"
| "served_by sel notFound (Use h # es) c = h (served_by sel notFound es) c"
| "served_by sel notFound (Route m p hs # es) c =
     (if sel m p (fc_Method c) (fc_Path c) then chain hs (served_by sel notFound es) c else served_by sel notFound es c)"

lemma fiber_serves_ex: "fiber_serves sel notFound (served_by sel notFound)"
  by (simp add: fiber_serves_def)

lemma router_simps:
  assumes "fiber_serves sel notFound router"
  shows "router (Use h # es) = h (router es)"
    and "\<not> sel m p (fc_Method c) (fc_Path c) \<Longrightarrow> router (Route m p hs # es) c = router es c"
  using assms by (auto simp: fiber_serves_def)

lemma router_uses:
  assumes "fiber_serves sel notFound router"
  shows "router (map Use hs @ es) = chain hs (router es)"
  by (induction hs) (simp_all add: router_simps(1) [OF assms])

definition bypassed :: "(string \<Rightarrow> string \<Rightarrow> string \<Rightarrow> string \<Rightarrow> bool) \<Rightarrow> 'w fctx \<Rightarrow> 'w entry \<Rightarrow> bool" where
  "bypassed sel c e \<longleftrightarrow> (\<exists>m p hs. e = Route m p hs \<and> \<not> sel m p (fc_Method c) (fc_Path c))"

lemma router_bypasses:
  assumes "fiber_serves sel notFound router" and "\<forall>e \<in> set es. bypassed sel c e"
  shows "router (es @ app) c = router app c"
  using assms(2) by (induction es) (auto simp: bypassed_def router_simps(2) [OF assms(1)])

section \<open>Unobtrusive plugins\<close>

text \<open>An unobtrusive plugin leaves the answer of the chain after it as it is.\<close>

definition same_answer :: "'w fctx \<Rightarrow> 'w fctx \<Rightarrow> bool" where
  "same_answer c d \<longleftrightarrow> fc_World c = fc_World d \<and> fc_Status c = fc_Status d \<and> fc_Body c = fc_Body d"

definition unobtrusive :: "'w handler \<Rightarrow> bool" where
  "unobtrusive h \<longleftrightarrow> observer h \<and> (\<forall>k c. snd (k c) = HOk \<longrightarrow> snd (h k c) = HOk \<and> same_answer (fst (h k c)) (fst (k c)))"

lemma unobtrusive_chain:
  assumes "list_all unobtrusive hs" and "snd (k c) = HOk"
  shows "snd (chain hs k c) = HOk \<and> same_answer (fst (chain hs k c)) (fst (k c))"
  using assms
proof (induction hs)
  case Nil
  then show ?case by (simp add: same_answer_def)
next
  case (Cons h hs)
  then have "snd (chain hs k c) = HOk \<and> same_answer (fst (chain hs k c)) (fst (k c))" by simp
  moreover have "unobtrusive h" using Cons.prems by simp
  ultimately show ?case unfolding unobtrusive_def same_answer_def by simp
qed

lemma unobtrusive_observers: "list_all unobtrusive hs \<Longrightarrow> list_all observer hs"
  by (auto simp: list_all_iff unobtrusive_def)

lemma unobtrusive_recovery: "unobtrusive (recovery_handler E l)"
  by (auto simp: unobtrusive_def same_answer_def recovery_handler_def split: prod.splits hres.splits)

lemma unobtrusive_accesslog: "unobtrusive (accesslog_handler skip l)"
  by (auto simp: unobtrusive_def same_answer_def accesslog_handler_def split: prod.splits hres.splits)

lemma unobtrusive_metrics: "unobtrusive metrics_handler"
  by (auto simp: unobtrusive_def same_answer_def metrics_handler_def split: prod.splits hres.splits)

lemma unobtrusive_wrap: "unobtrusive h \<Longrightarrow> unobtrusive (wrapGlobalPlugin m skips name h)"
  by (auto simp: unobtrusive_def observer_def same_answer_def wrapGlobalPlugin_def)

section \<open>The built-in plugins of a chain\<close>

lemma RegisterBuiltins_empty: "RegisterBuiltins lib plugin_NewRegistry = Ret (builtins lib)"
proof -
  have n: "toLower (trimSpace ''recovery'') = ''recovery''" "toLower (trimSpace ''access_log'') = ''access_log''"
    "toLower (trimSpace ''cors'') = ''cors''" "toLower (trimSpace ''rate_limit'') = ''rate_limit''"
    "toLower (trimSpace ''api_key'') = ''api_key''" "toLower (trimSpace ''jwt'') = ''jwt''"
    "toLower (trimSpace ''metrics'') = ''metrics''"
    by code_simp+
  show ?thesis
    by (simp add: RegisterBuiltins_def plugin_NewRegistry_def builtins_def plugin_MustRegister_def plugin_Register_def n Let_def)
qed

definition observing :: "GatewayPluginConfig \<Rightarrow> bool" where
  "observing spec \<longleftrightarrow> normName (gp_Name spec) \<in> {''recovery'', ''access_log'', ''metrics''}"

text \<open>The paths that a gateway serves in front of its global plugins.\<close>

definition scrape_path :: "GatewayPluginConfig \<Rightarrow> string list" where
  "scrape_path spec =
     (if normName (gp_Name spec) = ''metrics''
      then (case set_String (gp_Config spec) ''path'' ''/metrics'' of Inl e \<Rightarrow> [] | Inr path \<Rightarrow> [path]) else [])"

definition open_paths :: "Config \<Rightarrow> string list" where
  "open_paths cfg = ''/health'' # concat (map scrape_path (filter plugin_IsEnabled (gw_Plugins (c_Gateway cfg))))"

definition built_from :: "'w plug_lib \<Rightarrow> BuildContext \<Rightarrow> GatewayPluginConfig \<Rightarrow> 'w plugin \<Rightarrow> bool" where
  "built_from lib base spec p \<longleftrightarrow>
     (\<exists>f b. map_of (builtins lib) (normName (gp_Name spec)) = Some f \<and>
        f (base\<lparr>bc_Settings := gp_Config spec\<rparr>) = Inr b \<and> p = b\<lparr>pl_Name := normName (gp_Name spec)\<rparr>)"

lemma built_from_builtins:
  assumes "plugin_Build (builtins lib) base specs = Inr ps"
  shows "list_all2 (built_from lib base) (filter plugin_IsEnabled specs) ps"
  by (rule list_all2_mono [OF plugin_Build_pointwise [OF assms]])
    (auto simp: built_from_def plugin_Lookup_def normName_def)

lemma built_observer:
  assumes "built_from lib base spec p" and "observing spec"
  shows "\<exists>h. pl_Handler p = Some h \<and> unobtrusive h"
proof -
  consider "normName (gp_Name spec) = ''recovery''" | "normName (gp_Name spec) = ''access_log''"
    | "normName (gp_Name spec) = ''metrics''"
    using assms(2) unfolding observing_def by blast
  then show ?thesis
    by cases (use assms(1) unobtrusive_recovery unobtrusive_accesslog unobtrusive_metrics in
      \<open>auto simp: built_from_def builtins_def recovery_Factory_def accesslog_Factory_def metrics_Factory_def handlerPlugin_def
        split: sum.splits option.splits\<close>)
qed

lemma built_jwt:
  assumes "built_from lib base spec p" and "normName (gp_Name spec) = ''jwt''"
  shows "\<exists>opt. jwt_buildOptions (gp_Config spec) = Inr opt \<and> pl_Handler p = Some (jwt_handler lib opt) \<and> pl_Name p = ''jwt''"
  using assms by (auto simp: built_from_def builtins_def jwt_Factory_def handlerPlugin_def split: sum.splits)

lemma builtin_mount:
  assumes "map_of (builtins lib) n = Some f" and "f ctx = Inr p" and "pl_Mount p = Some m"
  shows "n = ''metrics'' \<and> (\<exists>path h. set_String (bc_Settings ctx) ''path'' ''/metrics'' = Inr path \<and>
    (\<forall>app. m app = Inr (app @ [Route ''GET'' path [h]])))"
proof (cases "n = ''metrics''")
  case True
  with assms show ?thesis by (auto simp: builtins_def metrics_Factory_def split: sum.splits option.splits)
next
  case False
  then have "(n, f) \<in> set (builtins lib)" using assms(1) by (simp add: map_of_SomeD)
  then have "pl_Mount p = None" if "n \<noteq> ''metrics''"
    using that assms(2)
    by (auto simp: builtins_def recovery_Factory_def accesslog_Factory_def cors_Factory_def ratelimit_Factory_def
        apikey_Factory_def jwt_Factory_def handlerPlugin_def split: sum.splits if_splits)
  with False assms(3) show ?thesis by simp
qed

lemma built_mount:
  assumes "built_from lib base spec p" and "pl_Mount p = Some m"
  shows "\<exists>path h. path \<in> set (scrape_path spec) \<and> (\<forall>app. m app = Inr (app @ [Route ''GET'' path [h]]))"
proof -
  obtain f b where "map_of (builtins lib) (normName (gp_Name spec)) = Some f"
    "f (base\<lparr>bc_Settings := gp_Config spec\<rparr>) = Inr b" "pl_Mount b = Some m"
    using assms by (auto simp: built_from_def)
  from builtin_mount [OF this] show ?thesis by (auto simp: scrape_path_def)
qed

lemma mountAll_builtins:
  assumes "list_all2 (built_from lib base) specs ps" and "mountAll ps app = Inr app'"
  shows "\<exists>mounts. app' = app @ mounts \<and>
    (\<forall>e \<in> set mounts. \<exists>path hs. path \<in> set (concat (map scrape_path specs)) \<and> e = Route ''GET'' path hs)"
  using assms
proof (induction arbitrary: app rule: list_all2_induct)
  case Nil
  then show ?case by simp
next
  case (Cons spec specs p ps)
  show ?case
  proof (cases "pl_Mount p")
    case None
    with Cons show ?thesis by fastforce
  next
    case (Some m)
    from built_mount [OF Cons.hyps(1) Some] obtain path h where
      m: "path \<in> set (scrape_path spec)" "\<forall>app. m app = Inr (app @ [Route ''GET'' path [h]])" by blast
    with Some Cons.prems have "mountAll ps (app @ [Route ''GET'' path [h]]) = Inr app'" by simp
    from Cons.IH [OF this] obtain mounts where "app' = (app @ [Route ''GET'' path [h]]) @ mounts"
      "\<forall>e \<in> set mounts. \<exists>path hs. path \<in> set (concat (map scrape_path specs)) \<and> e = Route ''GET'' path hs"
      by blast
    with m show ?thesis by (intro exI [of _ "Route ''GET'' path [h] # mounts"]) fastforce
  qed
qed

lemma builtins_append: "mounts_append (builtins lib)"
  unfolding mounts_append_def appends_def by (auto dest!: builtin_mount)

section \<open>Requests through the gateway\<close>

text \<open>When a configured route exempts a request from the global plugin \<open>name\<close>.\<close>

definition exempted :: "(string \<Rightarrow> string \<Rightarrow> bool) \<Rightarrow> Config \<Rightarrow> string \<Rightarrow> 'w fctx \<Rightarrow> bool" where
  "exempted matches cfg name c \<longleftrightarrow>
     (\<exists>r \<in> set (gw_Routes (c_Gateway cfg)).
        (\<exists>s \<in> set (rt_SkipGlobalPlugins r). normName s = ''*'' \<or> normName s = name) \<and>
        toUpper (trimSpace (routeMethod r)) = fc_Method c \<and> matches (fc_Path c) (rt_Path r))"

lemma skips_exempted:
  assumes "name \<noteq> []" and "name \<noteq> ''*''"
    and "skips = fold (\<lambda>r. registerPluginSkip (r\<lparr>rt_Method := routeMethod r\<rparr>)) (gw_Routes (c_Gateway cfg)) []"
  shows "skipsGlobalPlugin m skips name c \<longleftrightarrow> exempted m cfg name c"
proof -
  have fm: "fold (\<lambda>r. registerPluginSkip (r\<lparr>rt_Method := routeMethod r\<rparr>)) rs a =
      fold registerPluginSkip (map (\<lambda>r. r\<lparr>rt_Method := routeMethod r\<rparr>) rs) a" for rs a
    by (induction rs arbitrary: a) simp_all
  show ?thesis
    unfolding assms(3) fm skips_fold skip_of_applies [OF assms(1,2)] exempted_def by (simp add: skipsGlobalPlugin_def)
qed

lemma skips_locals [simp]: "skipsGlobalPlugin m skips name (c\<lparr>fc_Locals := l\<rparr>) = skipsGlobalPlugin m skips name c"
  by (simp add: skipsGlobalPlugin_def)

lemma globalUses_append: "globalUses m skips (ps @ qs) = globalUses m skips ps @ globalUses m skips qs"
  by (simp add: globalUses_def)

lemma observers_unobtrusive:
  assumes "list_all2 (built_from lib base) specs ps" and "list_all observing specs"
  shows "\<exists>hs. globalUses m skips ps = map Use hs \<and> list_all unobtrusive hs"
  using assms
proof (induction rule: list_all2_induct)
  case Nil
  then show ?case by (simp add: globalUses_def)
next
  case (Cons spec specs p ps)
  then obtain hs where hs: "globalUses m skips ps = map Use hs" "list_all unobtrusive hs" by auto
  obtain h where "pl_Handler p = Some h" "unobtrusive h"
    using built_observer [OF Cons.hyps(1)] Cons.prems by auto
  with hs have "globalUses m skips (p # ps) = map Use (wrapGlobalPlugin m skips (pl_Name p) h # hs)"
    and "list_all unobtrusive (wrapGlobalPlugin m skips (pl_Name p) h # hs)"
    by (simp_all add: globalUses_def unobtrusive_wrap)
  then show ?case by blast
qed

lemma built_name:
  assumes "built_from lib base spec p"
  shows "pl_Name p = normName (gp_Name spec)" and "pl_Name p \<noteq> []" and "pl_Name p \<noteq> ''*''"
proof -
  obtain f where f: "map_of (builtins lib) (normName (gp_Name spec)) = Some f" and n: "pl_Name p = normName (gp_Name spec)"
    using assms by (auto simp: built_from_def)
  then have "pl_Name p \<in> fst ` set (builtins lib)" by (force dest: map_of_SomeD)
  then show "pl_Name p \<noteq> []" and "pl_Name p \<noteq> ''*''" by (auto simp: builtins_def)
  show "pl_Name p = normName (gp_Name spec)" by (rule n)
qed

text \<open>
  The requests that reach the global plugins: neither the health endpoint nor a plugin's own endpoint
  takes them.
\<close>

definition guarded :: "(string \<Rightarrow> string \<Rightarrow> string \<Rightarrow> string \<Rightarrow> bool) \<Rightarrow> Config \<Rightarrow> 'w fctx \<Rightarrow> bool" where
  "guarded sel cfg c \<longleftrightarrow> (\<forall>path \<in> set (open_paths cfg). \<not> sel ''GET'' path (fc_Method c) (fc_Path c))"

lemma gateway_pipeline:
  assumes "fiber_serves sel notFound router" and "passes_on (ge_requestid env)" and "gateway_init lib = Ret (ge_plugins env)"
    and "gateway_Init env cfg custom gateway_New v = (g, v', None)" and "\<forall>f \<in> set custom. \<forall>a. \<exists>x. f a = a @ x"
    and "filter plugin_IsEnabled (gw_Plugins (c_Gateway cfg)) = obs @ spec # later" and "list_all observing obs"
  shows "\<exists>p hs pre rest. built_from lib (pluginBuildContext cfg) spec p \<and> g_app g = Some (pre @ rest) \<and> list_all unobtrusive hs \<and>
     list_all2 (\<lambda>r route. \<exists>hs. routeEntry env r route hs \<in> set rest) (gw_Routes (c_Gateway cfg)) (g_routes g) \<and>
     (\<forall>h c. pl_Handler p = Some h \<and> guarded sel cfg c \<and> \<not> exempted (ge_matches env) cfg (pl_Name p) c \<longrightarrow>
        (\<exists>l k. router (pre @ rest) c = chain hs k (c\<lparr>fc_Locals := l\<rparr>) \<and>
               k (c\<lparr>fc_Locals := l\<rparr>) = h (router rest) (c\<lparr>fc_Locals := l\<rparr>)))"
proof -
  let ?app0 = "[Use (ge_requestid env), Route ''GET'' ''/health'' [healthHandler]]" and ?m = "ge_matches env"
  have r: "ge_plugins env = builtins lib" using assms(3) by (simp add: gateway_init_def RegisterBuiltins_empty)
  then have "mounts_append (ge_plugins env)" using builtins_append by simp
  from gateway_assembly [OF assms(4) this assms(5)] obtain built mounts rest0 where
    b: "plugin_Build (builtins lib) (pluginBuildContext cfg) (gw_Plugins (c_Gateway cfg)) = Inr built"
    and m: "mountAll built ?app0 = Inr (?app0 @ mounts)"
    and app: "g_app g = Some (?app0 @ mounts @ globalUses ?m (g_skips g) built @ rest0)"
    and routes: "list_all2 (\<lambda>r route. route_ready env r route \<and> (\<exists>hs. routeEntry env r route hs \<in> set rest0))
      (gw_Routes (c_Gateway cfg)) (g_routes g)"
    and skips: "g_skips g = fold (\<lambda>r. registerPluginSkip (r\<lparr>rt_Method := routeMethod r\<rparr>)) (gw_Routes (c_Gateway cfg)) []"
    unfolding r by blast
  from built_from_builtins [OF b] obtain po p pm where built: "built = po @ p # pm"
    and po: "list_all2 (built_from lib (pluginBuildContext cfg)) obs po" and p: "built_from lib (pluginBuildContext cfg) spec p"
    unfolding assms(6) by (auto simp: list_all2_append1 list_all2_Cons1)
  from observers_unobtrusive [OF po assms(7)] obtain hs where
    hs: "globalUses ?m (g_skips g) po = map Use hs" "list_all unobtrusive hs" by blast
  define pre where "pre = ?app0 @ mounts @ map Use hs @ globalUses ?m (g_skips g) [p]"
  define rest where "rest = globalUses ?m (g_skips g) pm @ rest0"
  have uses: "globalUses ?m (g_skips g) built = map Use hs @ globalUses ?m (g_skips g) [p] @ globalUses ?m (g_skips g) pm"
    using globalUses_append [of ?m "g_skips g" "[p]" pm] by (simp add: built globalUses_append hs(1))
  have "list_all2 (\<lambda>r route. \<exists>hs. routeEntry env r route hs \<in> set rest) (gw_Routes (c_Gateway cfg)) (g_routes g)"
    by (rule list_all2_mono [OF routes]) (auto simp: rest_def)
  moreover have "\<exists>l k. router (pre @ rest) c = chain hs k (c\<lparr>fc_Locals := l\<rparr>) \<and>
      k (c\<lparr>fc_Locals := l\<rparr>) = h (router rest) (c\<lparr>fc_Locals := l\<rparr>)"
    if h: "pl_Handler p = Some h" and g: "guarded sel cfg c" and e: "\<not> exempted ?m cfg (pl_Name p) c" for h c
  proof -
    let ?w = "wrapGlobalPlugin ?m (g_skips g) (pl_Name p) h"
    have split: "pre @ rest = Use (ge_requestid env) # (Route ''GET'' ''/health'' [healthHandler] # mounts) @ map Use (hs @ [?w]) @ rest"
      by (simp add: pre_def globalUses_def h)
    obtain l where l: "ge_requestid env (router (tl (pre @ rest))) c = router (tl (pre @ rest)) (c\<lparr>fc_Locals := l\<rparr>)"
      using assms(2) unfolding passes_on_def by blast
    have byp: "\<forall>e \<in> set (Route ''GET'' ''/health'' [healthHandler] # mounts). bypassed sel (c\<lparr>fc_Locals := l\<rparr>) e"
      using mountAll_builtins [OF built_from_builtins [OF b] m] g by (force simp: bypassed_def guarded_def open_paths_def)
    have "router (pre @ rest) c = router (map Use (hs @ [?w]) @ rest) (c\<lparr>fc_Locals := l\<rparr>)"
      using l router_bypasses [OF assms(1) byp, of "map Use (hs @ [?w]) @ rest"]
      unfolding split by (simp add: router_simps(1) [OF assms(1)])
    then have "router (pre @ rest) c = chain hs (?w (router rest)) (c\<lparr>fc_Locals := l\<rparr>)"
      using router_uses [OF assms(1), of "hs @ [?w]" rest] by simp
    moreover have "\<not> skipsGlobalPlugin ?m (g_skips g) (pl_Name p) c"
      using e skips_exempted [OF built_name(2,3) [OF p] skips, of ?m c] by simp
    ultimately show ?thesis
      by (intro exI [of _ l] exI [of _ "?w (router rest)"]) (simp add: wrapGlobalPlugin_def)
  qed
  moreover have "g_app g = Some (pre @ rest)" using app uses by (simp add: pre_def rest_def)
  ultimately show ?thesis using p hs(2) by blast
qed

text \<open>The configuration, the libraries and the gateway of a request's way to its route.\<close>

definition serves_behind ::
  "(string \<Rightarrow> string \<Rightarrow> string \<Rightarrow> string \<Rightarrow> bool) \<Rightarrow> ('w app \<Rightarrow> 'w cont) \<Rightarrow> 'w plug_lib \<Rightarrow> ('w, 'i, 'f, 'v) gw_env \<Rightarrow> Config \<Rightarrow>
   ('w, 'i, 'f) Gateway \<Rightarrow> GatewayPluginConfig \<Rightarrow> bool" where
  "serves_behind sel router lib env cfg g spec \<longleftrightarrow>
     (\<exists>notFound. fiber_serves sel notFound router) \<and> passes_on (ge_requestid env) \<and> gateway_init lib = Ret (ge_plugins env) \<and>
     (\<exists>custom v v'. gateway_Init env cfg custom gateway_New v = (g, v', None) \<and>
        (\<forall>f \<in> set custom. \<forall>a. \<exists>x. f a = a @ x)) \<and>
     (\<exists>obs later. filter plugin_IsEnabled (gw_Plugins (c_Gateway cfg)) = obs @ spec # later \<and> list_all observing obs)"

context gate
begin

text \<open>A gate behind unobtrusive plugins decides alone.\<close>

lemma behind_observers:
  assumes "list_all unobtrusive hs" and "k c = h k' c"
  shows "pass c \<Longrightarrow> fc_World (fst (chain hs k c)) = fc_World (fst (k' (prep c)))"
    and "\<not> pass c \<Longrightarrow> snd (chain hs k c) = HOk \<and> same_answer (fst (chain hs k c)) (deny c)"
proof -
  show "fc_World (fst (chain hs k c)) = fc_World (fst (k' (prep c)))" if "pass c"
    using chain_observers [OF unobtrusive_observers [OF assms(1)]] admit [OF that] assms(2) by simp
  show "snd (chain hs k c) = HOk \<and> same_answer (fst (chain hs k c)) (deny c)" if "\<not> pass c"
    using unobtrusive_chain [OF assms(1), of k c] block [OF that] assms(2) by simp
qed

lemma behind_gateway:
  assumes "serves_behind sel router lib env cfg g spec"
    and "\<And>p. built_from lib (pluginBuildContext cfg) spec p \<Longrightarrow> pl_Handler p = Some h"
  shows "\<exists>pre rest. g_app g = Some (pre @ rest) \<and>
    list_all2 (\<lambda>r route. \<exists>hs. routeEntry env r route hs \<in> set rest) (gw_Routes (c_Gateway cfg)) (g_routes g) \<and>
    (\<forall>c. guarded sel cfg c \<and> \<not> exempted (ge_matches env) cfg (normName (gp_Name spec)) c \<longrightarrow>
      (\<exists>l. (pass (c\<lparr>fc_Locals := l\<rparr>) \<longrightarrow>
             fc_World (fst (router (pre @ rest) c)) = fc_World (fst (router rest (prep (c\<lparr>fc_Locals := l\<rparr>))))) \<and>
           (\<not> pass (c\<lparr>fc_Locals := l\<rparr>) \<longrightarrow>
             snd (router (pre @ rest) c) = HOk \<and> same_answer (fst (router (pre @ rest) c)) (deny (c\<lparr>fc_Locals := l\<rparr>)))))"
proof -
  obtain notFound custom v v' obs later where a: "fiber_serves sel notFound router" "passes_on (ge_requestid env)"
    "gateway_init lib = Ret (ge_plugins env)" "gateway_Init env cfg custom gateway_New v = (g, v', None)"
    "\<forall>f \<in> set custom. \<forall>a. \<exists>x. f a = a @ x"
    "filter plugin_IsEnabled (gw_Plugins (c_Gateway cfg)) = obs @ spec # later" "list_all observing obs"
    using assms(1) unfolding serves_behind_def by blast
  from gateway_pipeline [OF a] obtain p hs pre rest where
    p: "built_from lib (pluginBuildContext cfg) spec p" and app: "g_app g = Some (pre @ rest)" and hs: "list_all unobtrusive hs"
    and routes: "list_all2 (\<lambda>r route. \<exists>hs. routeEntry env r route hs \<in> set rest) (gw_Routes (c_Gateway cfg)) (g_routes g)"
    and run: "\<And>h c. pl_Handler p = Some h \<and> guarded sel cfg c \<and> \<not> exempted (ge_matches env) cfg (pl_Name p) c \<Longrightarrow>
        \<exists>l k. router (pre @ rest) c = chain hs k (c\<lparr>fc_Locals := l\<rparr>) \<and>
               k (c\<lparr>fc_Locals := l\<rparr>) = h (router rest) (c\<lparr>fc_Locals := l\<rparr>)"
    by blast
  have "\<exists>l. (pass (c\<lparr>fc_Locals := l\<rparr>) \<longrightarrow>
             fc_World (fst (router (pre @ rest) c)) = fc_World (fst (router rest (prep (c\<lparr>fc_Locals := l\<rparr>))))) \<and>
           (\<not> pass (c\<lparr>fc_Locals := l\<rparr>) \<longrightarrow>
             snd (router (pre @ rest) c) = HOk \<and> same_answer (fst (router (pre @ rest) c)) (deny (c\<lparr>fc_Locals := l\<rparr>)))"
    if "guarded sel cfg c \<and> \<not> exempted (ge_matches env) cfg (normName (gp_Name spec)) c" for c
  proof -
    from run [of h c] assms(2) [OF p] built_name(1) [OF p] that obtain l k where
      "router (pre @ rest) c = chain hs k (c\<lparr>fc_Locals := l\<rparr>)"
      and k: "k (c\<lparr>fc_Locals := l\<rparr>) = h (router rest) (c\<lparr>fc_Locals := l\<rparr>)" by auto
    with behind_observers [where k = k and c = "c\<lparr>fc_Locals := l\<rparr>" and k' = "router rest", OF hs k] show ?thesis by auto
  qed
  with app routes show ?thesis by blast
qed

end

section \<open>Changing the invoker\<close>

text \<open>Two routes that differ only in the invoker, and an invoker that is called in the same way by both.\<close>

lemma pickConn_invoker [simp]: "pickConn (r\<lparr>pr_invoker := x\<rparr>) = pickConn r"
proof -
  have "pr_conns (r\<lparr>pr_invoker := x\<rparr>) = pr_conns r" by simp
  then show ?thesis unfolding pickConn_def fun_eq_iff by metis
qed

lemma attemptTimeout_invoker [simp]: "attemptTimeout (r\<lparr>pr_invoker := x\<rparr>) = attemptTimeout r"
  by (simp add: attemptTimeout_def split: option.splits)

lemma WithTimeout_md [simp]: "ctx_md (WithTimeout now c d) = ctx_md c"
  by (simp add: WithTimeout_def)

lemma handle_ctx_md [simp]: "ctx_md (handle_ctx c) = []"
  by (auto simp: handle_ctx_def Background_def split: option.splits any.splits)

definition calls_agree :: "'w call_env \<Rightarrow> ('w, 'c) route \<Rightarrow> 'w invoker \<Rightarrow> 'w invoker \<Rightarrow> bool" where
  "calls_agree ce r ivk ivk' \<longleftrightarrow>
     (\<forall>cx cn s. ctx_md cx = ctx_md (ce_ctx ce) \<longrightarrow>
        callInvoker ce (r\<lparr>pr_invoker := Some ivk\<rparr>) cx cn s = callInvoker ce (r\<lparr>pr_invoker := Some ivk'\<rparr>) cx cn s)"

lemma invokeOnce_agree:
  assumes "calls_agree ce r ivk ivk'"
  shows "invokeOnce ce (r\<lparr>pr_invoker := Some ivk\<rparr>) env s = invokeOnce ce (r\<lparr>pr_invoker := Some ivk'\<rparr>) env s"
proof -
  let ?cx = "if attemptTimeout r > 0 then WithTimeout (at_now env) (ce_ctx ce) (attemptTimeout r) else ce_ctx ce"
  have "callInvoker ce (r\<lparr>pr_invoker := Some ivk\<rparr>) ?cx = callInvoker ce (r\<lparr>pr_invoker := Some ivk'\<rparr>) ?cx"
    using assms unfolding calls_agree_def by (intro ext) simp
  moreover have "pr_cfg (r\<lparr>pr_invoker := x\<rparr>) = pr_cfg r" for x by simp
  ultimately show ?thesis unfolding invokeOnce_def attemptTimeout_invoker pickConn_invoker by metis
qed

lemma retryLoop_agree:
  assumes "calls_agree ce r ivk ivk'"
  shows "retryLoop ce (r\<lparr>pr_invoker := Some ivk\<rparr>) p envs i e s = retryLoop ce (r\<lparr>pr_invoker := Some ivk'\<rparr>) p envs i e s"
proof (induction "nat (rp_maxAttempts p - int i)" arbitrary: i e s)
  case 0
  then show ?case by (simp add: retryLoop.simps [of ce _ p envs i])
next
  case (Suc n)
  have "n = nat (rp_maxAttempts p - int (i + 1))" using Suc.hyps(2) by simp
  note step = Suc.hyps(1) [OF this]
  show ?case by (subst (1 2) retryLoop.simps) (unfold step invokeOnce_agree [OF assms], rule refl)
qed

lemma Invoke_agree:
  assumes "calls_agree ce r ivk ivk'"
  shows "Invoke ce (r\<lparr>pr_invoker := Some ivk\<rparr>) = Invoke ce (r\<lparr>pr_invoker := Some ivk'\<rparr>)"
proof -
  have iwr: "invokeWithRetry ce (r\<lparr>pr_invoker := Some ivk\<rparr>) = invokeWithRetry ce (r\<lparr>pr_invoker := Some ivk'\<rparr>)"
    by (intro ext) (simp add: invokeWithRetry_def invokeOnce_agree [OF assms] retryLoop_agree [OF assms] split: option.splits)
  have sel: "pr_breaker (r\<lparr>pr_invoker := x\<rparr>) = pr_breaker r" "pr_fullRPC (r\<lparr>pr_invoker := x\<rparr>) = pr_fullRPC r" for x
    by simp_all
  show ?thesis unfolding Invoke_def iwr sel by (rule refl)
qed

section \<open>Metadata\<close>

text \<open>The metadata a route's claim specifications make of verified claims, and whether they refuse the request.\<close>

definition claim_pairs :: "ClaimForwardConfig list \<Rightarrow> claimPair list" where
  "claim_pairs specs = map claim_pair (filter (\<lambda>s. trimSpace (cf_Claim s) \<noteq> []) specs)"

definition claim_metadata :: "num_env \<Rightarrow> (string \<times> any) list \<Rightarrow> ClaimForwardConfig list \<Rightarrow> (string \<times> string) list" where
  "claim_metadata N claims specs =
     map (\<lambda>p. (cp_header p, the (forwarded N claims p))) (filter (\<lambda>p. forwarded N claims p \<noteq> None) (claim_pairs specs))"

text \<open>An invoker that panics when it is called with other metadata, and one that is never called.\<close>

definition metadata_guard :: "(string \<times> string) list \<Rightarrow> 'w invoker \<Rightarrow> 'w invoker" where
  "metadata_guard md ivk cx cn s = (if ctx_md cx = md then ivk cx cn s else (s, Panic ''other metadata''))"

definition never_called :: "'w invoker" where
  "never_called cx cn s = (s, Panic ''called'')"

lemma forwarded_agree:
  assumes "pr_claims r = buildClaimForwarder specs" and "ctx_md (ce_ctx ce) = []"
    and "asClaims (ce_locals ce claimsLocal) = Some claims"
  shows "find (blocks (ce_num ce) claims) (claim_pairs specs) = None \<Longrightarrow>
      calls_agree ce r ivk (metadata_guard (claim_metadata (ce_num ce) claims specs) ivk)"
    and "find (blocks (ce_num ce) claims) (claim_pairs specs) = Some p \<Longrightarrow> calls_agree ce r ivk never_called"
  using assms
  by (auto simp: calls_agree_def callInvoker_def outgoing_spec Let_def claim_pairs_def [symmetric]
      claim_metadata_def metadata_guard_def AppendToOutgoingContext_def)

lemma routeHandler_agree:
  assumes "calls_agree ((ue_call ue)\<lparr>ce_ctx := handle_ctx f, ce_locals := fiberLocals f\<rparr>) r ivk ivk'"
  shows "routeHandler ue (r\<lparr>pr_invoker := Some ivk\<rparr>) k f = routeHandler ue (r\<lparr>pr_invoker := Some ivk'\<rparr>) k f"
  using Invoke_agree [OF assms] by (simp add: routeHandler_def Handle_def)

lemma fiberLocals_claims [simp]: "asClaims (fiberLocals (with_claims claims c) claimsLocal) = Some claims"
  by (simp add: fiberLocals_def with_claims_def gomap ClaimsLocal_def claimsLocal_def asClaims_def)

text \<open>A request without a required claim, on a route without breaker and retries.\<close>

lemma missing_claim_401:
  assumes "pr_claims r = buildClaimForwarder specs" and "pr_breaker r = None" and "pr_retry r = None"
    and "pr_conns r \<noteq> []" and "fits (length (pr_conns r)) (px_balancer (fc_World f))"
    and "asClaims (fiberLocals f claimsLocal) = Some claims" and "E = errors_init se fe" and "ce_err (ue_call ue) = E"
    and "find (blocks (ce_num (ue_call ue)) claims) (claim_pairs specs) = Some p"
  shows "\<exists>f'. routeHandler ue r k f = (f', HOk) \<and> ex_world (px_world (fc_World f')) = ex_world (px_world (fc_World f)) \<and>
    fc_Status f' = 401 \<and> fc_Body f' = JSONBody (Failure E (fc_Now f) (missingClaim E p))"
proof -
  let ?ce = "(ue_call ue)\<lparr>ce_ctx := handle_ctx f, ce_locals := fiberLocals f\<rparr>"
  let ?s = "(fc_World f)\<lparr>px_world := (px_world (fc_World f))\<lparr>ex_req := ue_req ue f, ex_now := fc_Now f, ex_resp := None\<rparr>\<rparr>"
  obtain b' c rel where pc: "pickConn r (at_draw (ue_envs ue 0)) (px_balancer (fc_World f)) = Ret (b', Some c, rel)"
    using pickConn_some [OF assms(4,5)] by blast
  have "callInvoker ?ce r cx c s = (s, Ret (Inl (missingClaim E p)))" for cx s
    using assms(1,6,8,9) by (simp add: callInvoker_def outgoing_spec Let_def claim_pairs_def)
  then have "Invoke ?ce r (ue_t0 ue) (ue_t1 ue) (ue_envs ue) ?s =
      (?s\<lparr>px_balancer := release rel b'\<rparr>, Ret (Inl (missingClaim E p)))"
    using pc assms(2,3) by (simp add: Invoke_def invokeWithRetry_def invokeOnce_def Let_def)
  moreover have "HTTPStatus E CodeUnauthenticated = 401"
    by (simp add: assms(7) errors_init_def HTTPStatus_def httpMap0_def code_defs)
  moreover have "appError_of E (missingClaim E p) = missingClaim E p"
    by (simp add: missingClaim_def New_def appError_of_def)
  ultimately show ?thesis
    by (simp add: routeHandler_def Handle_def Let_def applyResponse_def assms(8))
qed

section \<open>Properties\<close>

definition unauthenticated :: "string \<Rightarrow> 'w fctx \<Rightarrow> 'w fctx \<times> hres \<Rightarrow> bool" where
  "unauthenticated msg c out \<longleftrightarrow>
     snd out = HOk \<and> fc_World (fst out) = fc_World c \<and> fc_Status (fst out) = 401 \<and>
     fc_Body (fst out) = JSONBody (failure_envelope CodeUnauthenticated msg (fc_Now c))"

lemma same_answer_401:
  assumes "E = errors_init se fe" and "snd out = HOk"
    and "same_answer (fst out) (fst (WriteError E (New E CodeUnauthenticated msg) (c\<lparr>fc_Locals := l\<rparr>)))"
  shows "unauthenticated msg c out"
proof -
  have "HTTPStatus E CodeUnauthenticated = 401"
    by (simp add: assms(1) errors_init_def HTTPStatus_def httpMap0_def code_defs)
  with assms(2,3) show ?thesis
    by (simp add: unauthenticated_def same_answer_def WriteError_def Failure_def failure_envelope_def New_def Let_def)
qed

lemma extractToken_locals [simp]: "extractToken (c\<lparr>fc_Locals := l\<rparr>) header scheme = extractToken c header scheme"
  by (simp add: extractToken_def)

lemma jwt_claims_locals [simp]: "jwt_claims_of lib opt (c\<lparr>fc_Locals := l\<rparr>) = jwt_claims_of lib opt c"
  by (simp add: jwt_claims_of_def)

lemma apikey_locals [simp]: "apikey_candidate header query (c\<lparr>fc_Locals := l\<rparr>) = apikey_candidate header query c"
  by (simp add: apikey_candidate_def)

text \<open>C10: a global JWT plugin protects every configured route. Take a gateway that started with the built-in
  plugins and whose JWT plugin is preceded by recovery, access log and metrics plugins at most. Then every
  configured route is registered behind the plugin; a request that is neither for the health endpoint nor for a
  metrics endpoint, and that no route's skip list exempts, is answered 401 with the code UNAUTHENTICATED if it
  carries no token that verifies, and the world behind the gateway is as before; if its token verifies, what
  happens behind the gateway is what the rest of the app does with the verified claims in the locals.\<close>

theorem global_jwt_protects:
  assumes "serves_behind sel router lib env cfg g spec" and "lb_err lib = errors_init se fe"
    and "normName (gp_Name spec) = ''jwt''" and "jwt_buildOptions (gp_Config spec) = Inr opt"
  shows "\<exists>pre rest. g_app g = Some (pre @ rest) \<and>
    list_all2 (\<lambda>r route. \<exists>hs. routeEntry env r route hs \<in> set rest) (gw_Routes (c_Gateway cfg)) (g_routes g) \<and>
    (\<forall>c. guarded sel cfg c \<and> \<not> exempted (ge_matches env) cfg ''jwt'' c \<longrightarrow>
      (case jwt_claims_of lib opt c of
         None \<Rightarrow> unauthenticated (if extractToken c (jo_header opt) (jo_scheme opt) = None then ''missing bearer token''
                                   else ''invalid token'') c (router (pre @ rest) c)
       | Some claims \<Rightarrow> \<exists>l. fc_World (fst (router (pre @ rest) c)) =
           fc_World (fst (router rest (with_claims claims (c\<lparr>fc_Locals := l\<rparr>))))))"
proof -
  have h: "pl_Handler p = Some (jwt_handler lib opt)" if "built_from lib (pluginBuildContext cfg) spec p" for p
    using built_jwt [OF that assms(3)] assms(4) by auto
  have deny: "unauthenticated (if extractToken c (jo_header opt) (jo_scheme opt) = None then ''missing bearer token''
      else ''invalid token'') c out"
    if "snd out = HOk \<and> same_answer (fst out) (jwt_deny lib opt (c\<lparr>fc_Locals := l\<rparr>))" for c out l
    by (rule same_answer_401 [OF assms(2), where l = l]) (use that in \<open>simp_all add: jwt_deny_def\<close>)
  from jwg.behind_gateway [OF assms(1) h] obtain pre rest where "g_app g = Some (pre @ rest)"
    "list_all2 (\<lambda>r route. \<exists>hs. routeEntry env r route hs \<in> set rest) (gw_Routes (c_Gateway cfg)) (g_routes g)"
    "\<forall>c. guarded sel cfg c \<and> \<not> exempted (ge_matches env) cfg (normName (gp_Name spec)) c \<longrightarrow>
      (\<exists>l. (jwt_claims_of lib opt c \<noteq> None \<longrightarrow> fc_World (fst (router (pre @ rest) c)) =
             fc_World (fst (router rest (with_claims (the (jwt_claims_of lib opt c)) (c\<lparr>fc_Locals := l\<rparr>))))) \<and>
           (\<not> jwt_claims_of lib opt c \<noteq> None \<longrightarrow> snd (router (pre @ rest) c) = HOk \<and>
             same_answer (fst (router (pre @ rest) c)) (jwt_deny lib opt (c\<lparr>fc_Locals := l\<rparr>))))"
    by (simp only: jwt_claims_locals) blast
  with deny show ?thesis
    unfolding assms(3) by (intro exI [of _ pre] exI [of _ rest]) (fastforce split: option.splits)
qed

definition demo_rec_spec :: GatewayPluginConfig where
  "demo_rec_spec = \<lparr>gp_Name = ''recovery'', gp_Enabled = None, gp_Config = []\<rparr>"

definition demo_jwt_spec :: GatewayPluginConfig where
  "demo_jwt_spec = \<lparr>gp_Name = '' JWT'', gp_Enabled = Some True, gp_Config = [(''secret'', AString ''s3cret'')]\<rparr>"

definition demo_pipe_env :: "(nat, nat, nat, nat) gw_env" where
  "demo_pipe_env = demo_gw_env\<lparr>ge_plugins := builtins demo_lib\<rparr>"

definition demo_pipe_cfg :: Config where
  "demo_pipe_cfg = Default\<lparr>c_Gateway := (c_Gateway Default)\<lparr>gw_Plugins := [demo_rec_spec, demo_jwt_spec], gw_Routes := [demo_pooled]\<rparr>\<rparr>"

definition demo_sel :: "string \<Rightarrow> string \<Rightarrow> string \<Rightarrow> string \<Rightarrow> bool" where
  "demo_sel m p m' p' \<longleftrightarrow> m = m' \<and> p = p'"

lemma demo_pipe_sel [simp]:
  "gw_Plugins (c_Gateway demo_pipe_cfg) = [demo_rec_spec, demo_jwt_spec]" "gw_Routes (c_Gateway demo_pipe_cfg) = [demo_pooled]"
  "ge_requestid demo_pipe_env = (\<lambda>k. k)" "ge_plugins demo_pipe_env = builtins demo_lib"
  "normName (gp_Name demo_jwt_spec) = ''jwt''" "normName (gp_Name demo_rec_spec) = ''recovery''"
  "plugin_IsEnabled demo_rec_spec" "plugin_IsEnabled demo_jwt_spec"
  "jwt_buildOptions (gp_Config demo_jwt_spec) = Inr demo_jwt"
  by (simp_all add: demo_pipe_cfg_def demo_pipe_env_def demo_gw_env_def) code_simp+

lemma demo_pipe_mount: "\<exists>app'. mountGlobalPlugins demo_pipe_env demo_pipe_cfg skips app = Inr app'"
proof -
  have "plugin_Lookup (gp_Name demo_rec_spec) (builtins demo_lib) = Some (recovery_Factory demo_lib)"
    "plugin_Lookup (gp_Name demo_jwt_spec) (builtins demo_lib) = Some (jwt_Factory demo_lib)"
    using demo_pipe_sel(5,6) by (simp_all add: plugin_Lookup_def normName_def builtins_def)
  then show ?thesis
    by (simp add: mountGlobalPlugins_def recovery_Factory_def jwt_Factory_def handlerPlugin_def)
qed

lemma demo_pipe_init:
  "\<exists>g v'. gateway_Init demo_pipe_env demo_pipe_cfg [] gateway_New 0 = (g, v', None) \<and> g_skips g = []"
proof -
  obtain app1 where "mountGlobalPlugins demo_pipe_env demo_pipe_cfg (globalSkips demo_pipe_cfg (gateway_New :: (nat, nat, nat) Gateway))
      [Use (ge_requestid demo_pipe_env), Route ''GET'' ''/health'' [healthHandler]] = Inr app1"
    using demo_pipe_mount by blast
  moreover obtain app' g' v' where "mountRoute demo_pipe_env demo_pipe_cfg demo_pooled
      (app1, gateway_New\<lparr>g_address := Address (gw_ListenIP (c_Gateway demo_pipe_cfg)) (gw_Port (c_Gateway demo_pipe_cfg))\<rparr>, 0) =
      ((app', g', v'), None)" and "g_skips g' = []"
    using demo_gw_mount [of "builtins demo_lib" demo_pipe_cfg app1]
    by (fastforce simp: demo_pipe_env_def gateway_New_def)
  ultimately show ?thesis by (simp add: gateway_Init_def Let_def)
qed

theorem global_jwt_protects_witness:
  "\<exists>app. g_app (fst (gateway_Init demo_pipe_env demo_pipe_cfg [] gateway_New 0)) = Some app \<and>
     unauthenticated ''missing bearer token'' (demo_fctx\<lparr>fc_Header := (\<lambda>_. [])\<rparr>)
       (served_by demo_sel (\<lambda>c. (c, HErr errUpgradeRequired)) app (demo_fctx\<lparr>fc_Header := (\<lambda>_. [])\<rparr>))"
proof -
  let ?c = "demo_fctx\<lparr>fc_Header := (\<lambda>_. [])\<rparr>" and ?router = "served_by demo_sel (\<lambda>c. (c, HErr errUpgradeRequired))"
  obtain g v' where g: "gateway_Init demo_pipe_env demo_pipe_cfg [] gateway_New 0 = (g, v', None)" "g_skips g = []"
    using demo_pipe_init by blast
  have "serves_behind demo_sel ?router demo_lib demo_pipe_env demo_pipe_cfg g demo_jwt_spec"
    unfolding serves_behind_def
  proof (intro conjI)
    show "\<exists>custom v v'. gateway_Init demo_pipe_env demo_pipe_cfg custom gateway_New v = (g, v', None) \<and>
        (\<forall>f \<in> set custom. \<forall>a. \<exists>x. f a = a @ x)"
      using g by (intro exI [of _ "[]"] exI [of _ 0] exI [of _ v']) simp
    show "\<exists>obs later. filter plugin_IsEnabled (gw_Plugins (c_Gateway demo_pipe_cfg)) = obs @ demo_jwt_spec # later \<and> list_all observing obs"
      by (intro exI [of _ "[demo_rec_spec]"] exI [of _ "[]"]) (simp add: observing_def)
    show "\<exists>notFound. fiber_serves demo_sel notFound ?router" using fiber_serves_ex by blast
    show "passes_on (ge_requestid demo_pipe_env)" by (simp add: passes_on_id)
  qed (simp add: gateway_init_def RegisterBuiltins_empty)
  note P = global_jwt_protects [OF this _ demo_pipe_sel(5,9), of plain_status_Error plain_status_FromError]
  have E: "lb_err demo_lib = errors_init plain_status_Error plain_status_FromError" by (simp add: demo_lib_def)
  have none: "trimSpace [] = []" "rt_SkipGlobalPlugins demo_pooled = []" by code_simp+
  have c: "guarded demo_sel demo_pipe_cfg ?c" "\<not> exempted (ge_matches demo_pipe_env) demo_pipe_cfg ''jwt'' ?c"
    "extractToken ?c (jo_header demo_jwt) (jo_scheme demo_jwt) = None" "jwt_claims_of demo_lib demo_jwt ?c = None"
    by (simp_all add: guarded_def open_paths_def scrape_path_def demo_sel_def demo_fctx_def exempted_def none extractToken_def
        jwt_claims_of_def)
  from P [OF E] c g(1) show ?thesis by fastforce
qed

text \<open>The same for a global API key plugin: only a request with one of the configured keys gets past it.\<close>

theorem global_key_protects:
  assumes "serves_behind sel router lib env cfg g spec" and "lb_err lib = errors_init se fe"
    and "normName (gp_Name spec) = ''api_key''" and "set_Strings (gp_Config spec) ''keys'' = Inr keys"
    and "set_String (gp_Config spec) ''header'' ''X-API-Key'' = Inr header" and "set_String (gp_Config spec) ''query'' [] = Inr query"
  shows "\<exists>pre rest. g_app g = Some (pre @ rest) \<and>
    list_all2 (\<lambda>r route. \<exists>hs. routeEntry env r route hs \<in> set rest) (gw_Routes (c_Gateway cfg)) (g_routes g) \<and>
    (\<forall>c. guarded sel cfg c \<and> \<not> exempted (ge_matches env) cfg ''api_key'' c \<longrightarrow>
      (if matchesAny (apikey_candidate header query c) keys
       then \<exists>l. fc_World (fst (router (pre @ rest) c)) = fc_World (fst (router rest (c\<lparr>fc_Locals := l\<rparr>)))
       else unauthenticated ''invalid api key'' c (router (pre @ rest) c)))"
proof -
  have h: "pl_Handler p = Some (apikey_handler (lb_err lib) keys header query)"
    if "built_from lib (pluginBuildContext cfg) spec p" for p
    using that assms(3-6) by (auto simp: built_from_def builtins_def apikey_Factory_def handlerPlugin_def split: if_splits)
  have deny: "unauthenticated ''invalid api key'' c out"
    if "snd out = HOk \<and> same_answer (fst out) (apikey_deny (lb_err lib) (c\<lparr>fc_Locals := l\<rparr>))" for c out l
    by (rule same_answer_401 [OF assms(2), where l = l]) (use that in \<open>simp_all add: apikey_deny_def\<close>)
  from akg.behind_gateway [OF assms(1) h] obtain pre rest where app: "g_app g = Some (pre @ rest)"
    "list_all2 (\<lambda>r route. \<exists>hs. routeEntry env r route hs \<in> set rest) (gw_Routes (c_Gateway cfg)) (g_routes g)"
    and run: "\<forall>c. guarded sel cfg c \<and> \<not> exempted (ge_matches env) cfg (normName (gp_Name spec)) c \<longrightarrow>
      (\<exists>l. (matchesAny (apikey_candidate header query c) keys \<longrightarrow> fc_World (fst (router (pre @ rest) c)) =
             fc_World (fst (router rest (c\<lparr>fc_Locals := l\<rparr>)))) \<and>
           (\<not> matchesAny (apikey_candidate header query c) keys \<longrightarrow> snd (router (pre @ rest) c) = HOk \<and>
             same_answer (fst (router (pre @ rest) c)) (apikey_deny (lb_err lib) (c\<lparr>fc_Locals := l\<rparr>))))"
    by (simp only: apikey_locals) blast
  have "if matchesAny (apikey_candidate header query c) keys
       then \<exists>l. fc_World (fst (router (pre @ rest) c)) = fc_World (fst (router rest (c\<lparr>fc_Locals := l\<rparr>)))
       else unauthenticated ''invalid api key'' c (router (pre @ rest) c)"
    if "guarded sel cfg c \<and> \<not> exempted (ge_matches env) cfg ''api_key'' c" for c
    using run [unfolded assms(3), rule_format, OF that] deny [of "router (pre @ rest) c"]
    by (cases "matchesAny (apikey_candidate header query c) keys") auto
  with app show ?thesis by blast
qed

text \<open>C11: a backend learns the identity of the caller from the verified token alone. Behind the JWT plugin, a route
  with claim specifications runs, whatever its breaker, retries and pool, exactly as if its invoker refused to be
  called with any metadata other than the pairs made of the verified claims: nothing the client sends in headers
  of its own gets there, and no attempt goes without them. If a required claim is missing the invoker is never called;
  on a route without breaker and retries the answer is then 401, naming the claim, and the backend is as before.\<close>

theorem identity_forwarded:
  assumes "pr_claims r = buildClaimForwarder specs" and "jwt_claims_of lib opt c = Some claims"
    and "ce_num (ue_call ue) = N" and "ce_err (ue_call ue) = E" and "E = errors_init se fe"
  shows "let reach = (\<lambda>ivk. chain [jwt_handler lib opt, routeHandler ue (r\<lparr>pr_invoker := Some ivk\<rparr>)] k c) in
    case find (blocks N claims) (claim_pairs specs) of
      None \<Rightarrow> reach ivk = reach (metadata_guard (claim_metadata N claims specs) ivk)
    | Some p \<Rightarrow> reach ivk = reach never_called \<and>
        (pr_breaker r = None \<and> pr_retry r = None \<and> pr_conns r \<noteq> [] \<and> fits (length (pr_conns r)) (px_balancer (fc_World c)) \<longrightarrow>
           snd (reach ivk) = HOk \<and> fc_Status (fst (reach ivk)) = 401 \<and>
           ex_world (px_world (fc_World (fst (reach ivk)))) = ex_world (px_world (fc_World c)) \<and>
           fc_Body (fst (reach ivk)) = JSONBody (Failure E (fc_Now c) (missingClaim E p)))"
proof -
  let ?f = "with_claims claims c"
  have jwt: "jwt_handler lib opt k' c = k' ?f" for k'
    using jwg.admit [of lib opt c k'] assms(2) by simp
  have sel: "fc_World ?f = fc_World c" "fc_Now ?f = fc_Now c" by (simp_all add: with_claims_def)
  note agree = forwarded_agree [OF assms(1), of "(ue_call ue)\<lparr>ce_ctx := handle_ctx ?f, ce_locals := fiberLocals ?f\<rparr>" claims]
  show ?thesis
  proof (cases "find (blocks N claims) (claim_pairs specs)")
    case None
    then have "routeHandler ue (r\<lparr>pr_invoker := Some ivk\<rparr>) k ?f =
        routeHandler ue (r\<lparr>pr_invoker := Some (metadata_guard (claim_metadata N claims specs) ivk)\<rparr>) k ?f"
      using routeHandler_agree [OF agree(1) [where ivk = ivk]] assms(3) by simp
    with None show ?thesis by (simp add: jwt)
  next
    case (Some p)
    let ?run = "routeHandler ue (r\<lparr>pr_invoker := Some ivk\<rparr>) k ?f"
    have same: "?run = routeHandler ue (r\<lparr>pr_invoker := Some never_called\<rparr>) k ?f"
      by (rule routeHandler_agree, rule agree(2) [where p = p]) (use assms(3) Some in simp_all)
    have deny: "snd ?run = HOk \<and> fc_Status (fst ?run) = 401 \<and>
        ex_world (px_world (fc_World (fst ?run))) = ex_world (px_world (fc_World c)) \<and>
        fc_Body (fst ?run) = JSONBody (Failure E (fc_Now c) (missingClaim E p))"
      if "pr_breaker r = None \<and> pr_retry r = None \<and> pr_conns r \<noteq> [] \<and> fits (length (pr_conns r)) (px_balancer (fc_World c))"
    proof -
      have "\<exists>f'. ?run = (f', HOk) \<and> ex_world (px_world (fc_World f')) = ex_world (px_world (fc_World ?f)) \<and>
          fc_Status f' = 401 \<and> fc_Body f' = JSONBody (Failure E (fc_Now ?f) (missingClaim E p))"
        by (rule missing_claim_401 [where claims = claims and specs = specs]) (use that assms Some sel in simp_all)
      then show ?thesis unfolding sel by force
    qed
    show ?thesis unfolding Let_def Some option.case chain_simps jwt using same deny by blast
  qed
qed

text \<open>A caller whose token has the subject \<open>u1\<close> and no tier; a route that forwards both, the tier with a default.\<close>

definition demo_id_lib :: "TodoRepo exchange px plug_lib" where
  "demo_id_lib =
     \<lparr>lb_jwtParse = (\<lambda>sec alg iss aud t. if t = ''good'' then Inr ([(''sub'', AString ''u1'')], True)
                                        else Inl (PlainError ''signature is invalid'')),
      lb_corsDefault = demo_cors, lb_cors = (\<lambda>_ k. k), lb_limiter = (\<lambda>_ _ _ k. k), lb_promRegister = (\<lambda>_. None),
      lb_scrape = (\<lambda>_ k. k), lb_parseDuration = (\<lambda>_. None), lb_durationString = itoa, lb_num = demo_num, lb_err = E0\<rparr>"

definition demo_id_route :: "(TodoRepo exchange, unit) route" where
  "demo_id_route = (demo_todo_route (GetTodoRequest []))\<lparr>pr_claims := buildClaimForwarder demo_claims\<rparr>"

theorem identity_forwarded_witness:
  "\<forall>ivk k i. let c = demo_todo_ctx ''GET'' ''Bearer good'' i \<lparr>tr_seq = 0, tr_todos = []\<rparr>;
      reach = (\<lambda>ivk. chain [jwt_handler demo_id_lib demo_jwt, routeHandler demo_unary_env (demo_id_route\<lparr>pr_invoker := Some ivk\<rparr>)] k c)
    in reach ivk = reach (metadata_guard [(''x-user'', ''u1''), (''tier'', ''free'')] ivk)"
proof (intro allI)
  fix ivk :: "TodoRepo exchange invoker" and k i
  let ?c = "demo_todo_ctx ''GET'' ''Bearer good'' i \<lparr>tr_seq = 0, tr_todos = []\<rparr>" and ?claims = "[(''sub'', AString ''u1'')]"
  have t: "extractToken (demo_fctx\<lparr>fc_Header := (\<lambda>_. ''Bearer good'')\<rparr>) ''Authorization'' ''Bearer'' = Some ''good''" by code_simp
  then have "jwt_claims_of demo_id_lib demo_jwt ?c = Some ?claims"
    by (simp add: jwt_claims_of_def extractToken_def demo_todo_ctx_def demo_jwt_def jwt_verify_def demo_id_lib_def)
  moreover have "pr_claims demo_id_route = buildClaimForwarder demo_claims" by (simp add: demo_id_route_def)
  moreover have "ce_num (ue_call demo_unary_env) = demo_num" "ce_err (ue_call demo_unary_env) = E0"
    by (simp_all add: demo_unary_env_def)
  moreover have "find (blocks demo_num ?claims) (claim_pairs demo_claims) = None"
    "claim_metadata demo_num ?claims demo_claims = [(''x-user'', ''u1''), (''tier'', ''free'')]"
    by code_simp+
  ultimately show "let c = ?c;
      reach = (\<lambda>ivk. chain [jwt_handler demo_id_lib demo_jwt, routeHandler demo_unary_env (demo_id_route\<lparr>pr_invoker := Some ivk\<rparr>)] k c)
    in reach ivk = reach (metadata_guard [(''x-user'', ''u1''), (''tier'', ''free'')] ivk)"
    using identity_forwarded [of demo_id_route demo_claims demo_id_lib demo_jwt ?c ?claims demo_unary_env demo_num E0
        plain_status_Error plain_status_FromError k ivk]
    by (simp add: Let_def)
qed

end
