(* ===== verification/SF_Item.thy ===== *)
theory SF_Item
  imports SF_Todo
begin

text \<open>
  The service \<open>svcforge add service\<close> writes (\<open>templates/generator.go\<close>): repository, service and handler of
  items. Paging and identifiers are those of the todo service; the repository meets the same contract.
\<close>

section \<open>Model and repository\<close>

record Item =
  im_ID :: string
  im_Name :: string
  im_Description :: string
  im_CreatedAt :: int
  im_UpdatedAt :: int

definition ErrItemNotFound :: go_error where "ErrItemNotFound = Sentinel ''item not found''"
definition ErrInvalidName :: go_error where "ErrInvalidName = Sentinel ''name must be 1-128 characters''"

record ItemRepo =
  ir_seq :: int
  ir_items :: "(string, Item) gomap"

definition item_store :: "int \<Rightarrow> Item \<Rightarrow> ItemRepo \<Rightarrow> ItemRepo \<times> Item" where
  "item_store now t r =
     (case nextID (ir_seq r) of
        (s, i) \<Rightarrow>
          (let t' = t\<lparr>im_ID := i, im_CreatedAt := now, im_UpdatedAt := now\<rparr>
           in (r\<lparr>ir_seq := s, ir_items := AList.update i t' (ir_items r)\<rparr>, t')))"

definition new_item :: "string \<Rightarrow> string \<Rightarrow> Item" where
  "new_item name desc = \<lparr>im_ID = [], im_Name = name, im_Description = desc, im_CreatedAt = 0, im_UpdatedAt = 0\<rparr>"

definition item_seed :: "int \<Rightarrow> ItemRepo \<Rightarrow> ItemRepo" where
  "item_seed now r =
     fold (\<lambda>t r. fst (item_store now t r))
       [new_item ''first item'' ''seeded sample data'', new_item ''second item'' ''edit or delete me''] r"

definition NewItemRepo :: "int \<Rightarrow> ItemRepo" where
  "NewItemRepo now = item_seed now \<lparr>ir_seq = 0, ir_items = []\<rparr>"

definition item_Create :: "int \<Rightarrow> Item \<Rightarrow> ItemRepo \<Rightarrow> ItemRepo \<times> Item result" where
  "item_Create now t r = (case item_store now t r of (r', t') \<Rightarrow> (r', Inr t'))"

definition item_FindByID :: "string \<Rightarrow> ItemRepo \<Rightarrow> Item result" where
  "item_FindByID i r = (case map_of (ir_items r) i of None \<Rightarrow> Inl ErrItemNotFound | Some t \<Rightarrow> Inr t)"

definition item_List :: "int \<Rightarrow> int \<Rightarrow> ItemRepo \<Rightarrow> (Item list \<times> int) outcome" where
  "item_List offset limit r = slice_page (rev (sort_key im_ID (map snd (ir_items r)))) offset limit"

definition item_Update :: "int \<Rightarrow> Item \<Rightarrow> ItemRepo \<Rightarrow> ItemRepo \<times> Item result" where
  "item_Update now t r =
     (case map_of (ir_items r) (im_ID t) of
        None \<Rightarrow> (r, Inl ErrItemNotFound)
      | Some existing \<Rightarrow>
          (let u = existing\<lparr>im_Name := im_Name t, im_Description := im_Description t, im_UpdatedAt := now\<rparr>
           in (r\<lparr>ir_items := AList.update (im_ID u) u (ir_items r)\<rparr>, Inr u)))"

definition item_Delete :: "string \<Rightarrow> ItemRepo \<Rightarrow> ItemRepo \<times> go_error option" where
  "item_Delete i r =
     (case map_of (ir_items r) i of
        None \<Rightarrow> (r, Some ErrItemNotFound)
      | Some _ \<Rightarrow> (r\<lparr>ir_items := AList.delete i (ir_items r)\<rparr>, None))"

section \<open>Service\<close>

record ItemResult =
  it_ID :: string
  it_Name :: string
  it_Description :: string
  it_CreatedAt :: int
  it_UpdatedAt :: int

definition toItemResult :: "Item \<Rightarrow> ItemResult" where
  "toItemResult t =
     \<lparr>it_ID = im_ID t, it_Name = im_Name t, it_Description = im_Description t,
      it_CreatedAt = Unix (im_CreatedAt t), it_UpdatedAt = Unix (im_UpdatedAt t)\<rparr>"

definition validateName :: "string \<Rightarrow> go_error option" where
  "validateName name = (if length name < 1 \<or> length name > 128 then Some ErrInvalidName else None)"

definition CreateItem :: "int \<Rightarrow> string \<Rightarrow> string \<Rightarrow> ItemRepo \<Rightarrow> ItemRepo \<times> ItemResult result" where
  "CreateItem now name desc r =
     (case validateName name of
        Some e \<Rightarrow> (r, Inl e)
      | None \<Rightarrow>
          (case item_Create now (new_item name desc) r of
             (r', Inl e) \<Rightarrow> (r', Inl e)
           | (r', Inr t) \<Rightarrow> (r', Inr (toItemResult t))))"

definition GetItem :: "string \<Rightarrow> ItemRepo \<Rightarrow> ItemResult result" where
  "GetItem i r = (case item_FindByID i r of Inl e \<Rightarrow> Inl e | Inr t \<Rightarrow> Inr (toItemResult t))"

definition ListItems :: "int \<Rightarrow> int \<Rightarrow> ItemRepo \<Rightarrow> (ItemResult list \<times> int \<times> int \<times> int) outcome" where
  "ListItems page0 pageSize0 r =
     (case normalizePage page0 pageSize0 of
        (page, pageSize) \<Rightarrow>
          (case item_List (page_offset page pageSize) pageSize r of
             Panic m \<Rightarrow> Panic m
           | Ret (xs, tot) \<Rightarrow> Ret (map toItemResult xs, page, pageSize, tot)))"

definition item_edit :: "string \<Rightarrow> string \<Rightarrow> Item \<Rightarrow> Item result" where
  "item_edit name desc t =
     (case (if name \<noteq> [] then validateName name else None) of
        Some e \<Rightarrow> Inl e
      | None \<Rightarrow>
          Inr (t\<lparr>im_Name := (if name \<noteq> [] then name else im_Name t),
                 im_Description := (if desc \<noteq> [] then desc else im_Description t)\<rparr>))"

definition UpdateItem ::
  "(ItemRepo \<Rightarrow> ItemRepo) \<Rightarrow> int \<Rightarrow> string \<Rightarrow> string \<Rightarrow> string \<Rightarrow> ItemRepo \<Rightarrow> ItemRepo \<times> ItemResult result" where
  "UpdateItem between now i name desc r =
     (case item_FindByID i r of
        Inl e \<Rightarrow> (r, Inl e)
      | Inr t \<Rightarrow>
          (case item_edit name desc t of
             Inl e \<Rightarrow> (r, Inl e)
           | Inr t' \<Rightarrow>
               (case item_Update now t' (between r) of
                  (r', Inl e) \<Rightarrow> (r', Inl e)
                | (r', Inr u) \<Rightarrow> (r', Inr (toItemResult u)))))"

definition DeleteItem :: "string \<Rightarrow> ItemRepo \<Rightarrow> ItemRepo \<times> go_error option" where
  "DeleteItem i r = item_Delete i r"

section \<open>Handler\<close>

record proto_Item =
  pi_Id :: string
  pi_Name :: string
  pi_Description :: string
  pi_CreatedAt :: int
  pi_UpdatedAt :: int

definition toProtoItem :: "ItemResult \<Rightarrow> proto_Item" where
  "toProtoItem t =
     \<lparr>pi_Id = it_ID t, pi_Name = it_Name t, pi_Description = it_Description t,
      pi_CreatedAt = it_CreatedAt t, pi_UpdatedAt = it_UpdatedAt t\<rparr>"

definition item_toGRPCError :: "errors_pkg \<Rightarrow> go_error \<Rightarrow> go_error" where
  "item_toGRPCError E err =
     (if errors_Is err ''item not found'' then New E CodeNotFound (Error err)
      else if errors_Is err ''name must be 1-128 characters'' then New E CodeInvalidArgument (Error err)
      else New E CodeInternal (Error err))"

definition handler_CreateItem :: "errors_pkg \<Rightarrow> int \<Rightarrow> string \<Rightarrow> string \<Rightarrow> ItemRepo \<Rightarrow> ItemRepo \<times> proto_Item result" where
  "handler_CreateItem E now name desc r =
     (case CreateItem now name desc r of (r', x) \<Rightarrow> (r', handle_result (item_toGRPCError E) toProtoItem x))"

definition handler_GetItem :: "errors_pkg \<Rightarrow> string \<Rightarrow> ItemRepo \<Rightarrow> proto_Item result" where
  "handler_GetItem E i r = handle_result (item_toGRPCError E) toProtoItem (GetItem i r)"

definition handler_ListItems :: "errors_pkg \<Rightarrow> int \<Rightarrow> int \<Rightarrow> ItemRepo \<Rightarrow> (proto_Item list \<times> int \<times> int \<times> int) outcome" where
  "handler_ListItems E page pageSize r =
     (case ListItems page pageSize r of Panic m \<Rightarrow> Panic m | Ret (xs, rest) \<Rightarrow> Ret (map toProtoItem xs, rest))"

definition handler_UpdateItem ::
  "errors_pkg \<Rightarrow> (ItemRepo \<Rightarrow> ItemRepo) \<Rightarrow> int \<Rightarrow> string \<Rightarrow> string \<Rightarrow> string \<Rightarrow> ItemRepo \<Rightarrow> ItemRepo \<times> proto_Item result" where
  "handler_UpdateItem E between now i name desc r =
     (case UpdateItem between now i name desc r of (r', x) \<Rightarrow> (r', handle_result (item_toGRPCError E) toProtoItem x))"

definition handler_DeleteItem :: "errors_pkg \<Rightarrow> string \<Rightarrow> ItemRepo \<Rightarrow> ItemRepo \<times> go_error option" where
  "handler_DeleteItem E i r =
     (case DeleteItem i r of (r', e) \<Rightarrow> (r', map_option (item_toGRPCError E) e))"

section \<open>The contract\<close>

definition item_ok :: "ItemRepo \<Rightarrow> bool" where
  "item_ok r \<longleftrightarrow> ids_upto (ir_seq r) (ir_items r) im_ID"

definition item_room :: "ItemRepo \<Rightarrow> bool" where
  "item_room r \<longleftrightarrow> ir_seq r < 2 ^ 63 - 1"

interpretation ip: repository_port item_Create item_FindByID item_Update item_Delete im_ID ErrItemNotFound item_ok item_room
proof unfold_locales
  fix r :: ItemRepo and now and e :: Item
  assume ok: "item_ok r" and room: "item_room r"
  let ?i = "itoa (ir_seq r + 1)"
  let ?e = "e\<lparr>im_ID := ?i, im_CreatedAt := now, im_UpdatedAt := now\<rparr>"
  let ?r = "r\<lparr>ir_seq := ir_seq r + 1, ir_items := AList.update ?i ?e (ir_items r)\<rparr>"
  note fresh = nextID_fresh [OF ok [unfolded item_ok_def] room [unfolded item_room_def]]
  have "item_Create now e r = (?r, Inr ?e)" by (simp add: item_Create_def item_store_def fresh Let_def)
  moreover have "item_ok ?r"
    using ids_upto_new [OF ok [unfolded item_ok_def] room [unfolded item_room_def], of ?e] by (simp add: item_ok_def)
  ultimately show "\<exists>r' e'. item_Create now e r = (r', Inr e') \<and> item_ok r' \<and> item_FindByID (im_ID e') r = Inl ErrItemNotFound \<and>
      item_FindByID (im_ID e') r' = Inr e' \<and> (\<forall>j. j \<noteq> im_ID e' \<longrightarrow> item_FindByID j r' = item_FindByID j r)"
    using fresh(2) by (intro exI [of _ ?r] exI [of _ ?e]) (simp add: item_FindByID_def gomap)
next
  fix r :: ItemRepo and e x :: Item and now
  assume ok: "item_ok r" and "item_FindByID (im_ID e) r = Inr x"
  then have x: "map_of (ir_items r) (im_ID e) = Some x" by (simp add: item_FindByID_def split: option.splits)
  note d = ids_upto_SomeD [OF ok [unfolded item_ok_def] x]
  let ?u = "x\<lparr>im_Name := im_Name e, im_Description := im_Description e, im_UpdatedAt := now\<rparr>"
  have "item_ok (r\<lparr>ir_items := AList.update (im_ID e) ?u (ir_items r)\<rparr>)"
    using ids_upto_replace [OF ok [unfolded item_ok_def] x, of ?u] d by (simp add: item_ok_def)
  then show "\<exists>r' u. item_Update now e r = (r', Inr u) \<and> item_ok r' \<and> im_ID u = im_ID e \<and> item_FindByID (im_ID e) r' = Inr u \<and>
      (\<forall>j. j \<noteq> im_ID e \<longrightarrow> item_FindByID j r' = item_FindByID j r)"
    using x d by (simp add: item_Update_def item_FindByID_def gomap Let_def)
next
  fix r :: ItemRepo and i x
  assume ok: "item_ok r" and "item_FindByID i r = Inr x"
  then have x: "map_of (ir_items r) i = Some x" by (simp add: item_FindByID_def split: option.splits)
  have "item_ok (r\<lparr>ir_items := AList.delete i (ir_items r)\<rparr>)"
    using ok by (simp add: item_ok_def ids_upto_delete)
  with x show "\<exists>r'. item_Delete i r = (r', None) \<and> item_ok r' \<and> item_FindByID i r' = Inl ErrItemNotFound \<and>
      (\<forall>j. j \<noteq> i \<longrightarrow> item_FindByID j r' = item_FindByID j r)"
    by (simp add: item_Delete_def item_FindByID_def gomap)
qed (auto simp: item_FindByID_def item_Update_def item_Delete_def split: option.splits)

section \<open>Properties\<close>

lemma CreateItem_repo:
  assumes "CreateItem now name desc r = (r', Inr t)"
  obtains e where "item_Create now (new_item name desc) r = (r', Inr e)" "t = toItemResult e"
  using assms by (auto simp: CreateItem_def split: option.splits prod.splits sum.splits)

text \<open>Creating an item and deleting it again leaves the store as it was. An item that was created
  is found under its identifier, under which nothing was found before; deleting it succeeds, and
  then every look-up gives what it gave before the creation. A second deletion reports not found,
  and a second item created after the first has a different identifier and leaves the first in place.\<close>

theorem item_create_delete:
  assumes "item_ok r" and "item_room r" and "CreateItem now name desc r = (r', Inr t)"
  shows "GetItem (it_ID t) r = Inl ErrItemNotFound \<and> GetItem (it_ID t) r' = Inr t \<and>
    (\<exists>r''. DeleteItem (it_ID t) r' = (r'', None) \<and> (\<forall>j. GetItem j r'' = GetItem j r) \<and>
           DeleteItem (it_ID t) r'' = (r'', Some ErrItemNotFound)) \<and>
    (\<forall>now2 n2 d2 r2 t2. item_room r' \<and> CreateItem now2 n2 d2 r' = (r2, Inr t2) \<longrightarrow>
       it_ID t2 \<noteq> it_ID t \<and> GetItem (it_ID t) r2 = Inr t)"
proof -
  obtain e where c: "item_Create now (new_item name desc) r = (r', Inr e)" and t: "t = toItemResult e"
    using assms(3) by (rule CreateItem_repo)
  have tid: "it_ID t = im_ID e" by (simp add: t toItemResult_def)
  note new = ip.created [OF assms(1,2) c]
  obtain r'' where d: "item_Delete (im_ID e) r' = (r'', None)" and same: "\<forall>j. item_FindByID j r'' = item_FindByID j r"
    using ip.create_delete [OF assms(1,2) c] by blast
  have "item_Delete (im_ID e) r'' = (r'', Some ErrItemNotFound)"
    using same new(2) by (intro ip.delete_missing) auto
  moreover have "it_ID t2 \<noteq> it_ID t \<and> GetItem (it_ID t) r2 = Inr t"
    if room': "item_room r'" and made: "CreateItem now2 n2 d2 r' = (r2, Inr t2)" for now2 n2 d2 r2 t2
  proof -
    obtain e2 where c2: "item_Create now2 (new_item n2 d2) r' = (r2, Inr e2)" and t2: "t2 = toItemResult e2"
      using made by (rule CreateItem_repo)
    from ip.create_twice [OF assms(1,2) c room' c2] show ?thesis
      by (auto simp: t t2 toItemResult_def GetItem_def)
  qed
  moreover have "GetItem (it_ID t) r = Inl ErrItemNotFound" "GetItem (it_ID t) r' = Inr t"
    unfolding tid using new by (simp_all add: GetItem_def t)
  moreover have "\<forall>j. GetItem j r'' = GetItem j r" using same by (simp add: GetItem_def)
  ultimately show ?thesis using d unfolding DeleteItem_def tid by blast
qed

theorem item_create_delete_witness:
  "\<exists>r' t r''. CreateItem 5 ''box'' [] \<lparr>ir_seq = 0, ir_items = []\<rparr> = (r', Inr t) \<and> GetItem (it_ID t) r' = Inr t \<and>
     DeleteItem (it_ID t) r' = (r'', None) \<and> GetItem (it_ID t) r'' = Inl ErrItemNotFound"
proof -
  have ok: "item_ok \<lparr>ir_seq = 0, ir_items = []\<rparr>" "item_room \<lparr>ir_seq = 0, ir_items = []\<rparr>"
    by (simp_all add: item_ok_def item_room_def ids_upto_def)
  obtain r' t where c: "CreateItem 5 ''box'' [] \<lparr>ir_seq = 0, ir_items = []\<rparr> = (r', Inr t)"
    by (simp add: CreateItem_def validateName_def item_Create_def item_store_def Let_def nextID_def)
  from item_create_delete [OF ok c] c show ?thesis by metis
qed

end
