(* ===== verification/SF_Template.thy ===== *)
theory SF_Template
  imports SF_Errors SF_Stdlib
begin

text \<open>
  Package \<open>text/template\<close> of the Go standard library as far as the generator uses it: text, the value of
  a field \<open>{{ .F }}\<close> and the conditional \<open>{{ if .F }} ... {{ end }}\<close>. The data is a struct of string
  fields, a partial function from names; an unknown field is an error of \<open>Execute\<close>, an ill-formed
  template one of \<open>Parse\<close>.
\<close>

section \<open>Parsing\<close>

text \<open>The lexer: a character of text or the inside of an action.\<close>

datatype ttok = KChar char | KAct string

fun break_close :: "string \<Rightarrow> (string \<times> string) option" where
  "break_close (c # d # s) =
     (if c = CHR ''}'' \<and> d = CHR ''}'' then Some ([], s)
      else map_option (\<lambda>(a, r). (c # a, r)) (break_close (d # s)))"
| "break_close _ = None"

lemma break_close_length: "break_close s = Some (a, r) \<Longrightarrow> length r < length s"
  by (induction s arbitrary: a r rule: break_close.induct) (auto split: if_splits)

lemma break_close_append: "break_close s = Some (a, r) \<Longrightarrow> break_close (s @ t) = Some (a, r @ t)"
  by (induction s arbitrary: a r rule: break_close.induct) (auto split: if_splits)

function lexTemplate :: "string \<Rightarrow> ttok list result" where
  "lexTemplate [] = Inr []"
| "lexTemplate (c # s) =
     (if c = CHR ''{'' \<and> hasPrefix s ''{'' then
        (case break_close (tl s) of
           None \<Rightarrow> Inl (PlainError ''template: unclosed action'')
         | Some (a, r) \<Rightarrow> map_sum id ((#) (KAct a)) (lexTemplate r))
      else map_sum id ((#) (KChar c)) (lexTemplate s))"
  by pat_completeness auto
termination
proof (relation "measure length", goal_cases)
  case (2 c s z a r)
  then have "length r < length (tl s)" using break_close_length by blast
  also have "\<dots> < length (c # s)" by simp
  finally show ?case by simp
qed simp_all

datatype tnode = NText char | NField string | NIf string "tnode list"

definition action_words :: "string \<Rightarrow> string list" where
  "action_words a = filter (\<lambda>w. w \<noteq> []) (split_on (CHR '' '') a)"

datatype action = AField string | AIf string | AEnd | AUnknown

definition action_of :: "string \<Rightarrow> action" where
  "action_of a =
     (case action_words a of
        [w] \<Rightarrow> (if w = ''end'' then AEnd else if hasPrefix w ''.'' then AField (tl w) else AUnknown)
      | [k, w] \<Rightarrow> (if k = ''if'' \<and> hasPrefix w ''.'' then AIf (tl w) else AUnknown)
      | _ \<Rightarrow> AUnknown)"

text \<open>The parser keeps the conditionals still open on a stack, with the nodes before them.\<close>

fun parseTokens :: "ttok list \<Rightarrow> (string \<times> tnode list) list \<Rightarrow> tnode list \<Rightarrow> tnode list result" where
  "parseTokens [] [] ns = Inr (rev ns)"
| "parseTokens [] (_ # _) ns = Inl (PlainError ''template: unexpected EOF'')"
| "parseTokens (KChar c # ts) st ns = parseTokens ts st (NText c # ns)"
| "parseTokens (KAct a # ts) st ns =
     (case action_of a of
        AField f \<Rightarrow> parseTokens ts st (NField f # ns)
      | AIf f \<Rightarrow> parseTokens ts ((f, ns) # st) []
      | AEnd \<Rightarrow>
          (case st of
             [] \<Rightarrow> Inl (PlainError ''template: unexpected {{end}}'')
           | (f, before) # st' \<Rightarrow> parseTokens ts st' (NIf f (rev ns) # before))
      | AUnknown \<Rightarrow> Inl (PlainError ''template: unexpected action''))"

definition template_Parse :: "string \<Rightarrow> tnode list result" where
  "template_Parse body = (case lexTemplate body of Inl e \<Rightarrow> Inl e | Inr ts \<Rightarrow> parseTokens ts [] [])"

section \<open>Execution\<close>

type_synonym tdata = "string \<Rightarrow> string option"

definition noField :: "string \<Rightarrow> go_error" where
  "noField f = PlainError (''can't evaluate field '' @ f)"

fun execNode :: "tdata \<Rightarrow> tnode \<Rightarrow> string result" and execNodes :: "tdata \<Rightarrow> tnode list \<Rightarrow> string result" where
  "execNode dat (NText c) = Inr [c]"
| "execNode dat (NField f) = (case dat f of None \<Rightarrow> Inl (noField f) | Some v \<Rightarrow> Inr v)"
| "execNode dat (NIf f ns) =
     (case dat f of None \<Rightarrow> Inl (noField f) | Some v \<Rightarrow> if v = [] then Inr [] else execNodes dat ns)"
| "execNodes dat [] = Inr []"
| "execNodes dat (n # ns) =
     (case execNode dat n of Inl e \<Rightarrow> Inl e | Inr a \<Rightarrow> map_sum id ((@) a) (execNodes dat ns))"

definition template_Execute :: "tdata \<Rightarrow> tnode list \<Rightarrow> string result" where
  "template_Execute dat ns = execNodes dat ns"

definition render :: "tdata \<Rightarrow> string \<Rightarrow> string result" where
  "render dat body = (case template_Parse body of Inl e \<Rightarrow> Inl e | Inr ns \<Rightarrow> template_Execute dat ns)"

lemma execNodes_append:
  "execNodes dat (xs @ ys) =
     (case execNodes dat xs of Inl e \<Rightarrow> Inl e | Inr a \<Rightarrow> map_sum id ((@) a) (execNodes dat ys))"
proof (induction xs)
  case Nil
  then show ?case by (cases "execNodes dat ys") simp_all
next
  case (Cons n xs)
  then show ?case by (cases "execNode dat n"; cases "execNodes dat xs"; cases "execNodes dat ys") simp_all
qed

lemma execNodes_text [simp]: "execNodes dat (map NText s) = Inr s"
  by (induction s) simp_all

section \<open>Templates made of lines\<close>

text \<open>
  A template without conditionals can be checked line by line: lexing distributes over lines, since
  no action spans two of them, and every action is a field.
\<close>

definition unlines :: "string list \<Rightarrow> string" where
  "unlines ls = concat (map (\<lambda>l. l @ [CHR 0x0A]) ls)"

fun field_tok :: "string list \<Rightarrow> ttok \<Rightarrow> bool" where
  "field_tok fs (KChar c) = True"
| "field_tok fs (KAct a) = (case action_of a of AField f \<Rightarrow> f \<in> set fs | _ \<Rightarrow> False)"

definition field_line :: "string list \<Rightarrow> string \<Rightarrow> bool" where
  "field_line fs l = (case lexTemplate l of Inl _ \<Rightarrow> False | Inr ts \<Rightarrow> list_all (field_tok fs) ts)"

lemma lexTemplate_append:
  assumes "lexTemplate s = Inr ts" and "\<not> hasPrefix t ''{''"
  shows "lexTemplate (s @ t) = map_sum id ((@) ts) (lexTemplate t)"
  using assms(1)
proof (induction s arbitrary: ts rule: lexTemplate.induct)
  case 1
  then show ?case by (cases "lexTemplate t") simp_all
next
  case (2 c s)
  show ?case
  proof (cases "c = CHR ''{'' \<and> hasPrefix s ''{''")
    case True
    then obtain a r where b: "break_close (tl s) = Some (a, r)" using 2(3) by (auto split: option.splits)
    then obtain us where us: "lexTemplate r = Inr us" "ts = KAct a # us"
      using 2(3) True by (cases "lexTemplate r") auto
    have "s \<noteq> []" using True by auto
    then have "break_close (tl (s @ t)) = Some (a, r @ t)" "hasPrefix (s @ t) ''{''"
      using break_close_append [OF b] True by (cases s; auto)+
    then show ?thesis using True us 2(1) [OF True b refl us(1)] by (simp add: sum.map_comp comp_def)
  next
    case False
    then have no: "\<not> (c = CHR ''{'' \<and> hasPrefix (s @ t) ''{'')" using assms(2) by (cases s) auto
    obtain us where us: "lexTemplate s = Inr us" "ts = KChar c # us"
      using 2(3) False by (cases "lexTemplate s") auto
    have "lexTemplate ((c # s) @ t) = map_sum id ((#) (KChar c)) (lexTemplate (s @ t))"
      using no by (subst append_Cons, subst lexTemplate.simps) (simp only: if_False simp_thms)
    then show ?thesis using us 2(2) [OF False us(1)] by (simp add: sum.map_comp comp_def)
  qed
qed

lemma field_line_tokens:
  assumes "list_all (field_line fs) ls"
  shows "\<exists>ts. lexTemplate (unlines ls) = Inr ts \<and> list_all (field_tok fs) ts"
  using assms
proof (induction ls)
  case Nil
  then show ?case by (simp add: unlines_def)
next
  case (Cons l ls)
  then obtain ts us where l: "lexTemplate l = Inr us" "list_all (field_tok fs) us"
    and ts: "lexTemplate (unlines ls) = Inr ts" "list_all (field_tok fs) ts"
    by (auto simp: field_line_def split: sum.splits)
  have "lexTemplate (l @ CHR 0x0A # unlines ls) = Inr (us @ KChar (CHR 0x0A) # ts)"
    using lexTemplate_append [OF l(1), of "CHR 0x0A # unlines ls"] ts(1) by simp
  then show ?case using l(2) ts(2) by (simp add: unlines_def)
qed

lemma field_tokens_render:
  assumes "list_all (field_tok fs) ts" and "\<forall>f \<in> set fs. dat f \<noteq> None"
  shows "\<exists>ns t. parseTokens ts [] acc = Inr (rev acc @ ns) \<and> execNodes dat ns = Inr t"
  using assms(1)
proof (induction ts arbitrary: acc)
  case Nil
  then show ?case by (intro exI [of _ "[]"]) simp
next
  case (Cons k ts)
  then have ih: "\<exists>ns t. parseTokens ts [] acc' = Inr (rev acc' @ ns) \<and> execNodes dat ns = Inr t" for acc' by simp
  show ?case
  proof (cases k)
    case (KChar c)
    from ih [of "NText c # acc"] show ?thesis
      using KChar by (elim exE conjE) (rule exI [of _ "NText c # _"], auto)
  next
    case (KAct a)
    then obtain f where f: "action_of a = AField f" "f \<in> set fs" using Cons.prems by (auto split: action.splits)
    then obtain v where "dat f = Some v" using assms(2) by blast
    with ih [of "NField f # acc"] show ?thesis
      using KAct f(1) by (elim exE conjE) (rule exI [of _ "NField f # _"], auto)
  qed
qed

lemma render_lines:
  assumes "list_all (field_line fs) ls" and "\<forall>f \<in> set fs. dat f \<noteq> None"
  shows "\<exists>t. render dat (unlines ls) = Inr t"
proof -
  obtain ts where "lexTemplate (unlines ls) = Inr ts" "list_all (field_tok fs) ts"
    using field_line_tokens [OF assms(1)] by blast
  with field_tokens_render [OF _ assms(2), of ts "[]"] show ?thesis
    by (auto simp: render_def template_Parse_def template_Execute_def)
qed

end
