(* ===== verification/SF_Generator.thy ===== *)
theory SF_Generator
  imports SF_Texts
begin

text \<open>
  \<open>templates/generator.go\<close> and \<open>cmd/svcforge\<close>: scaffolding of projects and services.

  The file system is a record of functions on the world. The templates are those of \<open>SF_Texts\<close>, rendered
  by the engine of \<open>SF_Template\<close>. The files are a map, so the order in which they are written is a
  parameter.
\<close>

section \<open>Names\<close>

definition serviceBaseName :: "string \<Rightarrow> string" where
  "serviceBaseName name =
     (let b1 = trimSuffix name ''-service''; b2 = trimSuffix name ''_service''
      in if b1 \<noteq> name \<and> b1 \<noteq> [] then b1 else if b2 \<noteq> name \<and> b2 \<noteq> [] then b2 else name)"

definition toSnake :: "string \<Rightarrow> string" where
  "toSnake s = toLower (map (\<lambda>c. if c = CHR ''-'' then CHR ''_'' else c) s)"

definition is_sep :: "char \<Rightarrow> bool" where
  "is_sep c \<longleftrightarrow> c = CHR ''-'' \<or> c = CHR ''_''"

definition toIdent :: "string \<Rightarrow> string" where
  "toIdent s = toLower (filter (\<lambda>c. \<not> is_sep c) s)"

text \<open>\<open>strings.FieldsFunc\<close>: the maximal runs of characters that are not separators.\<close>

function fieldsFunc :: "(char \<Rightarrow> bool) \<Rightarrow> string \<Rightarrow> string list" where
  "fieldsFunc p s =
     (case dropWhile p s of
        [] \<Rightarrow> []
      | c # cs \<Rightarrow> takeWhile (\<lambda>x. \<not> p x) (c # cs) # fieldsFunc p (dropWhile (\<lambda>x. \<not> p x) (c # cs)))"
  by pat_completeness auto
termination
proof (relation "measure (\<lambda>(p, s). length s)")
  fix p :: "char \<Rightarrow> bool" and s c cs
  assume d: "dropWhile p s = c # cs"
  then have "\<not> p c" by (metis hd_dropWhile list.distinct(1) list.sel(1))
  then have "length (dropWhile (\<lambda>x. \<not> p x) (c # cs)) < length (c # cs)"
    by (simp add: le_imp_less_Suc length_dropWhile_le)
  also have "length (c # cs) \<le> length s" using length_dropWhile_le [of p s] by (simp add: d)
  finally show "((p, dropWhile (\<lambda>x. \<not> p x) (c # cs)), p, s) \<in> measure (\<lambda>(p, s). length s)" by simp
qed simp

declare fieldsFunc.simps [simp del]

text \<open>A part is never empty, so its first rune exists; an empty one would panic.\<close>

definition capitalize :: "string \<Rightarrow> string" where
  "capitalize p = (case toLower p of [] \<Rightarrow> [] | c # cs \<Rightarrow> upper_char c # cs)"

definition toPascal :: "string \<Rightarrow> string" where
  "toPascal s = concat (map capitalize (fieldsFunc is_sep s))"

section \<open>Files\<close>

record 'w fs_lib =
  fs_ReadFile :: "string \<Rightarrow> 'w \<Rightarrow> string result"
  fs_MkdirAll :: "string \<Rightarrow> 'w \<Rightarrow> 'w \<times> go_error option"
  fs_WriteFile :: "string \<Rightarrow> string \<Rightarrow> 'w \<Rightarrow> 'w \<times> go_error option"
  fs_Exists :: "string \<Rightarrow> 'w \<Rightarrow> bool"

text \<open>\<open>filepath.Dir\<close>: the path up to its last slash, cleaned.\<close>

definition filepath_Dir :: "string \<Rightarrow> string" where
  "filepath_Dir p = filepath_Clean (rev (dropWhile (\<lambda>c. c \<noteq> CHR ''/'') (rev p)))"

definition writeTemplate :: "'w fs_lib \<Rightarrow> string \<Rightarrow> string \<Rightarrow> tdata \<Rightarrow> 'w \<Rightarrow> 'w \<times> go_error option" where
  "writeTemplate fs path body dat w =
     (case fs_MkdirAll fs (filepath_Dir path) w of
        (w1, Some e) \<Rightarrow> (w1, Some e)
      | (w1, None) \<Rightarrow>
          (case template_Parse body of
             Inl e \<Rightarrow> (w1, Some e)
           | Inr tpl \<Rightarrow>
               (case template_Execute dat tpl of
                  Inl e \<Rightarrow> (w1, Some e)
                | Inr txt \<Rightarrow> fs_WriteFile fs path txt w1)))"

lemma writeTemplate_render:
  "writeTemplate fs path body dat w =
     (case fs_MkdirAll fs (filepath_Dir path) w of
        (w1, Some e) \<Rightarrow> (w1, Some e)
      | (w1, None) \<Rightarrow> (case render dat body of Inl e \<Rightarrow> (w1, Some e) | Inr txt \<Rightarrow> fs_WriteFile fs path txt w1))"
  by (simp add: writeTemplate_def render_def split: sum.split option.split prod.split)

fun write_all :: "'w fs_lib \<Rightarrow> string \<Rightarrow> tdata \<Rightarrow> (string \<times> string) list \<Rightarrow> 'w \<Rightarrow> 'w \<times> go_error option" where
  "write_all fs base dat [] w = (w, None)"
| "write_all fs base dat ((path, body) # files) w =
     (case writeTemplate fs (filepath_Join [base, path]) body dat w of
        (w1, Some e) \<Rightarrow> (w1, Some e)
      | (w1, None) \<Rightarrow> write_all fs base dat files w1)"

section \<open>Module paths\<close>

fun find_module :: "string list \<Rightarrow> string option" where
  "find_module [] = None"
| "find_module (line # ls) =
     (let l = trimSpace line
      in if hasPrefix l ''module '' then Some (trimSpace (trimPrefix l ''module '')) else find_module ls)"

definition readModulePath :: "'w fs_lib \<Rightarrow> string \<Rightarrow> 'w \<Rightarrow> string result" where
  "readModulePath fs dir w =
     (case fs_ReadFile fs (filepath_Join [dir, ''go.mod'']) w of
        Inl e \<Rightarrow> Inl (WrapError (''read go.mod (run inside a project root): '' @ Error e) e)
      | Inr dat \<Rightarrow>
          (case find_module (split_on (CHR 0x0A) dat) of
             Some m \<Rightarrow> Inr m
           | None \<Rightarrow> Inl (PlainError ''module directive not found in go.mod'')))"

text \<open>\<open>filepath.Rel\<close> on the elements of two cleaned absolute paths (the directory is that of \<open>os.Getwd\<close>).\<close>

fun rel_parts :: "string list \<Rightarrow> string list \<Rightarrow> string list result" where
  "rel_parts (b # bs) (t # ts) =
     (if b = t then rel_parts bs ts
      else if b = ''..'' then Inl (PlainError ''Rel: cannot make path relative'')
      else Inr (map (\<lambda>_. ''..'') (b # bs) @ t # ts))"
| "rel_parts [] ts = Inr ts"
| "rel_parts (b # bs) [] =
     (if b = ''..'' then Inl (PlainError ''Rel: cannot make path relative'') else Inr (map (\<lambda>_. ''..'') (b # bs)))"

definition path_parts :: "string \<Rightarrow> string list" where
  "path_parts p = filter (\<lambda>e. e \<noteq> [] \<and> e \<noteq> ''.'') (split_on (CHR ''/'') p)"

definition filepath_Rel :: "string \<Rightarrow> string \<Rightarrow> string result" where
  "filepath_Rel base targ =
     (let b = filepath_Clean base; t = filepath_Clean targ
      in if b = t then Inr ''.''
         else if hasPrefix b ''/'' \<noteq> hasPrefix t ''/'' then Inl (PlainError ''Rel: cannot make path relative'')
         else case rel_parts (path_parts b) (path_parts t) of Inl e \<Rightarrow> Inl e | Inr ps \<Rightarrow> Inr (join ''/'' ps))"

definition detectLocalReplace :: "'w fs_lib \<Rightarrow> string \<Rightarrow> string \<Rightarrow> 'w \<Rightarrow> string" where
  "detectLocalReplace fs dir projectDir w =
     (case fs_ReadFile fs (filepath_Join [dir, ''go.mod'']) w of
        Inl _ \<Rightarrow> []
      | Inr dat \<Rightarrow>
          if \<not> contains_str dat ''module github.com/svcforge/service-forge'' then []
          else (case filepath_Rel projectDir dir of Inl _ \<Rightarrow> dir | Inr r \<Rightarrow> r))"

section \<open>Projects and services\<close>

record ProjectOptions =
  po_Name :: string
  po_ServiceName :: string
  po_Replace :: string
  po_DB :: string
  po_Cache :: string
  po_MQ :: string
  po_Registry :: string
  po_Tracing :: string

definition project_data :: "ProjectOptions \<Rightarrow> tdata" where
  "project_data d =
     map_of [(''Name'', po_Name d), (''ServiceName'', po_ServiceName d), (''Replace'', po_Replace d), (''DB'', po_DB d),
             (''Cache'', po_Cache d), (''MQ'', po_MQ d), (''Registry'', po_Registry d), (''Tracing'', po_Tracing d)]"

definition or_else :: "string \<Rightarrow> string \<Rightarrow> string" where
  "or_else s d = (if s = [] then d else s)"

definition project_defaults :: "ProjectOptions \<Rightarrow> ProjectOptions" where
  "project_defaults o0 =
     o0\<lparr>po_DB := or_else (po_DB o0) ''noop'', po_Cache := or_else (po_Cache o0) ''memory'',
        po_MQ := or_else (po_MQ o0) ''memory'', po_Registry := or_else (po_Registry o0) ''memory'',
        po_Tracing := or_else (po_Tracing o0) ''noop'', po_ServiceName := or_else (po_ServiceName o0) ''example-service''\<rparr>"

definition project_files :: "(string \<times> string) list" where
  "project_files =
     [(''go.mod'', projectGoMod), (''buf.yaml'', bufYaml), (''buf.gen.yaml'', bufGenYaml),
      (''README.md'', projectReadme), (''config/base.yaml'', baseConfig), (''gateway/cmd/main.go'', gatewayMain),
      (''api/proto/example/v1/example.proto'', exampleProto),
      (''services/example-service/cmd/main.go'', exampleServiceMain),
      (''services/example-service/internal/example/module.go'', exampleModule),
      (''services/example-service/internal/model/todo.go'', exampleModelTodo),
      (''services/example-service/internal/model/errors.go'', exampleModelErrors),
      (''services/example-service/internal/repository/todo_repo.go'', exampleRepo),
      (''services/example-service/internal/service/todo_service.go'', exampleService),
      (''services/example-service/internal/handler/rpc/todo_handler.go'', exampleHandler)]"

text \<open>\<open>order\<close> is the order in which the range loop visits the files.\<close>

text \<open>The options the templates see: with the defaults, and the replacement found in the surrounding module.\<close>

definition project_options :: "'w fs_lib \<Rightarrow> string \<Rightarrow> ProjectOptions \<Rightarrow> 'w \<Rightarrow> ProjectOptions" where
  "project_options fs dir opts0 w =
     (let o1 = project_defaults opts0
      in if po_Replace o1 = [] then o1\<lparr>po_Replace := detectLocalReplace fs dir (filepath_Join [dir, po_Name o1]) w\<rparr> else o1)"

definition GenerateProject ::
  "'w fs_lib \<Rightarrow> ((string \<times> string) list \<Rightarrow> (string \<times> string) list) \<Rightarrow> string \<Rightarrow> ProjectOptions \<Rightarrow> 'w \<Rightarrow> 'w \<times> go_error option" where
  "GenerateProject fs order dir opts0 w =
     (if po_Name opts0 = [] then (w, Some (PlainError ''project name is required''))
      else write_all fs (filepath_Join [dir, po_Name opts0]) (project_data (project_options fs dir opts0 w)) (order project_files) w)"

record serviceData =
  sd_Module :: string
  sd_Service :: string
  sd_ProtoPkg :: string
  sd_GoPkg :: string
  sd_Type :: string

definition service_tdata :: "serviceData \<Rightarrow> tdata" where
  "service_tdata d =
     map_of [(''Module'', sd_Module d), (''Service'', sd_Service d), (''ProtoPkg'', sd_ProtoPkg d), (''GoPkg'', sd_GoPkg d),
             (''Type'', sd_Type d)]"

definition service_data :: "string \<Rightarrow> string \<Rightarrow> serviceData" where
  "service_data modpath name =
     (let base = serviceBaseName name
      in \<lparr>sd_Module = modpath, sd_Service = name, sd_ProtoPkg = toSnake base, sd_GoPkg = toIdent base, sd_Type = toPascal base\<rparr>)"

definition service_files :: "string \<Rightarrow> serviceData \<Rightarrow> (string \<times> string) list" where
  "service_files name d =
     [(filepath_Join [''api/proto'', sd_ProtoPkg d, ''v1'', sd_ProtoPkg d @ ''.proto''], addServiceProto),
      (filepath_Join [''services'', name, ''cmd/main.go''], addServiceMain),
      (filepath_Join [''services'', name, ''internal'', sd_GoPkg d, ''module.go''], addServiceModule),
      (filepath_Join [''services'', name, ''internal/model/item.go''], addServiceModelItem),
      (filepath_Join [''services'', name, ''internal/model/errors.go''], addServiceModelErrors),
      (filepath_Join [''services'', name, ''internal/repository/item_repo.go''], addServiceRepo),
      (filepath_Join [''services'', name, ''internal/service/item_service.go''], addServiceService),
      (filepath_Join [''services'', name, ''internal/handler/rpc/item_handler.go''], addServiceHandler),
      (filepath_Join [''services'', name, ''README.md''], addServiceReadme)]"

definition GenerateService ::
  "'w fs_lib \<Rightarrow> ((string \<times> string) list \<Rightarrow> (string \<times> string) list) \<Rightarrow> string \<Rightarrow> string \<Rightarrow> 'w \<Rightarrow> 'w \<times> go_error option" where
  "GenerateService fs order dir name w =
     (if name = [] then (w, Some (PlainError ''service name is required''))
      else case readModulePath fs dir w of
             Inl e \<Rightarrow> (w, Some e)
           | Inr modpath \<Rightarrow>
               (let d = service_data modpath name in write_all fs dir (service_tdata d) (order (service_files name d)) w))"

text \<open>The commands of \<open>cmd/svcforge\<close>. Cobra parses the command line into the options and the one positional
  argument; \<open>cwd\<close> is the result of \<open>os.Getwd\<close>, \<open>lookPath\<close> and \<open>run\<close> are \<open>os/exec\<close>.\<close>

definition newCmd_flags :: ProjectOptions where
  "newCmd_flags =
     \<lparr>po_Name = [], po_ServiceName = [], po_Replace = [], po_DB = ''noop'', po_Cache = ''memory'', po_MQ = ''memory'',
      po_Registry = ''memory'', po_Tracing = ''noop''\<rparr>"

definition newCmd ::
  "'w fs_lib \<Rightarrow> ((string \<times> string) list \<Rightarrow> (string \<times> string) list) \<Rightarrow> string result \<Rightarrow> ProjectOptions \<Rightarrow> string \<Rightarrow> 'w \<Rightarrow> 'w \<times> go_error option" where
  "newCmd fs order cwd opts arg w =
     (case cwd of
        Inl e \<Rightarrow> (w, Some e)
      | Inr dir \<Rightarrow> GenerateProject fs order dir (opts\<lparr>po_Name := arg\<rparr>) w)"

definition addCmd ::
  "'w fs_lib \<Rightarrow> ((string \<times> string) list \<Rightarrow> (string \<times> string) list) \<Rightarrow> string result \<Rightarrow> string \<Rightarrow> 'w \<Rightarrow> 'w \<times> go_error option" where
  "addCmd fs order cwd arg w =
     (case cwd of Inl e \<Rightarrow> (w, Some e) | Inr dir \<Rightarrow> GenerateService fs order dir arg w)"

definition protoCmd :: "(string \<Rightarrow> string result) \<Rightarrow> (string list \<Rightarrow> 'w \<Rightarrow> 'w \<times> go_error option) \<Rightarrow> 'w \<Rightarrow> 'w \<times> go_error option" where
  "protoCmd lookPath run w =
     (case lookPath ''buf'' of
        Inl e \<Rightarrow> (w, Some (WrapError (''buf is not installed: '' @ Error e) e))
      | Inr _ \<Rightarrow> run [''buf'', ''generate''] w)"

text \<open>\<open>svcforge doctor\<close>: the first required path that is missing, if any.\<close>

definition doctor :: "'w fs_lib \<Rightarrow> 'w \<Rightarrow> go_error option" where
  "doctor fs w =
     (case find (\<lambda>p. \<not> fs_Exists fs p w) [''go.mod'', ''config'', ''api/proto''] of
        Some p \<Rightarrow> Some (PlainError (''missing '' @ p))
      | None \<Rightarrow> None)"

section \<open>Properties of the names\<close>

lemma fieldsFunc_none: "dropWhile p s = [] \<Longrightarrow> fieldsFunc p s = []"
  by (subst fieldsFunc.simps) (simp only: list.case)

lemma fieldsFunc_some:
  "dropWhile p s = c # cs \<Longrightarrow>
   fieldsFunc p s = takeWhile (\<lambda>x. \<not> p x) (c # cs) # fieldsFunc p (dropWhile (\<lambda>x. \<not> p x) (c # cs))"
  by (subst fieldsFunc.simps) (simp only: list.case)

lemma fieldsFunc_concat: "concat (fieldsFunc p s) = filter (\<lambda>c. \<not> p c) s"
proof (induction p s rule: fieldsFunc.induct)
  case (1 p s)
  show ?case
  proof (cases "dropWhile p s")
    case Nil
    then have "filter (\<lambda>c. \<not> p c) s = []" by (auto simp: filter_empty_conv dropWhile_eq_Nil_conv)
    with fieldsFunc_none [OF Nil] show ?thesis by simp
  next
    case (Cons c cs)
    have "filter (\<lambda>c. \<not> p c) s = filter (\<lambda>c. \<not> p c) (dropWhile p s)"
      using filter_append [of "\<lambda>c. \<not> p c" "takeWhile p s" "dropWhile p s"] by (auto dest: set_takeWhileD simp: filter_empty_conv)
    also have "\<dots> = takeWhile (\<lambda>x. \<not> p x) (c # cs) @ filter (\<lambda>c. \<not> p c) (dropWhile (\<lambda>x. \<not> p x) (c # cs))"
    proof -
      have "filter (\<lambda>c. \<not> p c) (takeWhile (\<lambda>x. \<not> p x) (c # cs)) = takeWhile (\<lambda>x. \<not> p x) (c # cs)"
        by (intro filter_True) (auto dest: set_takeWhileD)
      then show ?thesis unfolding Cons by (metis filter_append takeWhile_dropWhile_id)
    qed
    finally show ?thesis using 1 [OF Cons] fieldsFunc_some [OF Cons] by (simp only: concat.simps)
  qed
qed

lemma fieldsFunc_ne: "x \<in> set (fieldsFunc p s) \<Longrightarrow> x \<noteq> []"
proof (induction p s rule: fieldsFunc.induct)
  case (1 p s)
  show ?case
  proof (cases "dropWhile p s")
    case Nil
    with 1(2) fieldsFunc_none [OF Nil] show ?thesis by simp
  next
    case (Cons c cs)
    then have "\<not> p c" by (metis hd_dropWhile list.distinct(1) list.sel(1))
    with 1(1) [OF Cons] 1(2) fieldsFunc_some [OF Cons] show ?thesis by auto
  qed
qed

lemma lower_code:
  "of_char (lower_char c) = (if 65 \<le> (of_char c :: nat) \<and> (of_char c :: nat) \<le> 90 then of_char c + 32 else (of_char c :: nat))"
  by (auto simp: lower_char_def is_upper_def less_eq_char_def of_char_of)

lemma upper_code:
  "of_char (upper_char c) = (if 97 \<le> (of_char c :: nat) \<and> (of_char c :: nat) \<le> 122 then of_char c - 32 else (of_char c :: nat))"
  by (auto simp: upper_char_def is_lower_def less_eq_char_def of_char_of)

lemma char_eq_code: "c = d \<longleftrightarrow> (of_char c :: nat) = of_char d"
  by simp

lemma lower_upper_lower: "lower_char (upper_char (lower_char c)) = lower_char c"
  unfolding char_eq_code lower_code upper_code by auto

lemma lower_sep: "lower_char c = CHR ''-'' \<longleftrightarrow> c = CHR ''-''" "lower_char c = CHR ''_'' \<longleftrightarrow> c = CHR ''_''"
  unfolding char_eq_code lower_code by auto

lemma lower_not_upper: "\<not> is_upper (lower_char c)"
  unfolding is_upper_def less_eq_char_def lower_code by auto

lemma toLower_capitalize: "toLower (capitalize p) = toLower p"
  by (cases p) (simp_all add: capitalize_def toLower_def lower_upper_lower comp_def)

lemma toLower_concat: "toLower (concat xs) = concat (map toLower xs)"
  by (induction xs) (simp_all add: toLower_def)

text \<open>The three names derived from a service name agree. The Go package is the lower-case of the type
  prefix, and it is the proto package without underscores; it contains no separator and no
  upper-case letter, so a service whose name is not made of separators only gets a non-empty one.\<close>

theorem service_names_agree:
  "toLower (toPascal s) = toIdent s \<and> filter (\<lambda>c. c \<noteq> CHR ''_'') (toSnake s) = toIdent s \<and>
   list_all (\<lambda>c. \<not> is_sep c \<and> \<not> is_upper c) (toIdent s) \<and> (toPascal s = [] \<longleftrightarrow> list_all is_sep s)"
proof -
  have "map toLower (map capitalize (fieldsFunc is_sep s)) = map toLower (fieldsFunc is_sep s)"
    by (simp add: toLower_capitalize)
  then have pascal: "toLower (toPascal s) = toIdent s"
    by (simp only: toPascal_def toLower_concat) (simp add: toLower_concat [symmetric] fieldsFunc_concat toIdent_def)
  have "filter (\<lambda>c. c \<noteq> CHR ''_'') (toSnake s) = toIdent s"
    by (induction s) (auto simp: toSnake_def toIdent_def toLower_def is_sep_def lower_sep)
  moreover have "list_all (\<lambda>c. \<not> is_sep c \<and> \<not> is_upper c) (toIdent s)"
    by (auto simp: toIdent_def toLower_def list_all_iff is_sep_def lower_sep lower_not_upper)
  moreover have "toPascal s = [] \<longleftrightarrow> list_all is_sep s"
  proof -
    have "toPascal s = [] \<longleftrightarrow> toIdent s = []" unfolding pascal [symmetric] by (simp add: toLower_def)
    then show ?thesis by (simp add: toIdent_def toLower_def filter_empty_conv list_all_iff)
  qed
  ultimately show ?thesis using pascal by blast
qed

lemma service_names_example:
  "service_data ''shop'' ''order-item-service'' =
     \<lparr>sd_Module = ''shop'', sd_Service = ''order-item-service'', sd_ProtoPkg = ''order_item'', sd_GoPkg = ''orderitem'',
      sd_Type = ''OrderItem''\<rparr>"
  by code_simp

text \<open>The defaults of the flags are the defaults of the generator: a command line without flags and a library
  call with only a name generate the same project.\<close>

lemma newCmd_defaults:
  "newCmd fs order (Inr dir) newCmd_flags arg w =
   GenerateProject fs order dir
     \<lparr>po_Name = arg, po_ServiceName = [], po_Replace = [], po_DB = [], po_Cache = [], po_MQ = [], po_Registry = [], po_Tracing = []\<rparr> w"
  by (simp add: newCmd_def newCmd_flags_def GenerateProject_def project_options_def project_defaults_def or_else_def)

section \<open>Generating into a file system\<close>

text \<open>A file system on which nothing fails.\<close>

definition mem_fs :: "(string \<rightharpoonup> string) fs_lib" where
  "mem_fs =
     \<lparr>fs_ReadFile = (\<lambda>p w. case w p of None \<Rightarrow> Inl (Sentinel ''file does not exist'') | Some t \<Rightarrow> Inr t),
      fs_MkdirAll = (\<lambda>_ w. (w, None)), fs_WriteFile = (\<lambda>p t w. (w(p \<mapsto> t), None)), fs_Exists = (\<lambda>p w. w p \<noteq> None)\<rparr>"

lemma write_all_mem:
  assumes "\<forall>(p, b) \<in> set files. \<exists>t. render dat b = Inr t"
  shows "write_all mem_fs base dat files w =
    (w ++ map_of (rev (map (\<lambda>(p, b). (filepath_Join [base, p], projr (render dat b))) files)), None)"
  using assms
proof (induction files arbitrary: w)
  case (Cons f files)
  obtain p b where f: "f = (p, b)" by (cases f)
  obtain t where "render dat b = Inr t" using Cons.prems f by auto
  with Cons f show ?case
    by (auto simp: writeTemplate_render mem_fs_def map_add_def fun_eq_iff split: option.splits)
qed simp

lemma find_module_first:
  assumes "trimSpace name = name" and "name \<noteq> []" and "CHR 0x0A \<notin> set name"
  shows "find_module (split_on (CHR 0x0A) (''module '' @ name @ CHR 0x0A # rest)) = Some name"
proof -
  have "split_on (CHR 0x0A) (''module '' @ name @ CHR 0x0A # rest) = (''module '' @ name) # split_on (CHR 0x0A) rest"
    using split_on_append_sep [of "CHR 0x0A" "''module '' @ name" rest] assms(3) by simp
  moreover have "trimSpace (''module '' @ name) = ''module '' @ name"
  proof (rule trimSpace_id)
    have "\<not> is_space (last name)" using trimSpace_last [of name] assms by simp
    then show "\<not> is_space (last (''module '' @ name))" using assms(2) by simp
  qed (simp_all add: is_space_def)
  ultimately show ?thesis using trimPrefix_append [of "''module ''" name] assms(1) by (simp add: Let_def)
qed

text \<open>Joining a clean relative path to a directory keeps its elements at the end.\<close>

definition plain_path :: "string \<Rightarrow> bool" where
  "plain_path p \<longleftrightarrow> p \<noteq> [] \<and> list_all (\<lambda>e. e \<notin> {[], ''.'', ''..''}) (split_on (CHR ''/'') p)"

fun clean_stack :: "bool \<Rightarrow> string list \<Rightarrow> string list \<Rightarrow> string list" where
  "clean_stack rooted st [] = st"
| "clean_stack rooted st (p # ps) =
     (if p = [] \<or> p = ''.'' then clean_stack rooted st ps
      else if p = ''..'' then
        (case st of
           [] \<Rightarrow> clean_stack rooted (if rooted then [] else [''..'']) ps
         | t # ts \<Rightarrow> clean_stack rooted (if t = ''..'' then ''..'' # st else ts) ps)
      else clean_stack rooted (p # st) ps)"

lemma clean_parts_append: "clean_parts rooted st (xs @ ys) = clean_parts rooted (clean_stack rooted st xs) ys"
  by (induction rooted st xs rule: clean_stack.induct) (auto split: list.splits)

lemma clean_parts_plain:
  "list_all (\<lambda>e. e \<notin> {[], ''.'', ''..''}) ys \<Longrightarrow> clean_parts rooted st ys = rev st @ ys"
  by (induction ys arbitrary: st) auto

lemma split_on_append: "split_on sep (a @ sep # b) = split_on sep a @ split_on sep b"
proof (induction a)
  case (Cons c a)
  obtain q qs where "split_on sep a = q # qs" by (cases "split_on sep a") auto
  with Cons show ?case by auto
qed simp

lemma Join_plain:
  assumes "base \<noteq> []" and "plain_path p"
  shows "filepath_Join [base, p] =
    (let rooted = hasPrefix base ''/''; body = join ''/'' (rev (clean_stack rooted [] (split_on (CHR ''/'') base)) @ split_on (CHR ''/'') p)
     in if rooted then CHR ''/'' # body else body)"
proof -
  have pre: "hasPrefix (base @ CHR ''/'' # p) ''/'' = hasPrefix base ''/''" using assms(1) by (cases base) auto
  have parts: "clean_parts r [] (split_on (CHR ''/'') (base @ CHR ''/'' # p)) =
      rev (clean_stack r [] (split_on (CHR ''/'') base)) @ split_on (CHR ''/'') p" for r
    using assms(2) by (simp add: split_on_append clean_parts_append clean_parts_plain plain_path_def)
  have ne: "join ''/'' (xs @ split_on (CHR ''/'') p) \<noteq> []" for xs
  proof (cases xs)
    case Nil
    then show ?thesis using assms(2) by (simp add: plain_path_def join_split_on)
  next
    case (Cons y ys)
    obtain q qs where "ys @ split_on (CHR ''/'') p = q # qs" by (cases "ys @ split_on (CHR ''/'') p") auto
    with Cons show ?thesis by simp
  qed
  have "filepath_Join [base, p] = filepath_Clean (base @ CHR ''/'' # p)"
    using assms by (simp add: filepath_Join_def)
  then show ?thesis by (simp add: filepath_Clean_def pre parts Let_def ne)
qed

lemma split_on_join:
  "ps \<noteq> [] \<Longrightarrow> \<forall>e \<in> set ps. sep \<notin> set e \<Longrightarrow> split_on sep (join [sep] ps) = ps"
proof (induction "[sep]" ps rule: join.induct)
  case (2 x)
  then show ?case by (simp add: split_on_id)
next
  case (3 x y zs)
  then show ?case by (simp add: split_on_append_sep)
qed simp

lemma clean_stack_set: "set (clean_stack rooted st ps) \<subseteq> set st \<union> set ps \<union> {''..''}"
proof (induction rooted st ps rule: clean_stack.induct)
  case (2 rooted st p ps)
  then show ?case by (cases st) auto
qed auto

lemma Join_inj:
  assumes "base \<noteq> []" and "plain_path p" and "plain_path q" and "filepath_Join [base, p] = filepath_Join [base, q]"
  shows "p = q"
proof -
  let ?B = "rev (clean_stack (hasPrefix base ''/'') [] (split_on (CHR ''/'') base))"
  have no: "\<forall>e \<in> set (split_on (CHR ''/'') x). CHR ''/'' \<notin> set e" for x using split_on_no_sep by blast
  have B: "\<forall>e \<in> set ?B. CHR ''/'' \<notin> set e"
    using clean_stack_set [of "hasPrefix base ''/''" "[]" "split_on (CHR ''/'') base"] no [of base] by fastforce
  have "join ''/'' (?B @ split_on (CHR ''/'') p) = join ''/'' (?B @ split_on (CHR ''/'') q)"
    using assms by (simp add: Join_plain Let_def split: if_splits)
  then have "split_on (CHR ''/'') (join ''/'' (?B @ split_on (CHR ''/'') p)) =
      split_on (CHR ''/'') (join ''/'' (?B @ split_on (CHR ''/'') q))"
    by simp
  moreover have "split_on (CHR ''/'') (join ''/'' (?B @ split_on (CHR ''/'') x)) = ?B @ split_on (CHR ''/'') x" for x
  proof (rule split_on_join)
    show "\<forall>e \<in> set (?B @ split_on (CHR ''/'') x). CHR ''/'' \<notin> set e" using B no [of x] by (simp only: set_append ball_Un)
  qed simp
  ultimately have "split_on (CHR ''/'') p = split_on (CHR ''/'') q" by simp
  then show ?thesis by (metis join_split_on)
qed

lemma map_of_unique:
  assumes "\<And>v. (k, v) \<in> set xs \<Longrightarrow> v = t" and "(k, t) \<in> set xs"
  shows "map_of xs k = Some t"
proof -
  obtain v where "map_of xs k = Some v" using weak_map_of_SomeI [OF assms(2)] by blast
  with assms(1) [OF map_of_SomeD] show ?thesis by blast
qed

lemma Join_ne: "base \<noteq> [] \<Longrightarrow> filepath_Join (base # es) \<noteq> []"
  by (auto simp: filepath_Join_def filepath_Clean_def Let_def)

lemma project_paths:
  "list_all plain_path (map fst project_files) \<and> distinct (map fst project_files)"
proof -
  have "map fst project_files =
     [''go.mod'', ''buf.yaml'', ''buf.gen.yaml'', ''README.md'', ''config/base.yaml'', ''gateway/cmd/main.go'',
      ''api/proto/example/v1/example.proto'', ''services/example-service/cmd/main.go'',
      ''services/example-service/internal/example/module.go'', ''services/example-service/internal/model/todo.go'',
      ''services/example-service/internal/model/errors.go'', ''services/example-service/internal/repository/todo_repo.go'',
      ''services/example-service/internal/service/todo_service.go'',
      ''services/example-service/internal/handler/rpc/todo_handler.go'']"
    by (simp only: project_files_def list.map fst_conv)
  then show ?thesis by (simp only:) code_simp
qed

section \<open>Every template renders\<close>

lemmas project_templates =
  bufYaml_lines bufGenYaml_lines projectReadme_lines baseConfig_lines gatewayMain_lines exampleProto_lines
  exampleServiceMain_lines exampleModule_lines exampleModelTodo_lines exampleModelErrors_lines exampleRepo_lines
  exampleService_lines exampleHandler_lines

lemmas service_templates =
  addServiceProto_lines addServiceMain_lines addServiceModule_lines addServiceModelItem_lines addServiceModelErrors_lines
  addServiceRepo_lines addServiceService_lines addServiceHandler_lines addServiceReadme_lines

lemma project_data_defined: "\<forall>f \<in> set project_fields. project_data d f \<noteq> None"
  by (simp add: project_data_def project_fields_def)

lemma service_tdata_defined: "\<forall>f \<in> set service_fields. service_tdata d f \<noteq> None"
  by (simp add: service_tdata_def service_fields_def)

lemma gomod_render:
  "\<exists>rest. render (project_data d) projectGoMod = Inr (''module '' @ po_Name d @ CHR 0x0A # rest)"
  using projectGoMod_render [of "project_data d" "po_Name d" "po_Replace d"]
  by (simp add: project_data_def unlines_def)

lemma project_files_render:
  assumes "(p, b) \<in> set project_files"
  shows "\<exists>t. render (project_data d) b = Inr t"
proof -
  have "b = projectGoMod \<or> line_template project_fields b"
    using assms project_templates unfolding project_files_def by auto
  then show ?thesis using gomod_render line_template_render project_data_defined by metis
qed

lemma service_files_render:
  assumes "(p, b) \<in> set (service_files name d)"
  shows "\<exists>t. render (service_tdata d) b = Inr t"
proof -
  have "line_template service_fields b"
    using assms service_templates unfolding service_files_def by auto
  then show ?thesis using line_template_render service_tdata_defined by metis
qed

lemma written_file:
  assumes "base \<noteq> []" and "set files = set project_files" and "(p, b) \<in> set project_files"
  shows "map_of (rev (map (\<lambda>(p, b). (filepath_Join [base, p], f b)) files)) (filepath_Join [base, p]) = Some (f b)"
proof (rule map_of_unique)
  show "(filepath_Join [base, p], f b) \<in> set (rev (map (\<lambda>(p, b). (filepath_Join [base, p], f b)) files))"
    using assms(2,3) by force
next
  fix v
  assume "(filepath_Join [base, p], v) \<in> set (rev (map (\<lambda>(p, b). (filepath_Join [base, p], f b)) files))"
  then obtain q c where q: "(q, c) \<in> set project_files" "filepath_Join [base, p] = filepath_Join [base, q]" "v = f c"
    using assms(2) by auto
  have "plain_path p" "plain_path q"
    using project_paths assms(3) q(1) by (force simp: list_all_iff)+
  with Join_inj [OF assms(1) _ _ q(2)] have "p = q" by blast
  with q(1,3) assms(3) project_paths show "v = f b" by (metis eq_key_imp_eq_value)
qed

text \<open>C35: a project is generated completely and can be extended. Whatever the options, on a file system
  that does not fail and in whatever order the files are written: no template fails, every file of
  the project holds its rendered template, nothing else is touched; the module path read from the
  module file is the project's name, and adding a service to the project succeeds. The name is any
  non-empty one without surrounding blanks and line breaks.\<close>

theorem generated_project_has_module:
  assumes "dir \<noteq> []" and "po_Name opts \<noteq> []" and "trimSpace (po_Name opts) = po_Name opts" and "CHR 0x0A \<notin> set (po_Name opts)"
    and "set (order project_files) = set project_files" and "svc \<noteq> []" and "\<forall>fs. set (order2 fs) = set fs"
    and "GenerateProject mem_fs order dir opts w = (w', e)"
  shows "let base = filepath_Join [dir, po_Name opts]; dat = project_data (project_options mem_fs dir opts w) in
     e = None \<and>
     (\<forall>(p, b) \<in> set project_files. \<exists>t. render dat b = Inr t \<and> w' (filepath_Join [base, p]) = Some t) \<and>
     (\<forall>k. k \<notin> (\<lambda>(p, b). filepath_Join [base, p]) ` set project_files \<longrightarrow> w' k = w k) \<and>
     readModulePath mem_fs base w' = Inr (po_Name opts) \<and>
     snd (GenerateService mem_fs order2 base svc w') = None"
proof -
  define base where "base = filepath_Join [dir, po_Name opts]"
  define o1 where "o1 = project_options mem_fs dir opts w"
  let ?kv = "\<lambda>(p, b). (filepath_Join [base, p], projr (render (project_data o1) b))"
  have nm: "po_Name o1 = po_Name opts" by (simp add: o1_def project_options_def project_defaults_def Let_def)
  have base: "base \<noteq> []" unfolding base_def by (rule Join_ne [OF assms(1)])
  have gen: "write_all mem_fs base (project_data o1) (order project_files) w = (w', e)"
    using assms(2,8) by (simp add: GenerateProject_def base_def o1_def)
  have "\<forall>(p, b) \<in> set (order project_files). \<exists>t. render (project_data o1) b = Inr t"
    using project_files_render assms(5) by blast
  from gen [unfolded write_all_mem [OF this]]
  have w': "w' = w ++ map_of (rev (map ?kv (order project_files)))" and e: "e = None" by auto
  have wrote: "w' (filepath_Join [base, p]) = Some (projr (render (project_data o1) b))" if "(p, b) \<in> set project_files" for p b
    using written_file [OF base assms(5) that, of "\<lambda>b. projr (render (project_data o1) b)"] by (simp add: w' map_add_def)
  have files: "\<forall>(p, b) \<in> set project_files. \<exists>t. render (project_data o1) b = Inr t \<and> w' (filepath_Join [base, p]) = Some t"
    using wrote project_files_render by fastforce
  have other: "w' k = w k" if "k \<notin> (\<lambda>(p, b). filepath_Join [base, p]) ` set project_files" for k
  proof -
    have "k \<notin> fst ` set (rev (map ?kv (order project_files)))" using that assms(5) by (auto simp: image_iff)
    then have "map_of (rev (map ?kv (order project_files))) k = None" by (simp only: map_of_eq_None_iff) simp
    then show ?thesis by (simp add: w' map_add_def)
  qed
  have rm: "readModulePath mem_fs base w' = Inr (po_Name opts)"
    using wrote [of "''go.mod''" projectGoMod] gomod_render [of o1] find_module_first [OF assms(3,2,4)]
    by (auto simp: project_files_def readModulePath_def mem_fs_def nm)
  have "snd (GenerateService mem_fs order2 base svc w') = None"
    using assms(6,7) write_all_mem [of "order2 (service_files svc (service_data (po_Name opts) svc))"] service_files_render
    by (fastforce simp: GenerateService_def rm Let_def)
  with rm e files other show ?thesis by (simp add: base_def o1_def Let_def)
qed

definition demo_project :: ProjectOptions where
  "demo_project = \<lparr>po_Name = ''shop'', po_ServiceName = [], po_Replace = [], po_DB = [], po_Cache = [], po_MQ = [],
     po_Registry = [], po_Tracing = []\<rparr>"

theorem generated_project_has_module_witness:
  "readModulePath mem_fs (filepath_Join [''/src'', ''shop''])
     (fst (GenerateProject mem_fs rev ''/src'' demo_project (\<lambda>_. None))) = Inr ''shop''"
proof -
  have "trimSpace ''shop'' = ''shop''" by code_simp
  moreover have "po_Name demo_project = ''shop''" by (simp add: demo_project_def)
  ultimately show ?thesis
    using generated_project_has_module [of "''/src''" demo_project rev "''cart''" id "\<lambda>_. None"
        "fst (GenerateProject mem_fs rev ''/src'' demo_project (\<lambda>_. None))"
        "snd (GenerateProject mem_fs rev ''/src'' demo_project (\<lambda>_. None))"]
    by (simp add: Let_def)
qed

end
