(* ===== verification/SF_Stack.thy ===== *)
theory SF_Stack
  imports SF_Pipeline SF_Process
begin

text \<open>
  A generated project as a whole: the gateway process with the generated configuration, fiber's router, the
  proxied call and the example service behind the framework's interceptor.
\<close>

section \<open>Routing in the generated gateway\<close>

text \<open>The paths of the generated gateway have no parameters: on its own paths the router selects a route exactly when
  method and path are those of the request.\<close>

definition generated_paths :: "string list" where
  "generated_paths = [''/health'', ''/api/v1/todos'', ''/api/v1/todos/detail'', ''/api/v1/ping'']"

definition routes_exactly :: "(string \<Rightarrow> string \<Rightarrow> string \<Rightarrow> string \<Rightarrow> bool) \<Rightarrow> bool" where
  "routes_exactly sel \<longleftrightarrow>
     (\<forall>m p m' p'. p \<in> set generated_paths \<and> p' \<in> set generated_paths \<and> m' \<in> {''GET'', ''POST'', ''PUT'', ''DELETE''} \<longrightarrow>
        (sel m p m' p' \<longleftrightarrow> m = m' \<and> p = p'))"

lemma dispatch_unary:
  assumes "fiber_serves sel notFound router" and "i < length rs"
    and "\<forall>j \<le> i. sel (rt_Method (pr_cfg (rs ! j))) (rt_Path (pr_cfg (rs ! j))) (fc_Method f) (fc_Path f) \<longleftrightarrow> j = i"
  shows "\<exists>k. router (unary_entries env rs @ rest) f = ge_unary env (rs ! i) k f"
  using assms(2,3)
proof (induction rs arbitrary: i)
  case (Cons r rs)
  show ?case
  proof (cases i)
    case 0
    with Cons.prems(2) have "sel (rt_Method (pr_cfg r)) (rt_Path (pr_cfg r)) (fc_Method f) (fc_Path f)" by auto
    then have "router (unary_entries env (r # rs) @ rest) f = ge_unary env r (router (unary_entries env rs @ rest)) f"
      using assms(1) by (simp add: unary_entries_def fiber_serves_def)
    with 0 show ?thesis by auto
  next
    case (Suc n)
    with Cons.prems(2) have "\<not> sel (rt_Method (pr_cfg r)) (rt_Path (pr_cfg r)) (fc_Method f) (fc_Path f)" by force
    then have "router (unary_entries env (r # rs) @ rest) f = router (unary_entries env rs @ rest) f"
      using router_simps(2) [OF assms(1)] by (simp add: unary_entries_def)
    moreover have "\<forall>j \<le> n. sel (rt_Method (pr_cfg (rs ! j))) (rt_Path (pr_cfg (rs ! j))) (fc_Method f) (fc_Path f) \<longleftrightarrow> j = n"
      using Cons.prems(2) Suc by (metis Suc_le_mono nat.inject nth_Cons_Suc)
    ultimately show ?thesis using Cons.IH [of n] Cons.prems(1) Suc by auto
  qed
qed simp

text \<open>Method and path identify a generated route.\<close>

lemma generated_routes_distinct:
  assumes "i < length generated_routes" and "j < length generated_routes"
    and "rt_Method (generated_routes ! i) = rt_Method (generated_routes ! j)" and "rt_Path (generated_routes ! i) = rt_Path (generated_routes ! j)"
  shows "i = j"
proof -
  have "distinct (map (\<lambda>r. (rt_Method r, rt_Path r)) generated_routes)" by (simp add: generated_routes_def)
  with assms show ?thesis by (simp add: distinct_conv_nth) (metis)
qed

lemma generated_routes_paths:
  "r \<in> set generated_routes \<Longrightarrow> rt_Path r \<in> set generated_paths \<and> rt_Path r \<noteq> ''/health'' \<and> rt_Method r \<in> {''GET'', ''POST'', ''PUT'', ''DELETE''}"
  by (auto simp: generated_routes_def generated_paths_def)

text \<open>The generated app hands a request for a configured route to the handler of this route.\<close>

lemma generated_dispatch:
  assumes "fiber_serves sel notFound router" and "passes_on (ge_requestid env)" and "routes_exactly sel"
    and "list_all2 (serves_route cd E stub) generated_routes rs" and "i < length generated_routes"
    and "fc_Method f = rt_Method (generated_routes ! i)" and "fc_Path f = rt_Path (generated_routes ! i)"
  shows "\<exists>l k. router ([Use (ge_requestid env), Route ''GET'' ''/health'' [healthHandler]] @ unary_entries env rs @ rest) f =
    ge_unary env (rs ! i) k (f\<lparr>fc_Locals := l\<rparr>)"
proof -
  let ?es = "Route ''GET'' ''/health'' [healthHandler] # unary_entries env rs @ rest"
  have len: "length rs = length generated_routes" using list_all2_lengthD [OF assms(4)] by simp
  have cfg: "pr_cfg (rs ! j) = generated_routes ! j" if "j < length rs" for j
    using list_all2_nthD2 [OF assms(4) that] by (simp add: serves_route_def)
  have gen: "rt_Path (generated_routes ! j) \<in> set generated_paths" "rt_Path (generated_routes ! j) \<noteq> ''/health''"
    "rt_Method (generated_routes ! j) \<in> {''GET'', ''POST'', ''PUT'', ''DELETE''}" if "j < length generated_routes" for j
    using generated_routes_paths [OF nth_mem [OF that]] by blast+
  have sel: "sel m p (fc_Method f) (fc_Path f) \<longleftrightarrow> m = fc_Method f \<and> p = fc_Path f" if "p \<in> set generated_paths" for m p
    using assms(3,6,7) that gen [OF assms(5)] unfolding routes_exactly_def by metis
  obtain l where "ge_requestid env (router ?es) f = router ?es (f\<lparr>fc_Locals := l\<rparr>)"
    using assms(2) unfolding passes_on_def by blast
  moreover have "\<not> sel ''GET'' ''/health'' (fc_Method f) (fc_Path f)"
    using sel [of "''/health''" "''GET''"] gen(2) [OF assms(5)] assms(7) by (simp add: generated_paths_def)
  moreover have "\<forall>j \<le> i. sel (rt_Method (pr_cfg (rs ! j))) (rt_Path (pr_cfg (rs ! j))) (fc_Method f) (fc_Path f) \<longleftrightarrow> j = i"
  proof (intro allI impI)
    fix j assume "j \<le> i"
    then have j: "j < length generated_routes" using assms(5) by simp
    show "sel (rt_Method (pr_cfg (rs ! j))) (rt_Path (pr_cfg (rs ! j))) (fc_Method f) (fc_Path f) \<longleftrightarrow> j = i"
      using sel [OF gen(1) [OF j]] cfg [of j] j len assms(5-7) generated_routes_distinct [OF j assms(5)] by auto
  qed
  then have "\<exists>k. router (unary_entries env rs @ rest) (f\<lparr>fc_Locals := l\<rparr>) = ge_unary env (rs ! i) k (f\<lparr>fc_Locals := l\<rparr>)"
    using dispatch_unary [OF assms(1), of i rs "f\<lparr>fc_Locals := l\<rparr>" env rest] assms(5) len by simp
  ultimately show ?thesis
    using router_simps [OF assms(1)] by auto
qed

section \<open>Requests on a generated project\<close>

text \<open>The answer \<open>out\<close> to a request \<open>f\<close> is that of the service to the message \<open>q\<close>: its message, or the error with its own
  code, message and status.\<close>

definition answers_as ::
  "errors_pkg \<Rightarrow> ('m \<Rightarrow> string) \<Rightarrow> ('m, 'm, 'w) rpc_handler \<Rightarrow> 'm \<Rightarrow> 'w exchange px fctx \<Rightarrow> 'w exchange px fctx \<times> hres \<Rightarrow> bool" where
  "answers_as E json service q f out \<longleftrightarrow>
     (case service q (ex_world (px_world (fc_World f))) of
        (w', Ret (Some p, None)) \<Rightarrow>
          snd out = HOk \<and> ex_world (px_world (fc_World (fst out))) = w' \<and> fc_Status (fst out) = 200 \<and>
          fc_Body (fst out) = RawBody (rs_Body (WriteSuccessJSON (fc_Now f) (json p)))
      | (w', Ret (_, Some e)) \<Rightarrow>
          \<forall>c msg. e = New E c msg \<and> c \<in> set framework_codes \<and> c \<noteq> CodeOK \<longrightarrow>
            snd out = HOk \<and> ex_world (px_world (fc_World (fst out))) = w' \<and> fc_Status (fst out) = HTTPStatus E c \<and>
            fc_Body (fst out) = JSONBody (failure_envelope c msg (fc_Now f))
      | _ \<Rightarrow> True)"

lemma route_answers:
  assumes "E = errors_init se fe" and "status_doc E" and "status_kind E" and "ce_err (ue_call ue) = E"
    and "\<forall>m. cd_protoMarshal cd m = Inr (json m)" and "plain_route r (px_balancer (fc_World f))" and "connects cd E service q0 r"
    and "bindProtoRequest cd E (ue_req ue (f\<lparr>fc_Locals := l\<rparr>)) q0 = Ret (Inr q)"
  shows "answers_as E json service q f (routeHandler ue r k (f\<lparr>fc_Locals := l\<rparr>))"
proof -
  let ?f = "f\<lparr>fc_Locals := l\<rparr>" and ?w = "ex_world (px_world (fc_World f))"
  have pl: "plain_route r (px_balancer (fc_World ?f))" using assms(6) by simp
  obtain w' res where res: "service q ?w = (w', res)" by fastforce
  consider (ok) p where "res = Ret (Some p, None)" | (err) x e where "res = Ret (x, Some e)"
    | (other) "res = Ret (None, None)" | (panic) m where "res = Panic m"
    by (cases res) (auto, metis option.exhaust)
  then show ?thesis
  proof cases
    case ok
    with res have "service q (ex_world (px_world (fc_World ?f))) = (w', Ret (Some p, None))" by simp
    from rest_success [OF pl assms(7,4,8,5) this, of k] res ok show ?thesis by (auto simp: answers_as_def)
  next
    case err
    have "\<exists>f'. routeHandler ue r k ?f = (f', HOk) \<and> ex_world (px_world (fc_World f')) = w' \<and>
        fc_Status f' = HTTPStatus E c \<and> fc_Body f' = JSONBody (failure_envelope c msg (fc_Now ?f))"
      if "e = New E c msg" "c \<in> set framework_codes" "c \<noteq> CodeOK" for c msg
      by (rule rest_failure [OF assms(1,2,3) pl assms(7,4,8,5) _ that(2,3)]) (use res err that in simp)
    then have "\<forall>c msg. e = New E c msg \<and> c \<in> set framework_codes \<and> c \<noteq> CodeOK \<longrightarrow>
        snd (routeHandler ue r k ?f) = HOk \<and> ex_world (px_world (fc_World (fst (routeHandler ue r k ?f)))) = w' \<and>
        fc_Status (fst (routeHandler ue r k ?f)) = HTTPStatus E c \<and>
        fc_Body (fst (routeHandler ue r k ?f)) = JSONBody (failure_envelope c msg (fc_Now f))"
      by fastforce
    then show ?thesis using res err by (cases x) (auto simp: answers_as_def)
  qed (use res in \<open>simp_all add: answers_as_def\<close>)
qed

text \<open>C8: a generated project answers its REST interface. With the generated configuration, local components and connections
  that can be opened, the gateway process initialises and listens on port 8080, and each of its five routes is answered by the
  procedure it names, whatever the service behind it does: a request that fiber routes by its method and path and that binds
  to a message of the procedure gets 200 with the service's reply, or, for a framework error, the error's own code, message
  and status; the backend is left exactly as the service left it.\<close>

theorem generated_project_answers:
  fixes env :: "('r, 'x, 'w exchange px, 'w exchange invoker, 'f) proc_env"
  assumes "local_components (run_Components (c_Runtime (base_Config d)))"
    and "\<forall>t v. \<exists>v' c. gl_NewClient (ge_lib (pe_gw env)) t v = (v', Inr c)"
    and "fiber_serves sel notFound router" and "passes_on (ge_requestid (pe_gw env))" and "routes_exactly sel"
    and "ge_unary (pe_gw env) = routeHandler ue" and "ge_err (pe_gw env) = E" and "ce_err (ue_call ue) = E"
    and "\<forall>f l. ue_req ue (f\<lparr>fc_Locals := l\<rparr>) = ue_req ue f"
    and "E = errors_init se fe" and "status_doc E" and "status_kind E"
    and "\<forall>m cs. delivers (stub m) (ErrorInterceptor E (service m)) cs" and "\<forall>m. cd_protoMarshal cd m = Inr (json m)"
  shows "\<exists>tab heap' mods a g app.
    registerInvokers cd E stub (ge_invokers (pe_gw env)) = Ret tab \<and>
    Build DefaultCatalog (run_Components (c_Runtime (base_Config d))) heap = (heap', Inr mods) \<and>
    app_Init (proc_ops (gateway_env tab env)) cx (process_app (gateway_env tab env) (base_Config d) (gateway_modules mods) w) =
      (a, Ret None) \<and>
    ap_modules a = map PAdapter mods @ [PGateway g] \<and> g_address g = ''0.0.0.0:8080'' \<and> g_app g = Some app \<and>
    (\<forall>m q0 r f q. (m, q0) \<in> set example_rpcs \<and> r \<in> set generated_routes \<and> rt_RPC r = example_rpc m \<and>
       fc_Method f = rt_Method r \<and> fc_Path f = rt_Path r \<and> fits 4 (px_balancer (fc_World f)) \<and>
       bindProtoRequest cd E (ue_req ue f) q0 = Ret (Inr q) \<longrightarrow>
       answers_as E json (service m) q f (router app f))"
proof -
  obtain tab heap' mods a g where up: "registerInvokers cd E stub (ge_invokers (pe_gw env)) = Ret tab"
    "Build DefaultCatalog (run_Components (c_Runtime (base_Config d))) heap = (heap', Inr mods)"
    "app_Init (proc_ops (gateway_env tab env)) cx (process_app (gateway_env tab env) (base_Config d) (gateway_modules mods) w) = (a, Ret None)"
    "ap_modules a = map PAdapter mods @ [PGateway g]" "g_address g = ''0.0.0.0:8080''"
    and routes: "list_all2 (serves_route cd E stub) generated_routes (g_routes g)"
    and app: "g_app g = Some (pingRoute E ([Use (ge_requestid (pe_gw env)), Route ''GET'' ''/health'' [healthHandler]] @
      unary_entries (pe_gw env) (g_routes g)))"
    using generated_gateway_serves [OF assms(1,2)] unfolding assms(7) by blast
  have "answers_as E json (service m) q f (router (the (g_app g)) f)"
    if req: "(m, q0) \<in> set example_rpcs" "r \<in> set generated_routes" "rt_RPC r = example_rpc m" "fc_Method f = rt_Method r"
      "fc_Path f = rt_Path r" "fits 4 (px_balancer (fc_World f))" "bindProtoRequest cd E (ue_req ue f) q0 = Ret (Inr q)" for m q0 r f q
  proof -
    obtain i where i: "i < length generated_routes" "generated_routes ! i = r" using req(2) by (meson in_set_conv_nth)
    let ?r = "g_routes g ! i"
    have sr: "serves_route cd E stub r ?r" using list_all2_nthD [OF routes i(1)] i(2) by simp
    then obtain m' q0' where m': "(m', q0') \<in> set example_rpcs" "rt_RPC r = example_rpc m'"
      "pr_invoker ?r = Some (unaryInvoker cd E q0' (stub m'))" "plain_route ?r (pr_balancer ?r)" "length (pr_conns ?r) = 4"
      by (auto simp: serves_route_def list_ex_iff)
    have "m' = m" using m'(2) req(3) by (simp add: example_rpc_def)
    moreover have "q0' = q0" using m'(1) req(1) \<open>m' = m\<close> by (auto simp: example_rpcs_def)
    ultimately have con: "connects cd E (service m) q0 ?r" using m'(3) assms(13) by (auto simp: connects_def)
    have pl: "plain_route ?r (px_balancer (fc_World f))" using m'(4,5) req(6) by (simp add: plain_route_def)
    have "\<exists>l k. router ([Use (ge_requestid (pe_gw env)), Route ''GET'' ''/health'' [healthHandler]] @
        unary_entries (pe_gw env) (g_routes g) @ pingRoute E []) f = ge_unary (pe_gw env) ?r k (f\<lparr>fc_Locals := l\<rparr>)"
      by (rule generated_dispatch [OF assms(3,4,5) routes i(1)]) (use i(2) req(4,5) in simp_all)
    then obtain l k where "router (the (g_app g)) f = routeHandler ue ?r k (f\<lparr>fc_Locals := l\<rparr>)"
      by (auto simp: app pingRoute_def assms(6))
    with route_answers [OF assms(10,11,12,8,14) pl con] req(7) assms(9) show ?thesis by simp
  qed
  with up app show ?thesis by (metis option.sel)
qed

text \<open>A gateway in front of the example service, and a POST that creates a todo.\<close>

definition demo_stack_env ::
  "(unit, unit, TodoRepo exchange px, TodoRepo exchange invoker, unit) proc_env \<Rightarrow>
   (unit, unit, TodoRepo exchange px, TodoRepo exchange invoker, unit) proc_env" where
  "demo_stack_env env =
     env\<lparr>pe_gw := (pe_gw env)\<lparr>ge_lib := \<lparr>gl_NewClient = (\<lambda>t v. (v, Inr 1)), gl_Close = (\<lambda>c v. (v, None))\<rparr>, ge_err := E0,
       ge_requestid := (\<lambda>k. k), ge_unary := routeHandler demo_unary_env\<rparr>\<rparr>"

lemma demo_stack_sel [simp]:
  "ge_err (pe_gw (demo_stack_env env)) = E0" "ge_requestid (pe_gw (demo_stack_env env)) = (\<lambda>k. k)"
  "ge_unary (pe_gw (demo_stack_env env)) = routeHandler demo_unary_env"
  "ge_lib (pe_gw (demo_stack_env env)) = \<lparr>gl_NewClient = (\<lambda>t v. (v, Inr 1)), gl_Close = (\<lambda>c v. (v, None))\<rparr>"
  by (simp_all add: demo_stack_env_def)

lemma demo_post_created:
  assumes "answers_as E0 (\<lambda>_. ''{}'') (ExampleService E0 id 5) (CreateTodoRequest ''milk'' [])
    (demo_todo_ctx ''POST'' ''milk'' [] \<lparr>tr_seq = 0, tr_todos = []\<rparr>) out"
  shows "fc_Status (fst out) = 200"
  using assms service_create [of "\<lparr>tr_seq = 0, tr_todos = []\<rparr>" "''milk''" E0 id 5 "[]"] empty_repo_ok
  by (auto simp: answers_as_def)

theorem generated_project_answers_witness:
  "\<forall>env. \<exists>tab mods a g app.
     app_Init (proc_ops (gateway_env tab (demo_stack_env env))) Background
       (process_app (gateway_env tab (demo_stack_env env)) (base_Config (newCmd_flags\<lparr>po_Name := ''demo''\<rparr>)) (gateway_modules mods)
          \<lparr>pw_handler = None, pw_ext = ()\<rparr>) = (a, Ret None) \<and>
     ap_modules a = map PAdapter mods @ [PGateway g] \<and> g_app g = Some app \<and>
     fc_Status (fst (served_by demo_sel (\<lambda>c. (c, HErr errUpgradeRequired)) app
       (demo_todo_ctx ''POST'' ''milk'' [] \<lparr>tr_seq = 0, tr_todos = []\<rparr>))) = 200"
proof
  fix env
  let ?f = "demo_todo_ctx ''POST'' ''milk'' [] \<lparr>tr_seq = 0, tr_todos = []\<rparr>"
  let ?r = "generated_route ''todo-create'' ''POST'' ''/api/v1/todos'' ''CreateTodo''"
  have dial: "\<forall>t v. \<exists>v' c. gl_NewClient (ge_lib (pe_gw (demo_stack_env env))) t v = (v', Inr c)" by simp
  have sel: "routes_exactly demo_sel" by (auto simp: routes_exactly_def demo_sel_def)
  have ue: "ce_err (ue_call demo_unary_env) = E0" "\<forall>f l. ue_req demo_unary_env (f\<lparr>fc_Locals := l\<rparr>) = ue_req demo_unary_env f"
    by (simp_all add: demo_unary_env_def)
  have stub: "\<forall>m cs. delivers ((\<lambda>_. loopback (ErrorInterceptor E0 (ExampleService E0 id 5))) m)
      (ErrorInterceptor E0 ((\<lambda>_. ExampleService E0 id 5) m)) cs"
    by (simp add: loopback_delivers)
  have json: "\<forall>m. cd_protoMarshal demo_codec m = Inr ((\<lambda>_. ''{}'') m)" by (simp add: demo_codec_def)
  have pass: "passes_on (ge_requestid (pe_gw (demo_stack_env env)))" by (simp add: passes_on_id)
  note P = generated_project_answers [where env = "demo_stack_env env" and heap = 0 and cx = Background
      and w = "\<lparr>pw_handler = None, pw_ext = ()\<rparr>" and stub = "\<lambda>_. loopback (ErrorInterceptor E0 (ExampleService E0 id 5))"
      and service = "\<lambda>_. ExampleService E0 id 5" and json = "\<lambda>_. ''{}''" and E = E0 and ue = demo_unary_env and cd = demo_codec
      and router = "served_by demo_sel (\<lambda>c. (c, HErr errUpgradeRequired))",
      OF default_project_local [of "''demo''"] dial fiber_serves_ex pass sel demo_stack_sel(3,1) ue refl status_doc_E0 status_kind_E0
        stub json]
  have req: "(''CreateTodo'', CreateTodoRequest [] []) \<in> set example_rpcs \<and> ?r \<in> set generated_routes \<and>
      rt_RPC ?r = example_rpc ''CreateTodo'' \<and> fc_Method ?f = rt_Method ?r \<and> fc_Path ?f = rt_Path ?r \<and> fits 4 (px_balancer (fc_World ?f)) \<and>
      bindProtoRequest demo_codec E0 (ue_req demo_unary_env ?f) (CreateTodoRequest [] []) = Ret (Inr (CreateTodoRequest ''milk'' []))"
    using demo_todo_bind(1) by (simp add: example_rpcs_def generated_routes_def demo_todo_ctx_def fits_def)
  from P show "\<exists>tab mods a g app.
     app_Init (proc_ops (gateway_env tab (demo_stack_env env))) Background
       (process_app (gateway_env tab (demo_stack_env env)) (base_Config (newCmd_flags\<lparr>po_Name := ''demo''\<rparr>)) (gateway_modules mods)
          \<lparr>pw_handler = None, pw_ext = ()\<rparr>) = (a, Ret None) \<and>
     ap_modules a = map PAdapter mods @ [PGateway g] \<and> g_app g = Some app \<and>
     fc_Status (fst (served_by demo_sel (\<lambda>c. (c, HErr errUpgradeRequired)) app ?f)) = 200"
    using demo_post_created req by blast
qed

end
