(* ===== verification/SF_Lifecycle.thy ===== *)
theory SF_Lifecycle
  imports SF_Process
begin

text \<open>
  The life of the service process of a new project, from \<open>main\<close> to its end: the default components are
  built and initialised, the gRPC server finds the in-memory registry among the published values, starts,
  announces itself, and is withdrawn at shutdown. The theory composes \<open>core/module\<close>, \<open>core/app\<close>, the memory
  adapters and \<open>transport/grpcserver\<close>; \<open>uses_registry\<close> names the hypotheses on the gRPC library: it leaves
  the registry alone. The last section is the other side, the resolver of the gateway's dialer.
\<close>

section \<open>The life of a service process\<close>

text \<open>The modules that the components of a new project are built into, on a heap with \<open>a\<close> objects.\<close>

definition default_adapters :: "nat \<Rightarrow> adapter list" where
  "default_adapters a =
     [MNoop ''store.noop'' ''store'' (ONoop NoopStore), MMemCache a, MMemBus (Suc a), MMemRegistry (Suc (Suc a)),
      MNoop ''tracing.noop'' ''tracing'' (ONoop NoopTracing)]"

abbreviation default_Config where
  "default_Config n \<equiv> base_Config (newCmd_flags\<lparr>po_Name := n\<rparr>)"

lemma default_build:
  "Build DefaultCatalog (run_Components (c_Runtime (default_Config n))) a = (Suc (Suc (Suc a)), Inr (default_adapters a))"
proof -
  have k: "key ''store'' ''noop'' = ''store.noop''" "key ''cache'' ''memory'' = ''cache.memory''"
    "key ''eventbus'' ''memory'' = ''eventbus.memory''" "key ''registry'' ''memory'' = ''registry.memory''"
    "key ''tracing'' ''noop'' = ''tracing.noop''"
    by code_simp+
  show ?thesis
    by (simp add: Build_def base_Config_def newCmd_flags_def component_of_def component_IsEnabled_def k DefaultCatalog_unfold
        default_adapters_def)
qed

lemma default_local: "list_all local_adapter (default_adapters a)"
  by (simp add: default_adapters_def local_adapter_def)

text \<open>The registry \<open>n\<close> of a world, and libraries that leave it alone.\<close>

definition uses_registry ::
  "('r, 'x, 'q, 'i, 'f) proc_env \<Rightarrow> (nat \<Rightarrow> ('r, 'x) proc_world \<Rightarrow> ('r, 'x) proc_world) \<Rightarrow> nat \<Rightarrow> (('r, 'x) proc_world \<Rightarrow> Registry) \<Rightarrow>
   (Registry \<Rightarrow> ('r, 'x) proc_world \<Rightarrow> ('r, 'x) proc_world) \<Rightarrow> bool" where
  "uses_registry env register n get put \<longleftrightarrow>
     lens get put \<and> lib_keeps get (pe_grpcd env) \<and> pe_registrar env (OMemRegistry n) = Some (memory_registrar get put) \<and>
     (\<forall>ics w. get (fst (gl_NewServer (pe_grpcd env) ics w)) = get w) \<and> (\<forall>w. get (fst (gl_NewHealth (pe_grpcd env) w)) = get w) \<and>
     (\<forall>srv hs w. get (gl_RegisterHealth (pe_grpcd env) srv hs w) = get w) \<and> (\<forall>srv w. get (register srv w) = get w) \<and>
     (\<forall>h w. get (w\<lparr>pw_handler := h\<rparr>) = get w)"

lemma default_Init:
  "\<exists>s. each_module (proc_ops env) msg (proc_Init env) cx (map PAdapter (default_adapters a)) s0 =
      (map PAdapter (default_adapters a), s, Ret None) \<and>
    ru_world s = ru_world s0 \<and> ru_cfg s = ru_cfg s0 \<and> rt_Get ''registrar'' s = Some (OMemRegistry (Suc (Suc a)))"
  by (simp add: default_adapters_def adapter_inits proc_ops_def Let_def)

lemma service_Init_registry:
  assumes "uses_registry env register n get put" and "rt_Get ''registrar'' s = Some (OMemRegistry n)"
  shows "\<exists>g s'. each_module (proc_ops env) msg (proc_Init env) cx
      [PService nm, PGrpc (grpcserver_NewModule [RegisterOnServer register])] s = ([PService nm, PGrpc g], s', Ret None) \<and>
    get (ru_world s') = get (ru_world s) \<and> gs_registrar g = Some (memory_registrar get put) \<and> gs_health g \<noteq> None \<and> gs_server g \<noteq> None \<and>
    gs_serviceName g = app_Name (c_App (ru_cfg s)) \<and>
    gs_address g = (if grpc_ListenIP (c_GRPC (ru_cfg s)) = [] then ''0.0.0.0'' else grpc_ListenIP (c_GRPC (ru_cfg s))) \<and>
    gs_port g = (if grpc_Port (c_GRPC (ru_cfg s)) = 0 then 9000 else grpc_Port (c_GRPC (ru_cfg s)))"
proof -
  let ?L = "pe_grpcd env"
  note u = assms(1) [unfolded uses_registry_def]
  define s1 where "s1 = logModuleLifecycle msg ''transport.grpcserver'' (fst (service_Init (pe_repo env) (logModuleLifecycle msg nm s)))"
  obtain w1 srv where 1: "gl_NewServer ?L [FrameworkInterceptor] (ru_world s1) = (w1, srv)" by fastforce
  obtain w2 hs where 2: "gl_NewHealth ?L w1 = (w2, hs)" by fastforce
  have "get w1 = get (ru_world s1)" using u 1 by (metis fst_conv)
  moreover have "get w2 = get w1" using u 2 by (metis fst_conv)
  moreover have "get (RegisterOnServer register srv w) = get w" for w using u by (simp add: RegisterOnServer_def split: option.splits)
  moreover have "get (ru_world s1) = get (ru_world s)" using u by (simp add: s1_def service_Init_def)
  moreover have "rt_Get ''registrar'' s1 = Some (OMemRegistry n)" "ru_cfg s1 = ru_cfg s" using assms(2) by (simp_all add: s1_def service_Init_def)
  ultimately show ?thesis
    using 1 2 u
    by (simp add: proc_ops_def grpcserver_ops_def grpcserver_Init_def grpcserver_NewModule_def configured_def Let_def service_Init_def
        s1_def)
qed

text \<open>A start that can listen succeeds.\<close>

lemma Start_ok:
  assumes "gs_registrar m = Some (memory_registrar get put)" and "gs_health m \<noteq> None" and "gs_server m \<noteq> None"
    and "\<forall>addr w. \<exists>w' l. gl_Listen L addr w = (w', Inr l)"
  shows "\<exists>m' s'. grpcserver_Start L m s = (m', s', Ret None)"
proof -
  obtain w' l where "gl_Listen L (Address (gs_address m) (gs_port m)) (ru_world s) = (w', Inr l)" using assms(4) by blast
  with assms(1-3) show ?thesis
    by (auto simp: grpcserver_Start_def Let_def memory_registrar_def serve_on_def split: option.splits prod.splits)
qed

lemma each_module_noop:
  assumes "list_all (\<lambda>m. \<forall>s. call cx m s = (m, s, Ret None)) ms"
  shows "\<exists>s'. each_module ops msg call cx ms s = (ms, s', Ret None) \<and> ru_world s' = ru_world s"
  using assms
proof (induction ms arbitrary: s)
  case (Cons m ms)
  from Cons.IH [of "logModuleLifecycle msg (mo_Name ops m) s"] Cons.prems show ?case by auto
qed simp

lemma stop_each_noop:
  assumes "list_all (\<lambda>m. \<forall>s. mo_Stop ops cx m s = (m, s, Ret None)) ms"
  shows "\<exists>s'. stop_each ops cx ms s = (ms, s', Ret None) \<and> ru_world s' = ru_world s"
  using assms
proof (induction ms arbitrary: s)
  case (Cons m ms)
  from Cons.IH [of "logModuleLifecycle ''stopping module'' (mo_Name ops m) s"] Cons.prems show ?case by auto
qed simp

lemma local_Stop: "local_adapter m \<Longrightarrow> adapter_Stop env m s = (m, s, Ret None)"
  by (cases m) (simp_all add: local_adapter_def)

abbreviation service_mods where
  "service_mods nm a g \<equiv> map PAdapter (default_adapters a) @ [PService nm, PGrpc g]"

lemma service_Start_announces:
  assumes "uses_registry env register n get put" and "\<forall>addr w. \<exists>w' l. gl_Listen (pe_grpcd env) addr w = (w', Inr l)"
    and "gs_registrar g = Some (memory_registrar get put)" and "gs_health g \<noteq> None" and "gs_server g \<noteq> None"
    and "ap_modules p = service_mods nm a g"
  shows "\<exists>g' p'. app_Start (proc_ops env) cx p = (p', Ret None) \<and> ap_modules p' = service_mods nm a g' \<and>
    gs_registrar g' = gs_registrar g \<and> gs_serviceID g' \<noteq> [] \<and>
    get (ru_world (ap_rt p')) = Register (instance_announced g (gs_serviceID g')) (get (ru_world (ap_rt p)))"
proof -
  have u: "lens get put" "lib_keeps get (pe_grpcd env)" using assms(1) by (simp_all add: uses_registry_def)
  have "list_all (\<lambda>m. \<forall>s. proc_Start env cx m s = (m, s, Ret None)) (map PAdapter (default_adapters a) @ [PService nm])"
    by (simp add: list_all_iff noop_call_def)
  from each_module_noop [where call = "proc_Start env" and cx = cx, OF this] obtain s1 where
    s1: "each_module (proc_ops env) ''starting module'' (proc_Start env) cx (map PAdapter (default_adapters a) @ [PService nm]) (ap_rt p) =
      (map PAdapter (default_adapters a) @ [PService nm], s1, Ret None)" "ru_world s1 = ru_world (ap_rt p)" by blast
  obtain g' s' where st: "grpcserver_Start (pe_grpcd env) g (logModuleLifecycle ''starting module'' ''transport.grpcserver'' s1) =
      (g', s', Ret None)"
    using Start_ok [OF assms(3,4,5,2)] by blast
  from Start_announces [OF u assms(3) st] have g': "gs_serviceID g' \<noteq> []" "gs_registrar g' = gs_registrar g"
    "get (ru_world s') = Register (instance_announced g (gs_serviceID g')) (get (ru_world (ap_rt p)))"
    using s1(2) by auto
  have one: "each_module (proc_ops env) ''starting module'' (proc_Start env) cx [PGrpc g] s1 = ([PGrpc g'], s', Ret None)"
    using st by (simp add: proc_ops_def grpcserver_ops_def)
  have "each_module (proc_ops env) ''starting module'' (proc_Start env) cx
      ((map PAdapter (default_adapters a) @ [PService nm]) @ [PGrpc g]) (ap_rt p) =
      ((map PAdapter (default_adapters a) @ [PService nm]) @ [PGrpc g'], s', Ret None)"
    by (subst each_module_append) (simp only: s1(1) one prod.case outcome.case option.case)
  moreover have "mo_Start (proc_ops env) = proc_Start env" by (simp add: proc_ops_def)
  ultimately have "app_Start (proc_ops env) cx p = (p\<lparr>ap_modules := service_mods nm a g', ap_rt := s'\<rparr>, Ret None)"
    using assms(6) by (simp add: app_Start_def)
  with g' show ?thesis by auto
qed

lemma service_Stop_withdraws:
  assumes "uses_registry env register n get put" and "gs_registrar g = Some (memory_registrar get put)"
    and "gs_serviceID g \<noteq> []" and "ap_modules p = service_mods nm a g"
  shows "\<exists>p'. app_Stop (proc_ops env) cx p = (p', Ret None) \<and>
    get (ru_world (ap_rt p')) = Deregister (gs_serviceID g) (get (ru_world (ap_rt p)))"
proof -
  have u: "lens get put" "lib_keeps get (pe_grpcd env)" using assms(1) by (simp_all add: uses_registry_def)
  let ?s = "logModuleLifecycle ''stopping module'' ''transport.grpcserver'' (ap_rt p)"
  obtain s1 where s1: "grpcserver_Stop (pe_grpcd env) (pe_stop env) g ?s = (g, s1, Ret None)"
    by (simp add: grpcserver_Stop_def Let_def)
  have "list_all (\<lambda>m. \<forall>s. mo_Stop (proc_ops env) cx m s = (m, s, Ret None)) (PService nm # rev (map PAdapter (default_adapters a)))"
    using default_local [of a] by (auto simp: list_all_iff noop_call_def proc_ops_def local_Stop)
  from stop_each_noop [where ops = "proc_ops env" and cx = cx, OF this, of s1] obtain s2 where
    s2: "stop_each (proc_ops env) cx (PService nm # rev (map PAdapter (default_adapters a))) s1 =
      (PService nm # rev (map PAdapter (default_adapters a)), s2, Ret None)" "ru_world s2 = ru_world s1" by blast
  have "stop_each (proc_ops env) cx (rev (ap_modules p)) (ap_rt p) =
      (PGrpc g # PService nm # rev (map PAdapter (default_adapters a)), s2, Ret None)"
    using s1 s2(1) by (simp add: assms(4) proc_ops_def grpcserver_ops_def)
  moreover have "get (ru_world s2) = Deregister (gs_serviceID g) (get (ru_world (ap_rt p)))"
    using Stop_withdraws [OF u assms(2,3), of "pe_stop env" ?s] s1 s2(2) by simp
  ultimately show ?thesis by (simp add: app_Stop_def)
qed

text \<open>C15: a service of a new project is discoverable exactly while it runs. The service process generated with the
  default options runs through without error if its address can be listened on: while it serves, resolving the project's name in its registry gives
  exactly one instance, the gRPC server on the loopback address and port 9000; when the process has been stopped, by
  a signal or by its context, however the gRPC server's shutdown ends, the registry is empty again.\<close>

theorem default_service_announced:
  assumes "uses_registry env register (Suc (Suc heap)) get put" and "\<forall>addr w. \<exists>w' l. gl_Listen (pe_grpcd env) addr w = (w', Inr l)"
    and "services (get w) = []"
    and "\<forall>p. ap_modules (during p) = ap_modules p \<and> get (ru_world (ap_rt (during p))) = get (ru_world (ap_rt p))"
  shows "\<exists>p2 p3 sid. run_components env heap (service_modules register nm) during sig now w (default_Config n) = (Some p3, Ret None) \<and>
    app_Stop (proc_ops env) (WithTimeout now Background (15 * second)) (log_signal sig (during p2)) = (p3, Ret None) \<and>
    Resolve n (get (ru_world (ap_rt p2))) =
      [\<lparr>si_ID = sid, si_Name = n, si_Version = [], si_Address = ''127.0.0.1'', si_Port = 9000, si_Protocol = ''grpc'',
        si_Tags = [''grpc''], si_Metadata = [(''transport'', ''grpc'')]\<rparr>] \<and>
    services (get (ru_world (ap_rt p3))) = []"
proof -
  let ?cfg = "default_Config n" and ?m0 = "grpcserver_NewModule [RegisterOnServer register]"
  let ?p0 = "process_app env ?cfg (service_modules register nm (default_adapters heap)) w"
  have cfg: "app_Name (c_App ?cfg) = n" "grpc_ListenIP (c_GRPC ?cfg) = ''0.0.0.0''" "grpc_Port (c_GRPC ?cfg) = 9000"
    by (simp_all add: base_Config_def)
  obtain s where s: "each_module (proc_ops env) ''initializing module'' (proc_Init env) Background (map PAdapter (default_adapters heap)) (ap_rt ?p0) =
      (map PAdapter (default_adapters heap), s, Ret None)" "ru_world s = w" "ru_cfg s = ?cfg"
    "rt_Get ''registrar'' s = Some (OMemRegistry (Suc (Suc heap)))"
    using default_Init [of env "''initializing module''" Background heap "ap_rt ?p0"] by auto
  obtain g s' where g: "each_module (proc_ops env) ''initializing module'' (proc_Init env) Background [PService nm, PGrpc ?m0] s =
      ([PService nm, PGrpc g], s', Ret None)" "get (ru_world s') = get w"
    "gs_registrar g = Some (memory_registrar get put)" "gs_health g \<noteq> None" "gs_server g \<noteq> None"
    "gs_serviceName g = n" "gs_address g = ''0.0.0.0''" "gs_port g = 9000"
    using service_Init_registry [OF assms(1) s(4), of "''initializing module''" Background nm] unfolding s(2,3) cfg by auto
  have "mo_Init (proc_ops env) = proc_Init env" by (simp add: proc_ops_def)
  with s(1) g(1) have init: "app_Init (proc_ops env) Background ?p0 = (?p0\<lparr>ap_modules := service_mods nm heap g, ap_rt := s'\<rparr>, Ret None)"
    by (simp add: app_Init_def service_modules_def each_module_append)
  let ?p1 = "?p0\<lparr>ap_modules := service_mods nm heap g, ap_rt := s'\<rparr>"
  obtain g' p2 where start: "app_Start (proc_ops env) Background ?p1 = (p2, Ret None)" "ap_modules p2 = service_mods nm heap g'"
    "gs_registrar g' = gs_registrar g" "gs_serviceID g' \<noteq> []"
    "get (ru_world (ap_rt p2)) = Register (instance_announced g (gs_serviceID g')) (get w)"
    using service_Start_announces [OF assms(1,2) g(3,4,5), of ?p1 heap nm Background] g(2) by auto
  obtain p3 where stop: "app_Stop (proc_ops env) (WithTimeout now Background (15 * second)) (log_signal sig (during p2)) = (p3, Ret None)"
    "get (ru_world (ap_rt p3)) = Deregister (gs_serviceID g') (get (ru_world (ap_rt p2)))"
    using service_Stop_withdraws [OF assms(1), of g' "log_signal sig (during p2)" heap nm] start(2,3,4) g(3) assms(4) by auto
  have "run_components env heap (service_modules register nm) during sig now w ?cfg = (Some p3, Ret None)"
    using init start(1) stop(1) by (simp add: run_components_def default_build app_Run_def)
  moreover have "Resolve n (get (ru_world (ap_rt p2))) = [instance_announced g (gs_serviceID g')]"
    using assms(3) g(6) by (simp add: start(5) Resolve_def Register_def instance_announced_def)
  moreover have "services (get (ru_world (ap_rt p3))) = []"
    using assms(3) by (simp add: stop(2) start(5) Deregister_def Register_def instance_announced_def)
  ultimately show ?thesis
    using stop(1) g(6,7,8) by (auto simp: instance_announced_def hostForRegistry_def)
qed

text \<open>A world that holds the registry, and a gRPC library that does nothing to it.\<close>

definition demo_life_grpcd :: "(unit, Registry) proc_world grpcd_lib" where
  "demo_life_grpcd =
     \<lparr>gl_NewServer = (\<lambda>ics w. (w, 7)), gl_NewHealth = (\<lambda>w. (w, 1)), gl_RegisterHealth = (\<lambda>srv hs w. w),
      gl_SetServing = (\<lambda>h b w. w), gl_Listen = (\<lambda>a w. (w, Inr 2)), gl_Serve = (\<lambda>a b w. w), gl_GracefulStop = (\<lambda>a w. w),
      gl_StopServer = (\<lambda>a w. w), gl_uuid = (\<lambda>w. (w, ''u''))\<rparr>"

definition demo_life_env :: "(unit, Registry, unit, unit, unit) proc_env \<Rightarrow> (unit, Registry, unit, unit, unit) proc_env" where
  "demo_life_env env =
     env\<lparr>pe_grpcd := demo_life_grpcd,
         pe_registrar := (\<lambda>v. case v of OMemRegistry n \<Rightarrow> Some (memory_registrar pw_ext (\<lambda>r w. w\<lparr>pw_ext := r\<rparr>)) | _ \<Rightarrow> None)\<rparr>"

theorem default_service_announced_witness:
  "\<forall>env. \<exists>p2 p3. run_components (demo_life_env env) 0 (service_modules (\<lambda>_ w. w) ''example-service'') id (Some ''interrupt'') 5
       \<lparr>pw_handler = None, pw_ext = NewRegistry\<rparr> (default_Config ''demo'') = (Some p3, Ret None) \<and>
     app_Stop (proc_ops (demo_life_env env)) (WithTimeout 5 Background (15 * second)) (log_signal (Some ''interrupt'') p2) = (p3, Ret None) \<and>
     map si_Address (Resolve ''demo'' (pw_ext (ru_world (ap_rt p2)))) = [''127.0.0.1''] \<and>
     Resolve ''demo'' (pw_ext (ru_world (ap_rt p3))) = []"
proof
  fix env :: "(unit, Registry, unit, unit, unit) proc_env"
  have u: "uses_registry (demo_life_env env) (\<lambda>_ w. w) (Suc (Suc 0)) pw_ext (\<lambda>r w. w\<lparr>pw_ext := r\<rparr>)"
    by (simp add: uses_registry_def demo_life_env_def demo_life_grpcd_def lens_def lib_keeps_def)
  have l: "\<forall>addr w. \<exists>w' l. gl_Listen (pe_grpcd (demo_life_env env)) addr w = (w', Inr l)"
    by (simp add: demo_life_env_def demo_life_grpcd_def)
  have "services (pw_ext \<lparr>pw_handler = None, pw_ext = NewRegistry\<rparr>) = []" by (simp add: NewRegistry_def)
  from default_service_announced [OF u l this, of id "''example-service''" "Some ''interrupt''" 5 "''demo''"]
  show "\<exists>p2 p3. run_components (demo_life_env env) 0 (service_modules (\<lambda>_ w. w) ''example-service'') id (Some ''interrupt'') 5
       \<lparr>pw_handler = None, pw_ext = NewRegistry\<rparr> (default_Config ''demo'') = (Some p3, Ret None) \<and>
     app_Stop (proc_ops (demo_life_env env)) (WithTimeout 5 Background (15 * second)) (log_signal (Some ''interrupt'') p2) = (p3, Ret None) \<and>
     map si_Address (Resolve ''demo'' (pw_ext (ru_world (ap_rt p2)))) = [''127.0.0.1''] \<and>
     Resolve ''demo'' (pw_ext (ru_world (ap_rt p3))) = []"
    by (auto simp: Resolve_def) (rule exI, rule conjI, assumption, simp)
qed

section \<open>Service names at the gateway\<close>

text \<open>The resolver and the dialer that \<open>mountConfiguredRoutes\<close> gives to the proxy of all routes; \<open>as_resolver\<close> is the type
  assertion to \<open>registry.Resolver\<close>.\<close>

definition gateway_resolver ::
  "(obj \<Rightarrow> (string \<Rightarrow> 'w \<Rightarrow> 'w \<times> ServiceInstance list result) option) \<Rightarrow> ('v, obj) runtime \<Rightarrow>
   (string \<Rightarrow> 'w \<Rightarrow> 'w \<times> ServiceInstance list result) option" where
  "gateway_resolver as_resolver s = Option.bind (rt_Get ''resolver'' s) as_resolver"

definition newGRPCProxy ::
  "(obj \<Rightarrow> (string \<Rightarrow> 'w \<Rightarrow> 'w \<times> ServiceInstance list result) option) \<Rightarrow> ('v, obj) runtime \<Rightarrow> 'w Dialer" where
  "newGRPCProxy as_resolver s = NewDialer (gateway_resolver as_resolver s)"

text \<open>The resolver over the registry that a world contains.\<close>

definition registry_resolver :: "('w \<Rightarrow> Registry) \<Rightarrow> string \<Rightarrow> 'w \<Rightarrow> 'w \<times> ServiceInstance list result" where
  "registry_resolver get nm w = (w, Inr (Resolve nm (get w)))"

lemma default_resolver:
  "\<exists>s. each_module (proc_ops env) msg (proc_Init env) cx (map PAdapter (default_adapters a)) s0 =
      (map PAdapter (default_adapters a), s, Ret None) \<and> rt_Get ''resolver'' s = Some (OMemRegistry (Suc (Suc a)))"
  by (simp add: default_adapters_def adapter_inits proc_ops_def Let_def)

text \<open>A gateway among the default components finds a service by name exactly while it is registered: a route without
  target dials the address and port of the first instance, and the request fails while there is none. The first request
  opens the connection; later ones for the same instance reuse it.\<close>

theorem gateway_discovers:
  assumes "as_resolver (OMemRegistry (Suc (Suc a))) = Some (registry_resolver get)"
    and "trimSpace (rt_Target cfg) = []" and "gl_NewClient lib (si_Address i @ '':'' @ itoa (si_Port i)) (px_world s) = (w', Inr c)"
    and "get w' = get (px_world s)"
  shows "\<exists>rt. each_module (proc_ops env) msg (proc_Init env) cx (map PAdapter (default_adapters a)) s0 =
      (map PAdapter (default_adapters a), rt, Ret None) \<and>
    (px_dialer s = newGRPCProxy as_resolver rt \<longrightarrow>
      (Resolve (rt_Service cfg) (get (px_world s)) = [] \<longrightarrow>
         dial lib cfg s = (s, Inl (PlainError (''service not found: '' @ rt_Service cfg)))) \<and>
      (\<forall>is. Resolve (rt_Service cfg) (get (px_world s)) = i # is \<longrightarrow>
         (\<exists>s'. dial lib cfg s = (s', Inr c) \<and> px_world s' = w' \<and> dial lib cfg s' = (s', Inr c))))"
proof -
  obtain rt where "each_module (proc_ops env) msg (proc_Init env) cx (map PAdapter (default_adapters a)) s0 =
      (map PAdapter (default_adapters a), rt, Ret None)" "rt_Get ''resolver'' rt = Some (OMemRegistry (Suc (Suc a)))"
    using default_resolver by blast
  moreover from this(2) assms(1) have "newGRPCProxy as_resolver rt = \<lparr>d_resolver = Some (registry_resolver get), d_conns = []\<rparr>"
    by (simp add: newGRPCProxy_def gateway_resolver_def NewDialer_def)
  ultimately show ?thesis
    using assms(2-4)
    by (intro exI [of _ rt])
       (auto simp: dial_def DialService_def DialTarget_def registry_resolver_def dial_cached_def dial_store_def)
qed

text \<open>These connections are never closed. \<open>Stop\<close> closes the pools of the routes with a target only: if no route has one,
  it does nothing but shut the server down, whatever the requests have dialled.\<close>

theorem dialled_connections_survive_stop:
  assumes "gateway_Init env cfg custom gateway_New v = (g, v', None)" and "mounts_append (ge_plugins env)"
    and "\<forall>f \<in> set custom. \<forall>a. \<exists>x. f a = a @ x" and "\<forall>r \<in> set (gw_Routes (c_Gateway cfg)). trimSpace (rt_Target r) = []"
  shows "gateway_Stop lib shutdown g w = shutdown w"
proof -
  have "list_all2 (\<lambda>r route. pr_conns route = []) (gw_Routes (c_Gateway cfg)) (g_routes g)"
  proof -
    obtain rest where "list_all2 (\<lambda>r route. route_ready env r route \<and> (\<exists>hs. routeEntry env r route hs \<in> set rest))
        (gw_Routes (c_Gateway cfg)) (g_routes g)"
      using gateway_assembly [OF assms(1-3)] by blast
    then show ?thesis using assms(4) by (auto simp: list_all2_conv_all_nth route_ready_def)
  qed
  then have none: "concat (map pr_conns (g_routes g)) = []" by (auto simp: list_all2_conv_all_nth in_set_conv_nth)
  show ?thesis unfolding gateway_Stop_def none by (simp split: prod.splits)
qed

end
