(* ===== verification/SF_Programs.thy ===== *)
theory SF_Programs
  imports SF_Process
begin

text \<open>
  The remaining programs of the repository: the \<open>svcforge\<close> tool (\<open>cmd/svcforge/main.go\<close>) as the tree of its
  commands and the exit status of \<open>main\<close>, and the two programs the benchmark compares the gateway with
  (\<open>examples/bench/backend\<close> and \<open>examples/bench/grpcgatewaygw\<close>). The command line library, grpc-gateway's
  runtime and \<open>net/http\<close> are parameters.
\<close>

section \<open>The command line tool\<close>

text \<open>A \<open>cobra.Command\<close>: usage line, short text, the number of arguments \<open>ExactArgs\<close> asks for, the string flags
  (name, default, description), what it runs with the values of the flags and the arguments, and its commands.\<close>

datatype 'w cobra_Command = Command
  (cb_Use: string) (cb_Short: string) (cb_Args: "nat option") (cb_Flags: "(string \<times> string \<times> string) list")
  (cb_RunE: "((string \<Rightarrow> string) \<Rightarrow> string list \<Rightarrow> 'w \<Rightarrow> 'w \<times> go_error option) option") (cb_Commands: "'w cobra_Command list")

text \<open>What the commands use: the file system, the order in which a map of files is ranged over, \<open>os.Getwd\<close>,
  \<open>exec.LookPath\<close>, the run of a program and the two output streams.\<close>

record 'w cli_env =
  cl_fs :: "'w fs_lib"
  cl_order :: "(string \<times> string) list \<Rightarrow> (string \<times> string) list"
  cl_Getwd :: "string result"
  cl_LookPath :: "string \<Rightarrow> string result"
  cl_Run :: "string list \<Rightarrow> 'w \<Rightarrow> 'w \<times> go_error option"
  cl_Stdout :: "string \<Rightarrow> 'w \<Rightarrow> 'w"
  cl_Stderr :: "string \<Rightarrow> 'w \<Rightarrow> 'w"

definition new_flags :: "(string \<times> string \<times> string) list" where
  "new_flags =
     [(''db'', ''noop'', ''database adapter''), (''cache'', ''memory'', ''cache adapter''), (''mq'', ''memory'', ''message queue adapter''),
      (''registry'', ''memory'', ''service registry adapter''), (''tracing'', ''noop'', ''tracing adapter''),
      (''replace'', [], ''local replacement path for github.com/svcforge/service-forge'')]"

definition flag_options :: "(string \<Rightarrow> string) \<Rightarrow> ProjectOptions" where
  "flag_options flag =
     \<lparr>po_Name = [], po_ServiceName = [], po_Replace = flag ''replace'', po_DB = flag ''db'', po_Cache = flag ''cache'',
      po_MQ = flag ''mq'', po_Registry = flag ''registry'', po_Tracing = flag ''tracing''\<rparr>"

definition new_command :: "'w cli_env \<Rightarrow> 'w cobra_Command" where
  "new_command env =
     Command ''new <project>'' ''Create a new Service Forge project'' (Some 1) new_flags
       (Some (\<lambda>flag args. newCmd (cl_fs env) (cl_order env) (cl_Getwd env) (flag_options flag) (args ! 0))) []"

definition add_command :: "'w cli_env \<Rightarrow> 'w cobra_Command" where
  "add_command env =
     Command ''add'' ''Add framework resources'' None [] None
       [Command ''service <name>'' ''Add a gRPC-only service skeleton'' (Some 1) []
          (Some (\<lambda>_ args. addCmd (cl_fs env) (cl_order env) (cl_Getwd env) (args ! 0))) []]"

definition proto_command :: "'w cli_env \<Rightarrow> 'w cobra_Command" where
  "proto_command env =
     Command ''proto'' ''Protocol buffer helpers'' None [] None
       [Command ''gen'' ''Run buf generate when buf is installed'' None []
          (Some (\<lambda>_ _. protoCmd (cl_LookPath env) (cl_Run env))) []]"

definition doctor_command :: "'w cli_env \<Rightarrow> 'w cobra_Command" where
  "doctor_command env =
     Command ''doctor'' ''Check Service Forge project basics'' None []
       (Some (\<lambda>_ _ w. case doctor (cl_fs env) w of
                        Some e \<Rightarrow> (w, Some e)
                      | None \<Rightarrow> (cl_Stdout env ''Service Forge project looks ok'' w, None))) []"

definition rootCmd :: "'w cli_env \<Rightarrow> 'w cobra_Command" where
  "rootCmd env =
     Command ''svcforge'' ''Service Forge microservice scaffolding tool'' None [] None
       [new_command env, add_command env, proto_command env, doctor_command env]"

text \<open>\<open>main\<close>: the world it leaves and the status it exits with. \<open>execute\<close> is \<open>Command.Execute\<close> on the arguments
  of the process.\<close>

definition svcforge_main ::
  "('w cobra_Command \<Rightarrow> string list \<Rightarrow> 'w \<Rightarrow> 'w \<times> go_error option) \<Rightarrow> 'w cli_env \<Rightarrow> string list \<Rightarrow> 'w \<Rightarrow> 'w \<times> nat" where
  "svcforge_main execute env argv w =
     (case execute (rootCmd env) argv w of
        (w', Some e) \<Rightarrow> (cl_Stderr env (Error e) w', 1)
      | (w', None) \<Rightarrow> (w', 0))"

subsection \<open>What cobra does\<close>

text \<open>The command that arguments without flags select: each argument that names a command below goes one step down,
  the others are the arguments of the command reached.\<close>

fun cobra_find :: "'w cobra_Command \<Rightarrow> string list \<Rightarrow> 'w cobra_Command \<times> string list" where
  "cobra_find cmd [] = (cmd, [])"
| "cobra_find cmd (a # as) =
     (case find (\<lambda>c. takeWhile (\<lambda>x. x \<noteq> CHR '' '') (cb_Use c) = a) (cb_Commands cmd) of
        Some c \<Rightarrow> cobra_find c as
      | None \<Rightarrow> (cmd, a # as))"

definition flag_default :: "'w cobra_Command \<Rightarrow> string \<Rightarrow> string" where
  "flag_default cmd n = (case map_of (cb_Flags cmd) n of None \<Rightarrow> [] | Some (d, _) \<Rightarrow> d)"

text \<open>The documented behaviour of \<open>Execute\<close> on arguments none of which is a flag: a command with a wrong number of
  arguments fails without running, and otherwise the command runs with the defaults of its flags; \<open>report\<close> is what cobra
  prints for an error.\<close>

definition cobra_runs ::
  "('w cobra_Command \<Rightarrow> string list \<Rightarrow> 'w \<Rightarrow> 'w \<times> go_error option) \<Rightarrow> (go_error \<Rightarrow> 'w \<Rightarrow> 'w) \<Rightarrow> bool" where
  "cobra_runs execute report \<longleftrightarrow>
     (\<forall>root argv w cmd args run. list_all (\<lambda>a. take 1 a \<noteq> ''-'') argv \<and> cobra_find root argv = (cmd, args) \<and> cb_RunE cmd = Some run \<longrightarrow>
        (if cb_Args cmd = None \<or> cb_Args cmd = Some (length args)
         then execute root argv w =
           (case run (flag_default cmd) args w of (w', Some e) \<Rightarrow> (report e w', Some e) | (w', None) \<Rightarrow> (w', None))
         else \<exists>e. execute root argv w = (report e w, Some e)))"

lemma new_flags_default: "flag_options (flag_default (new_command env)) = newCmd_flags"
  by (simp add: flag_options_def flag_default_def new_command_def new_flags_def newCmd_flags_def)

text \<open>The tool generates a project with the default options and exits with 0, or reports the error and exits with 1; a
  wrong number of arguments generates nothing.\<close>

theorem svcforge_new:
  assumes "cobra_runs execute report" and "cl_Getwd env = Inr dir" and "list_all (\<lambda>a. take 1 a \<noteq> ''-'') args"
  shows "(\<forall>p. args = [p] \<longrightarrow> svcforge_main execute env (''new'' # args) w =
      (case GenerateProject (cl_fs env) (cl_order env) dir (newCmd_flags\<lparr>po_Name := p\<rparr>) w of
         (w', None) \<Rightarrow> (w', 0)
       | (w', Some e) \<Rightarrow> (cl_Stderr env (Error e) (report e w'), 1))) \<and>
    (length args \<noteq> 1 \<longrightarrow> (\<exists>e. svcforge_main execute env (''new'' # args) w = (cl_Stderr env (Error e) (report e w), 1)))"
proof -
  let ?new = "new_command env"
  have sub: "cobra_find ?new as = (?new, as)" for as by (cases as) (simp_all add: new_command_def)
  have "takeWhile (\<lambda>x. x \<noteq> CHR '' '') (cb_Use ?new) = ''new''" by (simp add: new_command_def)
  then have f: "cobra_find (rootCmd env) (''new'' # args) = (?new, args)" by (simp add: rootCmd_def sub)
  have run: "cb_RunE ?new = Some (\<lambda>flag args. newCmd (cl_fs env) (cl_order env) (cl_Getwd env) (flag_options flag) (args ! 0))"
    "cb_Args ?new = Some 1"
    by (simp_all add: new_command_def)
  have "list_all (\<lambda>a. take 1 a \<noteq> ''-'') (''new'' # args)" using assms(3) by simp
  note R = assms(1) [unfolded cobra_runs_def, rule_format, OF conjI [OF this conjI [OF f run(1)]], of w]
  show ?thesis
  proof (intro conjI allI impI)
    fix p assume "args = [p]"
    with R run(2) assms(2) show "svcforge_main execute env (''new'' # args) w =
      (case GenerateProject (cl_fs env) (cl_order env) dir (newCmd_flags\<lparr>po_Name := p\<rparr>) w of
         (w', None) \<Rightarrow> (w', 0)
       | (w', Some e) \<Rightarrow> (cl_Stderr env (Error e) (report e w'), 1))"
      by (simp add: svcforge_main_def newCmd_def new_flags_default split: prod.splits option.splits)
  next
    assume "length args \<noteq> 1"
    with R run(2) show "\<exists>e. svcforge_main execute env (''new'' # args) w = (cl_Stderr env (Error e) (report e w), 1)"
      by (auto simp: svcforge_main_def)
  qed
qed

section \<open>The benchmark's peers\<close>

text \<open>The backend: a gRPC server with the health service; \<open>run_server\<close> is \<open>server.Serve\<close>. As for the other programs an error
  is what \<open>main\<close> gives to \<open>log.Fatal\<close>.\<close>

definition backend_main ::
  "'w grpcd_lib \<Rightarrow> (nat \<Rightarrow> nat \<Rightarrow> 'w \<Rightarrow> 'w \<times> go_error option) \<Rightarrow> (string \<Rightarrow> 'w \<Rightarrow> 'w) \<Rightarrow> string \<Rightarrow> 'w \<Rightarrow> 'w \<times> go_error option" where
  "backend_main L run_server printf addr w =
     (case gl_Listen L addr w of
        (w1, Inl e) \<Rightarrow> (w1, Some (PlainError (''listen '' @ addr @ '': '' @ Error e)))
      | (w1, Inr listener) \<Rightarrow>
          (let (w2, srv) = gl_NewServer L [] w1;
               (w3, hs) = gl_NewHealth L w2;
               w4 = gl_SetServing L hs True w3;
               w5 = gl_RegisterHealth L srv hs w4
           in run_server srv listener (printf (''bench backend listening on '' @ addr) w5)))"

text \<open>
  grpc-gateway's runtime, on requests \<open>'q\<close>, contexts \<open>'c\<close>, marshalers \<open>'s\<close>, server metadata \<open>'d\<close> and messages \<open>'m\<close>:
  annotating the context of a request for a procedure and a path pattern, and the two ways to answer.
\<close>

record ('q, 'c, 's, 'd, 'm, 'w) ggw_runtime =
  gg_Context :: "'q \<Rightarrow> 'c"
  gg_Marshalers :: "'q \<Rightarrow> 's \<times> 's"
  gg_AnnotateContext :: "'c \<Rightarrow> 'q \<Rightarrow> string \<Rightarrow> string \<Rightarrow> 'c result"
  gg_NewServerMetadataContext :: "'c \<Rightarrow> 'd \<Rightarrow> 'c"
  gg_HTTPError :: "'c \<Rightarrow> 's \<Rightarrow> 'q \<Rightarrow> go_error \<Rightarrow> 'w \<Rightarrow> 'w"
  gg_ForwardResponse :: "'c \<Rightarrow> 's \<Rightarrow> 'q \<Rightarrow> 'm \<Rightarrow> 'w \<Rightarrow> 'w"
  gg_Check :: "'c \<Rightarrow> 'w \<Rightarrow> 'w \<times> 'm \<times> 'd \<times> go_error option"

definition requestHealthCheck ::
  "('q, 'c, 's, 'd, 'm, 'w) ggw_runtime \<Rightarrow> 'c \<Rightarrow> 's \<Rightarrow> 'w \<Rightarrow> 'w \<times> 'm \<times> 'd \<times> go_error option" where
  "requestHealthCheck G cx inbound w = gg_Check G cx w"

definition healthCheckHandler :: "('q, 'c, 's, 'd, 'm, 'w) ggw_runtime \<Rightarrow> 'q \<Rightarrow> 'w \<Rightarrow> 'w" where
  "healthCheckHandler G req w =
     (let cx = gg_Context G req; (inbound, outbound) = gg_Marshalers G req
      in case gg_AnnotateContext G cx req ''/grpc.health.v1.Health/Check'' ''/api/health'' of
           Inl e \<Rightarrow> gg_HTTPError G cx outbound req e w
         | Inr acx \<Rightarrow>
             (case requestHealthCheck G acx inbound w of
                (w', resp, md, err) \<Rightarrow>
                  (let acx' = gg_NewServerMetadataContext G acx md
                   in case err of
                        Some e \<Rightarrow> gg_HTTPError G acx' outbound req e w'
                      | None \<Rightarrow> gg_ForwardResponse G acx' outbound req resp w')))"

text \<open>\<open>healthCheckPattern\<close>: the version, the operations and the string pool given to \<open>runtime.NewPattern\<close>.\<close>

definition healthCheckPattern :: "nat \<times> nat list \<times> string list \<times> string" where
  "healthCheckPattern = (1, [2, 0, 2, 1], [''api'', ''health''], [])"

text \<open>\<open>main\<close>: \<open>newClient\<close> is \<open>grpc.NewClient\<close>, \<open>listen\<close> is \<open>http.ListenAndServe\<close> on the routes of the mux.\<close>

definition grpcgateway_main ::
  "('q, 'c, 's, 'd, 'm, 'w) ggw_runtime \<Rightarrow> (string \<Rightarrow> 'w \<Rightarrow> 'w \<times> nat result) \<Rightarrow>
   (string \<Rightarrow> (string \<times> (nat \<times> nat list \<times> string list \<times> string) \<times> ('q \<Rightarrow> 'w \<Rightarrow> 'w)) list \<Rightarrow> 'w \<Rightarrow> 'w \<times> go_error option) \<Rightarrow>
   (string \<Rightarrow> 'w \<Rightarrow> 'w) \<Rightarrow> string \<Rightarrow> string \<Rightarrow> 'w \<Rightarrow> 'w \<times> go_error option" where
  "grpcgateway_main G newClient listen printf addr target w =
     (case newClient target w of
        (w1, Inl e) \<Rightarrow> (w1, Some (PlainError (''dial backend: '' @ Error e)))
      | (w1, Inr conn) \<Rightarrow>
          listen addr [(''GET'', healthCheckPattern, healthCheckHandler G)]
            (printf (''grpc-gateway bench listening on '' @ addr @ '' -> '' @ target) w1))"

text \<open>The operations of a pattern that only push literals, read as a path: code 2 pushes the string at the index that
  follows it.\<close>

fun literal_path :: "nat list \<Rightarrow> string list \<Rightarrow> string option" where
  "literal_path [] pool = Some []"
| "literal_path [c] pool = None"
| "literal_path (c # i # ops) pool =
     (if c = 2 \<and> i < length pool then map_option (\<lambda>p. CHR ''/'' # pool ! i @ p) (literal_path ops pool) else None)"

text \<open>The two gateways of the benchmark are comparable: the route of the framework's gateway and the only route of the
  grpc-gateway program have the same method, path and procedure.\<close>

theorem bench_gateways_agree:
  "case gw_Routes (c_Gateway (bench_Config port target profile)) of
     [r] \<Rightarrow>
       (\<forall>G newClient listen printf addr w. (\<exists>w1 c. newClient target w = (w1, Inr c)) \<longrightarrow>
          (\<exists>w2. grpcgateway_main G newClient listen printf addr target w =
                 listen addr [(rt_Method r, healthCheckPattern, healthCheckHandler G)] w2)) \<and>
       literal_path (fst (snd healthCheckPattern)) (fst (snd (snd healthCheckPattern))) = Some (rt_Path r) \<and>
       rt_RPC r = ''/grpc.health.v1.Health/Check''
   | _ \<Rightarrow> False"
  by (auto simp: bench_Config_def grpcgateway_main_def healthCheckPattern_def)

end
