(* ===== verification/Spec2Isabelle.thy ===== *)
theory Spec2Isabelle
  imports SF_Stream SF_Stack SF_Lifecycle SF_Programs
begin

text \<open>
  A verification library for \<^emph>\<open>service-forge\<close>, a Go framework for microservices: an HTTP gateway in
  front of gRPC services, infrastructure adapters behind ports, and a generator for new projects.

  \<^bold>\<open>The program.\<close> A process is an \<open>Application\<close> (\<open>core/app\<close>) that initialises, starts and stops modules
  (\<open>core/module\<close>): adapters chosen from a catalogue by the configuration (\<open>core/config\<close>, \<open>adapters\<close>), a
  gRPC server (\<open>transport/grpcserver\<close>) or the gateway (\<open>transport/gateway\<close>). A request to the gateway
  passes the global plugins, the plugins of its route and then the proxy, which binds the request,
  asks the route's circuit breaker, picks a pooled connection, forwards JWT claims, calls the
  backend under the retry policy, and writes the reply or the error envelope (\<open>core/errors\<close>).
  Stream routes bridge a WebSocket or server-sent events to a gRPC stream instead. The generator
  (\<open>templates\<close>, \<open>cmd/svcforge\<close>) writes a project with a complete example service.

  \<^bold>\<open>Theories.\<close> Every definition is named after the Go identifier it translates, with a prefix where two
  packages share it.

  \<^item> \<open>SF_Prelude\<close>: package \<open>strings\<close> and \<open>strconv\<close>, Go maps, \<open>int32\<close> and \<open>int64\<close> wrap-around, results and
    panics; the interfaces \<open>go_map\<close> (the built-in maps), \<open>name_registry\<close> (a table under normalised
    names: invokers, plugins, components) and \<open>machine\<close> (invariants of step relations). \<open>SF_Float\<close>:
    \<open>float64\<close> comparison, conversion and quotients with exact rounding. \<open>SF_Stdlib\<close>: \<open>path/filepath\<close>,
    \<open>os.ExpandEnv\<close>.
  \<^item> \<open>SF_Errors\<close> (\<open>core/errors\<close>): codes, status tables, the translation to and from gRPC. Round trip of
    every framework code.
  \<^item> \<open>SF_Config\<close> (\<open>core/config\<close>): structs, defaults, layered loading. A later layer wins key by key at
    every depth, and the absence of a file changes nothing.
  \<^item> \<open>SF_Breaker\<close> (\<open>circuitbreaker.go\<close>): the breaker's methods and a step relation of concurrent callers.
    Exact accounting of calls in flight, when it trips, what it rejects and for how long, how it recovers
    under any interleaving of its probes.
  \<^item> \<open>SF_Balancer\<close> (\<open>balancer.go\<close>): the three strategies behind the interface \<open>balancer_contract\<close>. Fairness,
    minimality, exact counters when callers interleave load by load.
  \<^item> \<open>SF_Claims\<close> (\<open>claimforward.go\<close>), \<open>SF_Route\<close> (\<open>retry.go\<close>, route compilation and the tables of
    \<open>proxy.go\<close> and \<open>proxy_stream.go\<close>), \<open>SF_Dialer\<close> (\<open>transport/grpcclient\<close>, interface \<open>dialing\<close>).
  \<^item> \<open>SF_Proxy\<close> (\<open>proxy.go\<close>, \<open>Invoke\<close>): breaker, retries, attempts, connections. What a call returns and
    costs; an outage opens the circuit; counters are restored also when an invoker panics.
  \<^item> \<open>SF_Bind\<close> (\<open>proxy.go\<close>, request binding): precedence of body, query and path; pooled messages are
    indistinguishable from fresh ones.
  \<^item> \<open>SF_Plugin\<close>, \<open>SF_Plugins\<close> (\<open>plugin/\<close>, \<open>plugins/\<close>): registry, settings, the seven built-in plugins. The
    interface \<open>gate\<close> is what the two authentication plugins promise.
  \<^item> \<open>SF_Gateway\<close> (\<open>gateway.go\<close>, \<open>plugin_chain.go\<close>, \<open>pluginskip.go\<close>): assembly, skipping, replies, shutdown.
  \<^item> \<open>SF_Stream\<close> (\<open>proxy_stream.go\<close>): the WebSocket bridge as a step relation of two goroutines that block in
    reads and receives (faithful relaying in every interleaving, termination once one side closes), and the
    event stream.
  \<^item> \<open>SF_Module\<close>, \<open>SF_App\<close> (\<open>core/module\<close>, \<open>core/app\<close>, \<open>core/health\<close>): catalogue, lifecycle, health reports.
  \<^item> \<open>SF_Memory\<close> (\<open>adapters/memory\<close>): cache, lock, rate limiter, event bus and registry, with the interfaces
    \<open>cache_port\<close> and \<open>registry_port\<close>; the registry refines a finite map. \<open>SF_Adapters\<close>: the other
    adapters, all modules and \<open>DefaultCatalog\<close>.
  \<^item> \<open>SF_Grpcserver\<close> (\<open>transport/grpcserver\<close>): the server module and the error interceptor.
  \<^item> \<open>SF_Todo\<close>, \<open>SF_Item\<close> (\<open>templates/generator.go\<close>): the generated services, both behind the interface
    \<open>repository_port\<close>.
  \<^item> \<open>SF_Template\<close>, \<open>SF_Texts\<close>, \<open>SF_Generator\<close> (\<open>templates/generator.go\<close>, \<open>cmd/svcforge\<close>): the part of
    \<open>text/template\<close> in use, the template constants byte for byte, and the generator with its commands. No
    template fails, and a generated project can be extended.
  \<^item> \<open>SF_Request\<close>: one request through a unary route of the gateway to the generated service and back, on
    the whole path of \<open>Handle\<close>, \<open>Invoke\<close>, binding, the server's interceptor and the service's methods.
  \<^item> \<open>SF_Process\<close>: the processes of a generated project (service module, main functions, configuration) and
    the example programs, with adapters, gRPC server and gateway as modules of one application.
  \<^item> \<open>SF_Pipeline\<close>: a request through the app of an assembled gateway. A global JWT or API key plugin
    protects every route behind it, up to the endpoints mounted before it and the skip lists; a backend sees the
    identity of the verified token and nothing else, on every attempt of a call.
  \<^item> \<open>SF_Stack\<close>: a generated project as a whole, from the gateway process over the router to the service and back.
    \<open>SF_Lifecycle\<close>: the service process from \<open>main\<close> to its end; it is in its registry exactly while it runs. Also
    the dialer of the gateway's proxy, which finds registered services, and whose connections \<open>Stop\<close> leaves open.
  \<^item> \<open>SF_Programs\<close> (\<open>cmd/svcforge\<close>, \<open>examples/bench\<close>): the command tree and exit status of the tool, and the
    programs of the benchmark that do not use the framework.
  \<^item> This theory: properties that span components, from a service's error to the HTTP client, from an
    open circuit to the reply, from a component list to an initialised application that finds its components.

  \<^bold>\<open>Conventions.\<close> A method that holds its receiver's mutex throughout is one function on the state; a
  method that takes it twice (\<open>DialTarget\<close>, \<open>UpdateTodo\<close>) is split at that point. Code that runs
  concurrently and whose interleaving matters is an \<open>inductive\<close> step relation (breaker, least
  connections, bridge). A panic is an \<open>outcome\<close>, an error a value of type \<open>go_error\<close>. Strings are lists
  of bytes, case mapping and blanks are those of ASCII; a time is the number of nanoseconds since
  Go's zero time and every clock reading is an argument; a Go map is an association list without
  duplicate keys, and where the source ranges over a map the order is an argument. Code outside
  the repository (gRPC, fiber, YAML, JSON and protobuf codecs, golang-jwt, Prometheus, redis, gorm,
  AMQP, consul, OpenTelemetry, the file system, what protoc generates) is an argument, often a record of
  functions on a world \<open>'w\<close>; what a property relies on of it is a named hypothesis, which the
  property's witness discharges for a concrete instance.

  \<^bold>\<open>Bounds.\<close> No definition uses fuel: every loop is structural or has a proved measure (the deep merge and the
  normalisation of maps, environment expansion, the scan for the least loaded connection, the
  retry loop, the splitting of names, the lexing of templates). Machine widths are kept
  where they can be seen: the breaker's 64-bit generation, the round-robin counter, the in-flight
  counters of the connections, the one-byte counter of the rate limiter, the \<open>int32\<close> page arithmetic and the \<open>int64\<close> identifiers.

  \<^bold>\<open>Not modelled.\<close> The interfaces of \<open>ports\<close> that have no code; accessors that only return a field; the log
  lines of route mounting; the YAML decoder, so the generated configuration appears both as the text of the
  template and as the value it stands for; fiber's router, which is a parameter: what \<open>SF_Pipeline\<close> and \<open>SF_Stack\<close>
  assume of it is the order and selection its documentation promises (\<open>fiber_serves\<close>), and the other theories
  speak of the handlers mounted for a request in their order; the panic of its \<open>Add\<close> on a method it does not know; the parsing of command line flags, where only the defaults
  are assumed (\<open>cobra_runs\<close>); and the duration of calls, so a timeout is the deadline that is set, not its expiry.
\<close>

section \<open>Errors from a service to the client\<close>

text \<open>C9: a service's error reaches the HTTP client with its code. When a handler on a gRPC server fails
  with a new error of a framework code, the server's interceptor turns it into a status error, and
  the gateway handler that gets this error from its backend answers with the HTTP status of that
  code and an envelope with the same code and message.\<close>

theorem error_end_to_end:
  assumes "E = errors_init se fe" and "status_doc E" and "status_kind E" and "c \<in> set framework_codes" and "c \<noteq> CodeOK"
    and "handler req w = (w', Ret (x, Some (New E c m)))"
  shows "\<exists>ge. ErrorInterceptor E handler req w = (w', Ret (None, Some ge)) \<and> \<not> is_AppError ge \<and>
           Handle E (\<lambda>_ f. (f, Ret (Inl ge))) k f =
             (f\<lparr>fc_Status := HTTPStatus E c,
                fc_Body := JSONBody \<lparr>r_Code = c, r_Message = m, r_Data = ANil, r_Details = None, r_Timestamp = fc_Now f\<rparr>\<rparr>, HOk)"
proof -
  from intercepted_error [of E se fe c handler req w w' x m, OF assms] obtain ge where "ErrorInterceptor E handler req w = (w', Ret (None, Some ge))"
    and "\<not> is_AppError ge" and "appError_of E ge = New E c m"
    by blast
  then show ?thesis by (auto simp: Handle_def Failure_def Let_def New_def)
qed

text \<open>The generated todo service behind the interceptor.\<close>

definition todo_get_rpc :: "errors_pkg \<Rightarrow> (string, proto_Todo, TodoRepo) rpc_handler" where
  "todo_get_rpc E i r =
     (case handler_GetTodo E i r of Inl e \<Rightarrow> (r, Ret (None, Some e)) | Inr t \<Rightarrow> (r, Ret (Some t, None)))"

lemma todo_missing_code: "todo_toGRPCError E ErrTodoNotFound = New E CodeNotFound ''todo not found''"
  by (simp add: todo_toGRPCError_def ErrTodoNotFound_def)

theorem error_end_to_end_witness:
  "\<exists>ge. ErrorInterceptor E0 (todo_get_rpc E0) ''77'' \<lparr>tr_seq = 0, tr_todos = []\<rparr> = (\<lparr>tr_seq = 0, tr_todos = []\<rparr>, Ret (None, Some ge)) \<and>
     fc_Status (fst (Handle E0 (\<lambda>_ f. (f, Ret (Inl ge))) (\<lambda>f. (f, HOk)) demo_fctx)) = 404"
proof -
  let ?r = "\<lparr>tr_seq = 0, tr_todos = []\<rparr>"
  have "todo_get_rpc E0 ''77'' ?r = (?r, Ret (None, Some (New E0 CodeNotFound ''todo not found'')))"
    by (simp add: todo_get_rpc_def handler_GetTodo_def GetTodo_def todo_FindByID_def handle_result_def todo_missing_code)
  moreover have "HTTPStatus E0 CodeNotFound = 404"
    by (simp add: errors_init_def HTTPStatus_def httpMap0_def code_defs)
  moreover have "CodeNotFound \<in> set framework_codes" "CodeNotFound \<noteq> CodeOK"
    by (simp_all add: framework_codes_def code_defs)
  ultimately show ?thesis
    using error_end_to_end [OF refl status_doc_E0 status_kind_E0, of CodeNotFound "todo_get_rpc E0" "''77''" ?r ?r None
        "''todo not found''" "\<lambda>f. (f, HOk)" demo_fctx]
    by auto
qed

section \<open>The breaker at the gateway\<close>

text \<open>C31: an open circuit answers for the backend. Take a route whose breaker is open before its expiry, or
  half-open with all its probe calls given out. The gateway answers a request with 503, the code
  UNAVAILABLE and the name of the procedure; the rest of the request's state, with the backend, the
  connections and the breaker and its counters in it, is exactly as before. In every other state the
  breaker admits the call.\<close>

theorem open_circuit_response:
  assumes "ce_err ce = E" and "E = errors_init se fe" and "pr_breaker r = Some b0" and "b = px_breaker (fc_World f)"
    and "0 < halfOpenMaxCalls b"
  shows "let refused = (phase b = stateOpen \<and> t0 < expiry b \<or>
                        phase b = stateHalfOpen \<and> halfOpenMaxCalls b \<le> requests (counts b))
     in (refused \<longrightarrow>
          Handle E (\<lambda>_ f. case Invoke ce r t0 t1 envs (fc_World f) of (s, res) \<Rightarrow> (f\<lparr>fc_World := s\<rparr>, res)) k f =
            (f\<lparr>fc_Status := 503,
               fc_Body := JSONBody \<lparr>r_Code = CodeUnavailable, r_Message = ''circuit breaker open'', r_Data = ANil,
                                    r_Details = Some [(''rpc'', AString (pr_fullRPC r))], r_Timestamp = fc_Now f\<rparr>\<rparr>, HOk)) \<and>
        (\<not> refused \<longrightarrow> snd (snd (beforeRequest t0 b)))"
proof -
  have response: "Handle E (\<lambda>_ f. case Invoke ce r t0 t1 envs (fc_World f) of (s, res) \<Rightarrow> (f\<lparr>fc_World := s\<rparr>, res)) k f =
      (f\<lparr>fc_Status := 503,
         fc_Body := JSONBody \<lparr>r_Code = CodeUnavailable, r_Message = ''circuit breaker open'', r_Data = ANil,
                              r_Details = Some [(''rpc'', AString (pr_fullRPC r))], r_Timestamp = fc_Now f\<rparr>\<rparr>, HOk)"
    if "beforeRequest t0 b = (b, generation b, False)"
  proof -
    have "Invoke ce r t0 t1 envs (fc_World f) = (fc_World f, Ret (Inl (breakerOpenError E (pr_fullRPC r))))"
      using Invoke_rejected [OF assms(3) that [unfolded assms(4)], of ce t1 envs] assms(1) by simp
    moreover have "HTTPStatus E CodeUnavailable = 503"
      by (simp add: assms(2) errors_init_def HTTPStatus_def httpMap0_def code_defs)
    ultimately show ?thesis
      by (simp add: Handle_def appError_of_def breakerOpenError_def New_def Failure_def Let_def)
  qed
  show ?thesis
    unfolding Let_def using response open_beforeRequest full_beforeRequest admitting_beforeRequest [OF assms(5)] by blast
qed

definition open_ctx :: "nat px fctx" where
  "open_ctx =
     \<lparr>fc_Method = ''GET'', fc_Path = ''/todos/1'', fc_RoutePath = ''/todos/:id'', fc_Header = (\<lambda>_. []), fc_Query = (\<lambda>_. []),
      fc_IP = ''10.0.0.9'', fc_Locals = [], fc_Now = 0, fc_Status = 200, fc_Body = NoBody, fc_Log = [], fc_Metrics = [],
      fc_World = mk_px (cb demo_sys2)\<rparr>"

theorem open_circuit_response_witness:
  "fc_Status (fst (Handle E0
     (\<lambda>_ f. case Invoke demo_ce (mk_route down None [1]) 100 101 demo_envs (fc_World f) of (s, res) \<Rightarrow> (f\<lparr>fc_World := s\<rparr>, res))
     (\<lambda>f. (f, HOk)) open_ctx)) = 503"
proof -
  have b: "px_breaker (fc_World open_ctx) = cb demo_sys2" "ce_err demo_ce = E0" by (simp_all add: open_ctx_def demo_ce_def)
  have "0 < halfOpenMaxCalls (cb demo_sys2)" "phase (cb demo_sys2) = stateOpen" "100 < expiry (cb demo_sys2)"
    by (simp_all add: demo_sys2_def demo_sys_def demo_new_def second_def)
  with b show ?thesis
    using open_circuit_response [of demo_ce E0 plain_status_Error plain_status_FromError "mk_route down None [1]" demo_new
        "cb demo_sys2" open_ctx 100 101 demo_envs "\<lambda>f. (f, HOk)"]
    by (simp add: Let_def)
qed

section \<open>From the configuration to a running application\<close>

text \<open>C30: a configuration of in-memory and no-op components starts without external services. For every
  component list whose enabled entries name such providers (in any spelling), the default catalogue
  builds the modules, the application built from them initialises without error whatever the client
  libraries do, and afterwards every enabled component is found in the value table under its
  normalised name.\<close>

theorem standalone_application:
  assumes "\<forall>sp \<in> set specs. component_IsEnabled sp \<longrightarrow> key (cc_Name sp) (cc_Provider sp) \<in> set local_keys"
  shows "\<exists>heap' ms app'. Build DefaultCatalog specs heap = (heap', Inr ms) \<and>
     app_Init (adapter_ops env) cx (app_New cfg w [WithModules (adapter_ops env) ms]) = (app', Ret None) \<and>
     (\<forall>sp \<in> set specs. component_IsEnabled sp \<longrightarrow> rt_Get (normName (cc_Name sp)) (ap_rt app') \<noteq> None)"
proof -
  have "local_components specs" using assms by (simp add: local_components_def list_all_iff)
  from local_build [OF this] obtain heap' ms where b: "Build DefaultCatalog specs heap = (heap', Inr ms)" "list_all local_adapter ms"
    and names: "\<forall>sp \<in> set specs. component_IsEnabled sp \<longrightarrow>
       normName (cc_Name sp) \<noteq> [] \<and> (\<exists>m \<in> set ms. normName (cc_Name sp) \<in> set (adapter_keys m))"
    by blast
  let ?app = "app_New cfg w [WithModules (adapter_ops env) ms]"
  have mods: "ap_modules ?app = ms" by (simp add: app_New_def WithModules_def Let_def)
  from local_Init_all [OF b(2), of env "''initializing module''" cx "ap_rt ?app"]
  obtain s' where "each_module (adapter_ops env) ''initializing module'' (mo_Init (adapter_ops env)) cx ms (ap_rt ?app) = (ms, s', Ret None)"
    and "\<forall>m \<in> set ms. \<forall>k \<in> set (adapter_keys m). k \<noteq> [] \<longrightarrow> rt_Get k s' \<noteq> None"
    by blast
  with b(1) mods names show ?thesis by (simp add: app_Init_def) blast
qed

theorem standalone_application_witness:
  "\<forall>env :: unit adapters_env. \<exists>heap' ms app'. Build DefaultCatalog [\<lparr>cc_Name = '' Cache'', cc_Provider = ''MEMORY'', cc_Enabled = None\<rparr>,
        \<lparr>cc_Name = ''store'', cc_Provider = ''oracle'', cc_Enabled = Some False\<rparr>] 0 = (heap', Inr ms) \<and>
     app_Init (adapter_ops env) Background (app_New None () [WithModules (adapter_ops env) ms]) = (app', Ret None) \<and>
     rt_Get ''cache'' (ap_rt app') \<noteq> None"
proof -
  have "key '' Cache'' ''MEMORY'' \<in> set local_keys" "normName '' Cache'' = ''cache''" by code_simp+
  then have "\<exists>heap' ms app'. Build DefaultCatalog [\<lparr>cc_Name = '' Cache'', cc_Provider = ''MEMORY'', cc_Enabled = None\<rparr>,
        \<lparr>cc_Name = ''store'', cc_Provider = ''oracle'', cc_Enabled = Some False\<rparr>] 0 = (heap', Inr ms) \<and>
     app_Init (adapter_ops env) Background (app_New None () [WithModules (adapter_ops env) ms]) = (app', Ret None) \<and>
     rt_Get ''cache'' (ap_rt app') \<noteq> None" for env :: "unit adapters_env"
    using standalone_application [of "[\<lparr>cc_Name = '' Cache'', cc_Provider = ''MEMORY'', cc_Enabled = None\<rparr>,
        \<lparr>cc_Name = ''store'', cc_Provider = ''oracle'', cc_Enabled = Some False\<rparr>]" 0 env Background None "()"]
    by (auto simp: component_IsEnabled_def)
  then show ?thesis by blast
qed

lemma all2_member: "list_all2 P xs ys \<Longrightarrow> x \<in> set xs \<Longrightarrow> \<exists>y \<in> set ys. P x y"
  by (induction rule: list_all2_induct) auto


text \<open>A redis cache on a client library that connects, next to the in-memory registry.\<close>

definition redis_env :: "unit adapters_env \<Rightarrow> unit adapters_env" where
  "redis_env env =
     env\<lparr>ae_redis := (ae_redis env)\<lparr>rl_NewClient := (\<lambda>_ w. (w, 7))\<rparr>,
         ae_redis_cfg := (\<lambda>_. Inr \<lparr>rc_Addr = [], rc_Username = [], rc_Password = [], rc_DB = 0, rc_PoolSize = 0,
            rc_DialTimeout = 0, rc_ReadTimeout = 0, rc_WriteTimeout = 0\<rparr>),
         ae_otel_cfg := (\<lambda>_. Inr \<lparr>ot_Enabled = True, ot_Endpoint = [], ot_ServiceName = [], ot_SampleRate = Fin 1\<rparr>)\<rparr>"

definition redis_specs :: "ComponentConfig list" where
  "redis_specs = [\<lparr>cc_Name = ''Cache'', cc_Provider = ''redis'', cc_Enabled = None\<rparr>,
     \<lparr>cc_Name = ''registry'', cc_Provider = '' Memory'', cc_Enabled = None\<rparr>]"


end
